(* ===== verification/Prelude.thy ===== *)
theory Prelude
  imports Main
begin

text \<open>
  The vocabulary every component of the development shares: HTTP results, clocks, the part of
  Python's string library the sources use, JSON values, database tables as lists of rows, the
  outcome of an HTTP request between two services, and the two interfaces for state machines
  (an invariant kept by every step, and a measure that every effective step lowers).

  Strings are lists of characters; a \<^typ>\<open>char\<close> stands for a Unicode code point below 256, and
  the operations below agree with CPython on that range.
\<close>

named_theorems row_simps \<open>how an operation changes the fields of a row\<close>
named_theorems api_defs \<open>definitions of request handlers\<close>

section \<open>Results of request handlers\<close>

text \<open>
  A handler either returns a value or raises: an \<open>HTTPException\<close> with its status code and detail,
  or an exception nobody catches, which the framework turns into status 500.
\<close>

datatype http_error = HTTPException nat string | Unhandled string

type_synonym 'a http = "http_error + 'a"

fun status_code :: "http_error \<Rightarrow> nat" where
  "status_code (HTTPException c _) = c"
| "status_code (Unhandled _) = 500"

definition is_ok :: "'a http \<Rightarrow> bool" where
  "is_ok r = (case r of Inl _ \<Rightarrow> False | Inr _ \<Rightarrow> True)"

lemma is_ok_simps [simp]: "is_ok (Inr x)" "\<not> is_ok (Inl e)"
  by (simp_all add: is_ok_def)

section \<open>Clocks\<close>

text \<open>
  A point in time is a number of microseconds, the resolution of Python's \<open>datetime\<close> and of
  PostgreSQL's \<open>timestamptz\<close>.
\<close>

type_synonym datetime = int

definition seconds :: "int \<Rightarrow> int" where
  "seconds n = n * 1000000"

lemma seconds_mono [simp]: "seconds a \<le> seconds b \<longleftrightarrow> a \<le> b"
  by (simp add: seconds_def)

lemma seconds_nonneg [simp]: "0 \<le> seconds a \<longleftrightarrow> 0 \<le> a"
  by (simp add: seconds_def)

lemma seconds_pos [simp]: "0 < seconds a \<longleftrightarrow> 0 < a"
  by (simp add: seconds_def zero_less_mult_iff)

section \<open>Python strings\<close>

text \<open>\<open>str.lower\<close>, \<open>str.isspace\<close> and \<open>str.strip\<close> on the code points below 256.\<close>

definition char_lower :: "char \<Rightarrow> char" where
  "char_lower c =
     (let n = (of_char c :: nat)
      in if 65 \<le> n \<and> n \<le> 90 \<or> 192 \<le> n \<and> n \<le> 222 \<and> n \<noteq> 215 then char_of (n + 32) else c)"

definition py_lower :: "string \<Rightarrow> string" where
  "py_lower s = map char_lower s"

definition is_space :: "char \<Rightarrow> bool" where
  "is_space c =
     (let n = (of_char c :: nat)
      in 9 \<le> n \<and> n \<le> 13 \<or> 28 \<le> n \<and> n \<le> 32 \<or> n = 133 \<or> n = 160)"

definition py_lstrip :: "string \<Rightarrow> string" where
  "py_lstrip s = dropWhile is_space s"

definition py_strip :: "string \<Rightarrow> string" where
  "py_strip s = rev (py_lstrip (rev (py_lstrip s)))"

lemma py_strip_empty_iff: "py_strip s = [] \<longleftrightarrow> (\<forall>c \<in> set s. is_space c)"
proof -
  have "py_strip s = [] \<longleftrightarrow> (\<forall>c \<in> set (dropWhile is_space s). is_space c)"
    by (simp add: py_strip_def py_lstrip_def)
  also have "\<dots> \<longleftrightarrow> (\<forall>c \<in> set s. is_space c)"
    by (induction s) auto
  finally show ?thesis .
qed

lemma length_py_lower [simp]: "length (py_lower s) = length s"
  by (simp add: py_lower_def)

text \<open>\<open>str.startswith\<close> and \<open>sub in s\<close>.\<close>

definition py_startswith :: "string \<Rightarrow> string \<Rightarrow> bool" where
  "py_startswith s p = (take (length p) s = p)"

fun py_in :: "string \<Rightarrow> string \<Rightarrow> bool" where
  "py_in sub [] = (sub = [])"
| "py_in sub (c # s) = (py_startswith (c # s) sub \<or> py_in sub s)"

text \<open>\<open>str.split\<close> at a character.\<close>

fun py_split :: "char \<Rightarrow> string \<Rightarrow> string list" where
  "py_split d [] = [[]]"
| "py_split d (c # s) =
     (if c = d then [] # py_split d s
      else (case py_split d s of [] \<Rightarrow> [[c]] | w # ws \<Rightarrow> (c # w) # ws))"

lemma py_split_ne [simp]: "py_split d s \<noteq> []"
  by (induction s) (auto split: list.splits)

lemma py_split_plain: "d \<notin> set s \<Longrightarrow> py_split d s = [s]"
  by (induction s) auto

lemma py_split_append: "py_split d (s @ d # t) = py_split d s @ py_split d t"
  by (induction s) (auto split: list.splits)

text \<open>\<open>repr\<close> of a string that needs no escape.\<close>

definition quoted :: "string \<Rightarrow> string" where
  "quoted s = CHR 39 # s @ [CHR 39]"

text \<open>\<open>str\<close> of an integer, and PostgreSQL's cast of an integer column to text.\<close>

fun nat_digits :: "nat \<Rightarrow> string" where
  "nat_digits n =
     (if n < 10 then [char_of (48 + n)] else nat_digits (n div 10) @ [char_of (48 + n mod 10)])"

declare nat_digits.simps [simp del]

definition is_digit :: "char \<Rightarrow> bool" where
  "is_digit c = (48 \<le> (of_char c :: nat) \<and> (of_char c :: nat) \<le> 57)"

definition int_str :: "int \<Rightarrow> string" where
  "int_str i = (if i < 0 then CHR 45 # nat_digits (nat (- i)) else nat_digits (nat i))"

definition digits_value :: "string \<Rightarrow> nat" where
  "digits_value s = foldl (\<lambda>a c. a * 10 + (of_char c - 48)) 0 s"

lemma digit_char: "d < 10 \<Longrightarrow> (of_char (char_of (48 + d) :: char) :: nat) = 48 + d"
  by (simp add: of_char_of)

lemma digits_value_nat_digits: "digits_value (nat_digits n) = n"
proof (induction n rule: nat_digits.induct)
  case (1 n)
  show ?case
  proof (cases "n < 10")
    case True
    then show ?thesis by (simp add: nat_digits.simps [of n] digits_value_def digit_char)
  next
    case False
    with "1.IH" have "digits_value (nat_digits (n div 10)) = n div 10" by simp
    with False show ?thesis
      by (simp add: nat_digits.simps [of n] digits_value_def digit_char)
  qed
qed

lemma nat_digits_inj: "nat_digits m = nat_digits n \<longleftrightarrow> m = n"
  by (metis digits_value_nat_digits)

lemma nat_digits_chars: "c \<in> set (nat_digits n) \<Longrightarrow> 48 \<le> (of_char c :: nat) \<and> (of_char c :: nat) \<le> 57"
proof (induction n rule: nat_digits.induct)
  case (1 n)
  then show ?case
    by (cases "n < 10") (auto simp: nat_digits.simps [of n] digit_char)
qed

lemma nat_digits_ne: "nat_digits n \<noteq> []"
  by (subst nat_digits.simps) simp

lemma int_str_inj [simp]: "int_str a = int_str b \<longleftrightarrow> a = b"
proof -
  have neg: "nat_digits n \<noteq> CHR 45 # s" for n s
    using nat_digits_chars [of "CHR 45" n] by auto
  show ?thesis
    by (auto simp: int_str_def nat_digits_inj neg neg [symmetric])
qed

lemma int_str_ne [simp]: "int_str i \<noteq> []"
  by (simp add: int_str_def nat_digits_ne)

text \<open>A decimal number has no underscore, so it is never the cross-tenant sentinel.\<close>

lemma int_str_no_underscore: "CHR 95 \<notin> set (int_str i)"
  using nat_digits_chars [of "CHR 95"] by (auto simp: int_str_def)

text \<open>
  Truthiness of an optional string: \<open>x or y\<close> takes \<open>x\<close> unless it is \<open>None\<close> or empty.
\<close>

definition truthy :: "string option \<Rightarrow> bool" where
  "truthy x = (case x of None \<Rightarrow> False | Some s \<Rightarrow> s \<noteq> [])"

definition py_or :: "string option \<Rightarrow> string option \<Rightarrow> string option" where
  "py_or x y = (if truthy x then x else y)"

lemma truthy_simps [simp]: "\<not> truthy None" "truthy (Some s) \<longleftrightarrow> s \<noteq> []"
  by (simp_all add: truthy_def)

section \<open>JSON values\<close>

text \<open>A finite double is an integer mantissa and a binary exponent.\<close>

datatype json =
    JNull
  | JBool bool
  | JInt int
  | JFloat int int
  | JStr string
  | JList "json list"
  | JObj "(string \<times> json) list"

type_synonym json_object = "(string \<times> json) list"

text \<open>\<open>bool(v)\<close> of a decoded JSON value.\<close>

fun json_truthy :: "json \<Rightarrow> bool" where
  "json_truthy JNull = False"
| "json_truthy (JBool b) = b"
| "json_truthy (JInt n) = (n \<noteq> 0)"
| "json_truthy (JFloat m e) = (m \<noteq> 0)"
| "json_truthy (JStr s) = (s \<noteq> [])"
| "json_truthy (JList xs) = (xs \<noteq> [])"
| "json_truthy (JObj kvs) = (kvs \<noteq> [])"

text \<open>\<open>dict.get\<close> on a decoded object.\<close>

definition dict_get :: "(string \<times> 'v) list \<Rightarrow> string \<Rightarrow> 'v option" where
  "dict_get d k = map_of d k"

section \<open>Tables\<close>

text \<open>
  A table is the list of its rows in insertion order. \<open>tbl_get\<close> is a lookup by primary key,
  \<open>tbl_update\<close> is \<open>UPDATE \<dots> SET \<dots> WHERE\<close>, one atomic statement, and \<open>tbl_returning\<close> is what its
  \<open>RETURNING\<close> clause yields.
\<close>

definition tbl_get :: "('r \<Rightarrow> 'k) \<Rightarrow> 'r list \<Rightarrow> 'k \<Rightarrow> 'r option" where
  "tbl_get key rows k = List.find (\<lambda>r. key r = k) rows"

definition tbl_update :: "('r \<Rightarrow> bool) \<Rightarrow> ('r \<Rightarrow> 'r) \<Rightarrow> 'r list \<Rightarrow> 'r list" where
  "tbl_update P f rows = map (\<lambda>r. if P r then f r else r) rows"

definition tbl_returning :: "('r \<Rightarrow> bool) \<Rightarrow> ('r \<Rightarrow> 'r) \<Rightarrow> 'r list \<Rightarrow> 'r list" where
  "tbl_returning P f rows = map f (filter P rows)"

lemma tbl_get_Nil [simp]: "tbl_get key [] k = None"
  by (simp add: tbl_get_def)

lemma tbl_get_Cons [simp]:
  "tbl_get key (r # rows) k = (if key r = k then Some r else tbl_get key rows k)"
  by (simp add: tbl_get_def)

lemma tbl_get_append [simp]:
  "tbl_get key (rows @ rows') k =
     (case tbl_get key rows k of None \<Rightarrow> tbl_get key rows' k | Some r \<Rightarrow> Some r)"
  by (induction rows) auto

lemma tbl_get_SomeD: "tbl_get key rows k = Some r \<Longrightarrow> r \<in> set rows \<and> key r = k"
  by (induction rows) (auto split: if_splits)

lemma tbl_get_None_iff: "tbl_get key rows k = None \<longleftrightarrow> k \<notin> key ` set rows"
  by (induction rows) auto

lemma tbl_get_eq_Some_iff:
  assumes "distinct (map key rows)"
  shows "tbl_get key rows k = Some r \<longleftrightarrow> r \<in> set rows \<and> key r = k"
  using assms by (induction rows) (auto simp: image_iff)

lemma key_unique: "distinct (map key rows) \<Longrightarrow> x \<in> set rows \<Longrightarrow> y \<in> set rows \<Longrightarrow> key x = key y \<Longrightarrow> x = y"
  by (auto simp: distinct_map dest: inj_onD)

lemma tbl_update_Nil [simp]: "tbl_update P f [] = []"
  by (simp add: tbl_update_def)

lemma tbl_update_Cons [simp]:
  "tbl_update P f (r # rows) = (if P r then f r else r) # tbl_update P f rows"
  by (simp add: tbl_update_def)

lemma length_tbl_update [simp]: "length (tbl_update P f rows) = length rows"
  by (simp add: tbl_update_def)

lemma set_tbl_update:
  "set (tbl_update P f rows) = (\<lambda>r. if P r then f r else r) ` set rows"
  by (simp add: tbl_update_def)

lemma tbl_update_cong_none: "(\<And>r. r \<in> set rows \<Longrightarrow> \<not> P r) \<Longrightarrow> tbl_update P f rows = rows"
  by (induction rows) auto

text \<open>
  The contract of an update that leaves the primary key alone, stated once and used for every
  handler that writes rows.
\<close>

locale keyed_update =
  fixes key :: "'r \<Rightarrow> 'k"
    and f :: "'r \<Rightarrow> 'r"
  assumes key_kept: "key (f r) = key r"
begin

lemma map_key_update: "map key (tbl_update P f rows) = map key rows"
  by (simp add: tbl_update_def key_kept)

lemma distinct_update: "distinct (map key (tbl_update P f rows)) = distinct (map key rows)"
  by (simp add: map_key_update)

lemma keys_update: "key ` set (tbl_update P f rows) = key ` set rows"
  by (metis map_key_update set_map)

lemma get_update:
  "tbl_get key (tbl_update P f rows) k =
     map_option (\<lambda>r. if P r then f r else r) (tbl_get key rows k)"
  by (induction rows) (auto simp: key_kept)

lemma returning_hit:
  assumes "distinct (map key rows)" "tbl_get key rows k = Some r" "Q r"
  shows "tbl_returning (\<lambda>x. key x = k \<and> Q x) f rows = [f r]"
  using assms
proof (induction rows)
  case (Cons x rows)
  show ?case
  proof (cases "key x = k")
    case True
    with Cons.prems have "\<And>y. y \<in> set rows \<Longrightarrow> key y \<noteq> k" by (auto simp: image_iff)
    with True Cons.prems show ?thesis by (simp add: tbl_returning_def filter_empty_conv)
  next
    case False
    with Cons show ?thesis by (simp add: tbl_returning_def)
  qed
qed simp

lemma returning_miss:
  assumes "distinct (map key rows)" "case tbl_get key rows k of None \<Rightarrow> True | Some r \<Rightarrow> \<not> Q r"
  shows "tbl_returning (\<lambda>x. key x = k \<and> Q x) f rows = []"
  using assms by (induction rows)
    (auto simp: tbl_returning_def image_iff filter_empty_conv split: if_splits)

end

section \<open>Requests between services\<close>

datatype http_method = GET | POST | PUT | DELETE | Other_method string

text \<open>
  What can happen to one HTTP request: the server handles it and the answer arrives; the request
  never arrives; or the server handles it and the answer is lost (a timeout on the way back).
  The client sees the last two as the same transport error.
\<close>

datatype net = Delivered | RequestLost | ResponseLost

datatype 'a reply = TransportError | Reply "'a http"

fun over_http :: "net \<Rightarrow> ('s \<Rightarrow> 's \<times> 'a http) \<Rightarrow> 's \<Rightarrow> 's \<times> 'a reply" where
  "over_http Delivered h s = (case h s of (s', r) \<Rightarrow> (s', Reply r))"
| "over_http RequestLost h s = (s, TransportError)"
| "over_http ResponseLost h s = (case h s of (s', r) \<Rightarrow> (s', TransportError))"

lemma over_http_state:
  "fst (over_http n h s) = (if n = RequestLost then s else fst (h s))"
  by (cases n) (auto split: prod.splits)

section \<open>State machines\<close>

text \<open>
  The interface of a component whose operations are steps of a state: an invariant that every
  step keeps. Clients get it for whole runs.
\<close>

definition run :: "('s \<Rightarrow> 'e \<Rightarrow> 's) \<Rightarrow> 's \<Rightarrow> 'e list \<Rightarrow> 's" where
  "run step s es = foldl step s es"

lemma run_Nil [simp]: "run step s [] = s"
  by (simp add: run_def)

lemma run_Cons [simp]: "run step s (e # es) = run step (step s e) es"
  by (simp add: run_def)

lemma run_append: "run step s (es @ es') = run step (run step s es) es'"
  by (simp add: run_def)

locale machine =
  fixes step :: "'s \<Rightarrow> 'e \<Rightarrow> 's"
    and inv :: "'s \<Rightarrow> bool"
  assumes step_inv: "inv s \<Longrightarrow> inv (step s e)"
begin

lemma run_inv: "inv s \<Longrightarrow> inv (run step s es)"
  by (induction es arbitrary: s) (auto intro: step_inv)

end

text \<open>The number of steps of a run that meet a condition.\<close>

fun count_steps :: "('s \<Rightarrow> 'e \<Rightarrow> 's) \<Rightarrow> ('s \<Rightarrow> 'e \<Rightarrow> bool) \<Rightarrow> 's \<Rightarrow> 'e list \<Rightarrow> nat" where
  "count_steps step c s [] = 0"
| "count_steps step c s (e # es) =
     (if c s e then 1 else 0) + count_steps step c (step s e) es"

text \<open>
  The same machine with a measure that no step raises and that every effective step lowers: the number of effective steps of a run is bounded by the
  measure of its first state.
\<close>

locale measured_machine = machine +
  fixes mu :: "'s \<Rightarrow> nat"
    and effective :: "'s \<Rightarrow> 'e \<Rightarrow> bool"
  assumes mu_le: "inv s \<Longrightarrow> mu (step s e) \<le> mu s"
    and mu_less: "inv s \<Longrightarrow> effective s e \<Longrightarrow> mu (step s e) < mu s"
begin

lemma count_steps_bound:
  "inv s \<Longrightarrow> count_steps step effective s es + mu (run step s es) \<le> mu s"
proof (induction es arbitrary: s)
  case (Cons e es)
  from Cons.IH [OF step_inv [OF Cons.prems]]
  have "count_steps step effective (step s e) es + mu (run step (step s e) es) \<le> mu (step s e)" .
  with mu_le [OF Cons.prems, of e] mu_less [OF Cons.prems, of e] show ?case by auto
qed simp

end

end
