(* ===== verification/Models.thy ===== *)
theory Models
  imports Prelude
begin

text \<open>
  The database schema of the API service (\<^verbatim>\<open>services/api/src/models.py\<close>): one record per mapped class,
  with the class's columns, and the constraints the database enforces on a row (\<open>String(n)\<close> lengths
  and CHECK constraints) and on a whole table (primary keys, unique indexes, foreign keys).
  \<open>CallTurn\<close> and \<open>CallEvent\<close> rows are written by no code of the repository; their tables are left
  out. Relationship attributes are views computed from the foreign keys and hold no state.
\<close>

section \<open>Rows\<close>

text \<open>\<open>class Client\<close>: a tenant.\<close>

record client =
  cl_id :: int
  cl_name :: string
  cl_slug :: "string option"
  cl_plan :: "string option"
  cl_status :: "string option"
  cl_contact_email :: "string option"
  cl_contact_phone :: "string option"
  cl_api_limit :: "int option"
  cl_max_concurrent_calls :: "int option"
  cl_created_at :: datetime
  cl_updated_at :: datetime
  cl_country :: "string option"
  cl_timezone :: "string option"
  cl_currency :: "string option"
  cl_default_language :: "string option"
  cl_phone_country_code :: "string option"

text \<open>\<open>class User\<close>: an account that can log in.\<close>

record user =
  us_id :: string
  us_email :: string
  us_full_name :: string
  us_password_hash :: "string option"
  us_role :: "string option"
  us_tenant_id :: "int option"
  us_status :: "string option"
  us_created_at :: datetime

text \<open>\<open>class Customer\<close>: one contact of one tenant.\<close>

record customer =
  cu_id :: string
  cu_client_id :: int
  cu_name :: "string option"
  cu_phone :: string
  cu_email :: "string option"
  cu_language_code :: "string option"
  cu_timezone :: "string option"
  cu_country_code :: "string option"
  cu_notes :: "string option"
  cu_external_id :: "string option"
  cu_metadata_json :: "json option"
  cu_created_at :: datetime
  cu_updated_at :: datetime

text \<open>\<open>class Caller\<close>: a call request, the work item of \<^verbatim>\<open>POST /call\<close>.\<close>

record caller =
  ca_id :: int
  ca_customer_name :: "string option"
  ca_phone_number :: "string option"
  ca_hotel_name :: "string option"
  ca_check_in_date :: "string option"
  ca_check_out_date :: "string option"
  ca_client_id :: "int option"
  ca_created_at :: datetime
  ca_status :: string
  ca_call_type :: string
  ca_is_simulation :: bool
  ca_customer_id :: "string option"
  ca_telephony_call_id :: "string option"
  ca_connection_status :: string
  ca_failure_reason :: "string option"
  ca_duration_seconds :: "int option"
  ca_recording_url :: "string option"
  ca_notes :: "string option"
  ca_outcome :: "string option"

text \<open>
  \<open>class Call\<close>: one telephony session. The two CHECK constraints \<open>ck_calls_status\<close> and
  \<open>ck_calls_connection_status\<close> list the values of the status columns, which are the constructors here.
\<close>

datatype call_status = Active | Call_completed | Call_failed | No_answer | Voicemail | Cancelled

datatype connection_status = Not_attempted | Attempted | Connected | Failed_pre_connect

record call =
  call_id :: string
  call_tenant_id :: string
  call_agent_id :: string
  call_provider_call_id :: "string option"
  call_state :: call_status
  call_started_at :: datetime
  call_ended_at :: "datetime option"
  call_end_reason :: "string option"
  call_created_at :: datetime
  call_is_simulation :: bool
  call_connection :: connection_status
  call_call_request_id :: "int option"

text \<open>\<open>class AuditLog\<close>: one row per sensitive action.\<close>

record audit_log =
  au_id :: string
  au_tenant_id :: "string option"
  au_user_id :: "string option"
  au_action :: string
  au_before_value :: "json_object option"
  au_after_value :: "json_object option"
  au_occurred_at :: datetime

text \<open>\<open>class CallJob\<close>: a durable background job. \<open>ck_call_jobs_status\<close> lists the five statuses.\<close>

datatype jobstatus = Queued | Processing | Completed | Failed | Retrying

record call_job =
  job_id :: string
  job_tenant_id :: "string option"
  job_call_id :: "string option"
  job_provider_call_id :: "string option"
  job_event_type :: string
  job_payload :: "json_object option"
  job_status :: jobstatus
  job_attempts :: int
  job_max_attempts :: int
  job_last_error :: "string option"
  job_created_at :: datetime
  job_updated_at :: datetime
  job_available_at :: datetime
  job_processed_at :: "datetime option"

text \<open>\<open>class PhoneNumberRoute\<close>: which tenant and agent answer a number.\<close>

record phone_number_route =
  pr_number :: string
  pr_tenant_id :: string
  pr_agent_id :: string
  pr_provider :: "string option"
  pr_created_at :: datetime

section \<open>The database\<close>

record database =
  t_clients :: "client list"
  t_admin_users :: "user list"
  t_customers :: "customer list"
  t_call_requests :: "caller list"
  t_calls :: "call list"
  t_audit_logs :: "audit_log list"
  t_call_jobs :: "call_job list"
  t_phone_number_routes :: "phone_number_route list"

definition empty_database :: database where
  "empty_database =
     \<lparr>t_clients = [], t_admin_users = [], t_customers = [], t_call_requests = [], t_calls = [],
      t_audit_logs = [], t_call_jobs = [], t_phone_number_routes = []\<rparr>"

section \<open>Column constraints\<close>

text \<open>A value of a \<open>String(n)\<close> column; \<open>NULL\<close> always fits a nullable one.\<close>

definition varchar :: "nat \<Rightarrow> string \<Rightarrow> bool" where
  "varchar n s = (length s \<le> n)"

definition varchar_null :: "nat \<Rightarrow> string option \<Rightarrow> bool" where
  "varchar_null n x = (case x of None \<Rightarrow> True | Some s \<Rightarrow> varchar n s)"

text \<open>A value of an \<open>Integer\<close> column, PostgreSQL's 32-bit \<open>integer\<close>.\<close>

definition int4 :: "int \<Rightarrow> bool" where
  "int4 i = (- (2 ^ 31) \<le> i \<and> i < 2 ^ 31)"

definition int4_null :: "int option \<Rightarrow> bool" where
  "int4_null x = (case x of None \<Rightarrow> True | Some i \<Rightarrow> int4 i)"

text \<open>\<open>col IN (\<dots>)\<close> of a nullable column: a CHECK constraint holds when it is not false.\<close>

definition in_check :: "string list \<Rightarrow> string option \<Rightarrow> bool" where
  "in_check vs x = (case x of None \<Rightarrow> True | Some s \<Rightarrow> s \<in> set vs)"

definition client_widths :: "client \<Rightarrow> bool" where
  "client_widths c =
     (int4 (cl_id c) \<and> varchar 255 (cl_name c) \<and> varchar_null 100 (cl_slug c) \<and> varchar_null 50 (cl_plan c)
      \<and> varchar_null 20 (cl_status c) \<and> varchar_null 255 (cl_contact_email c)
      \<and> varchar_null 50 (cl_contact_phone c) \<and> varchar_null 2 (cl_country c)
      \<and> varchar_null 100 (cl_timezone c) \<and> varchar_null 3 (cl_currency c)
      \<and> varchar_null 10 (cl_default_language c) \<and> varchar_null 5 (cl_phone_country_code c)
      \<and> int4_null (cl_api_limit c) \<and> int4_null (cl_max_concurrent_calls c))"

definition client_checks :: "client \<Rightarrow> bool" where
  "client_checks c =
     (in_check [''starter'', ''pro'', ''enterprise''] (cl_plan c)
      \<and> in_check [''active'', ''suspended'', ''inactive''] (cl_status c))"

definition user_widths :: "user \<Rightarrow> bool" where
  "user_widths u =
     (varchar 36 (us_id u) \<and> varchar 255 (us_email u) \<and> varchar 255 (us_full_name u)
      \<and> varchar_null 255 (us_password_hash u) \<and> varchar_null 50 (us_role u)
      \<and> varchar_null 20 (us_status u))"

definition user_checks :: "user \<Rightarrow> bool" where
  "user_checks u =
     (in_check [''super_admin'', ''tenant_admin'', ''agent''] (us_role u)
      \<and> in_check [''active'', ''suspended''] (us_status u))"

definition customer_widths :: "customer \<Rightarrow> bool" where
  "customer_widths c =
     (varchar 36 (cu_id c) \<and> varchar_null 255 (cu_name c) \<and> varchar 50 (cu_phone c)
      \<and> varchar_null 255 (cu_email c) \<and> varchar_null 10 (cu_language_code c)
      \<and> varchar_null 100 (cu_timezone c) \<and> varchar_null 2 (cu_country_code c)
      \<and> varchar_null 255 (cu_external_id c))"

definition caller_checks :: "caller \<Rightarrow> bool" where
  "caller_checks c =
     (ca_status c \<in> set [''pending'', ''queued'', ''dialing'', ''ringing'', ''connected'',
        ''in_progress'', ''completed'', ''failed'', ''cancelled'', ''no_answer'', ''voicemail'']
      \<and> ca_call_type c \<in> set [''inbound'', ''outbound'']
      \<and> ca_connection_status c
          \<in> set [''not_attempted'', ''attempted'', ''connected'', ''failed_pre_connect''])"

definition call_widths :: "call \<Rightarrow> bool" where
  "call_widths c =
     (varchar 36 (call_id c) \<and> varchar 255 (call_tenant_id c) \<and> varchar 255 (call_agent_id c)
      \<and> varchar_null 255 (call_provider_call_id c) \<and> varchar_null 100 (call_end_reason c))"

definition job_widths :: "call_job \<Rightarrow> bool" where
  "job_widths j =
     (varchar 36 (job_id j) \<and> varchar_null 255 (job_tenant_id j) \<and> varchar_null 36 (job_call_id j)
      \<and> varchar_null 255 (job_provider_call_id j) \<and> varchar 50 (job_event_type j))"

definition audit_widths :: "audit_log \<Rightarrow> bool" where
  "audit_widths a =
     (varchar 36 (au_id a) \<and> varchar_null 255 (au_tenant_id a) \<and> varchar_null 36 (au_user_id a)
      \<and> varchar 100 (au_action a))"

section \<open>Table constraints\<close>

text \<open>Foreign keys: \<open>NULL\<close> references nothing.\<close>

definition fk_null :: "('r \<Rightarrow> 'k) \<Rightarrow> 'r list \<Rightarrow> 'k option \<Rightarrow> bool" where
  "fk_null key rows x = (case x of None \<Rightarrow> True | Some k \<Rightarrow> tbl_get key rows k \<noteq> None)"

text \<open>
  \<open>uq_call_jobs_provider_event\<close>, the partial unique index on \<open>(provider_call_id, event_type)\<close>:
  the key of a row, or nothing for a row the index leaves out.
\<close>

definition job_event_key :: "call_job \<Rightarrow> (string \<times> string) option" where
  "job_event_key j = map_option (\<lambda>p. (p, job_event_type j)) (job_provider_call_id j)"

definition unique_event :: "call_job list \<Rightarrow> bool" where
  "unique_event js = distinct (List.map_filter job_event_key js)"

text \<open>\<open>uq_customers_client_phone\<close>.\<close>

definition customer_key :: "customer \<Rightarrow> int \<times> string" where
  "customer_key c = (cu_client_id c, cu_phone c)"

text \<open>
  What the database keeps of the tables the handlers write: primary keys, the unique indexes on
  \<open>clients.slug\<close>, \<open>admin_users.email\<close>, \<open>customers\<close> and \<open>call_jobs\<close>, and the foreign keys.
\<close>

definition unique_slugs :: "client list \<Rightarrow> bool" where
  "unique_slugs cs = distinct (List.map_filter cl_slug cs)"

definition schema_ok :: "database \<Rightarrow> bool" where
  "schema_ok d =
     (distinct (map cl_id (t_clients d)) \<and> unique_slugs (t_clients d)
      \<and> distinct (map us_id (t_admin_users d)) \<and> distinct (map us_email (t_admin_users d))
      \<and> distinct (map cu_id (t_customers d)) \<and> distinct (map customer_key (t_customers d))
      \<and> distinct (map ca_id (t_call_requests d))
      \<and> distinct (map call_id (t_calls d))
      \<and> distinct (map au_id (t_audit_logs d))
      \<and> distinct (map job_id (t_call_jobs d)) \<and> unique_event (t_call_jobs d)
      \<and> distinct (map pr_number (t_phone_number_routes d))
      \<and> (\<forall>u \<in> set (t_admin_users d). fk_null cl_id (t_clients d) (us_tenant_id u))
      \<and> (\<forall>c \<in> set (t_customers d). tbl_get cl_id (t_clients d) (cu_client_id c) \<noteq> None)
      \<and> (\<forall>c \<in> set (t_call_requests d). fk_null cl_id (t_clients d) (ca_client_id c))
      \<and> (\<forall>a \<in> set (t_audit_logs d). fk_null us_id (t_admin_users d) (au_user_id a))
      \<and> (\<forall>j \<in> set (t_call_jobs d). fk_null call_id (t_calls d) (job_call_id j)))"

lemma schema_ok_empty: "schema_ok empty_database"
  by (simp add: schema_ok_def empty_database_def unique_slugs_def unique_event_def
      List.map_filter_def)

section \<open>Shared facts\<close>

lemma fk_null_Some [simp]: "fk_null key rows (Some k) \<longleftrightarrow> k \<in> key ` set rows"
  using tbl_get_None_iff [of key rows k] by (auto simp: fk_null_def)

lemma fk_null_None [simp]: "fk_null key rows None"
  by (simp add: fk_null_def)

lemma fk_null_mono: "key ` set rows \<subseteq> key ` set rows' \<Longrightarrow> fk_null key rows x \<Longrightarrow> fk_null key rows' x"
  by (cases x) auto

lemma map_filter_append [simp]:
  "List.map_filter f (xs @ ys) = List.map_filter f xs @ List.map_filter f ys"
  by (simp add: List.map_filter_def)

lemma map_filter_single [simp]:
  "List.map_filter f [x] = (case f x of None \<Rightarrow> [] | Some y \<Rightarrow> [y])"
  by (simp add: List.map_filter_def split: option.splits)

lemma set_map_filter: "set (List.map_filter f xs) = {y. \<exists>x \<in> set xs. f x = Some y}"
  by (induction xs) (auto simp: List.map_filter_simps split: option.splits)

lemma job_event_key_Some:
  "job_event_key j = Some k \<longleftrightarrow> job_provider_call_id j = Some (fst k) \<and> job_event_type j = snd k"
  by (cases k) (auto simp: job_event_key_def)

lemma unique_event_snoc:
  "unique_event (js @ [j]) \<longleftrightarrow>
     unique_event js \<and> (\<forall>k. job_event_key j = Some k \<longrightarrow> (\<forall>i \<in> set js. job_event_key i \<noteq> Some k))"
  by (auto simp: unique_event_def set_map_filter split: option.splits)

lemma unique_event_update:
  assumes "\<And>j. job_event_key (f j) = job_event_key j"
  shows "unique_event (tbl_update P f js) = unique_event js"
proof -
  have "List.map_filter job_event_key (tbl_update P f js) = List.map_filter job_event_key js"
    by (induction js) (auto simp: List.map_filter_simps assms split: option.splits)
  then show ?thesis by (simp add: unique_event_def)
qed

lemma unique_eventD:
  assumes "unique_event js" "i \<in> set js" "j \<in> set js"
    and "job_event_key i = Some k" "job_event_key j = Some k"
  shows "i = j"
  using assms
proof (induction js)
  case (Cons x js)
  have absurd: "False" if "unique_event (x # js)" "job_event_key x = Some k" "y \<in> set js"
    "job_event_key y = Some k" for y
    using that by (auto simp: unique_event_def List.map_filter_simps set_map_filter)
  have tail: "unique_event js"
    using Cons.prems(1) by (auto simp: unique_event_def List.map_filter_simps split: option.splits)
  show ?case using Cons absurd tail by (metis set_ConsD)
qed simp

end
