(* ===== verification/Interfaces.thy ===== *)
theory Interfaces
  imports Prelude
begin

text \<open>
  The contracts between components. Each locale fixes the operations a client calls and assumes
  the laws the provider promises; the client's lemmas are proved once here, and the theory of each
  provider interprets the locale on its own definitions.
\<close>

section \<open>Recording events once\<close>

text \<open>
  \<open>EventRecorder\<close> of \<^verbatim>\<open>services/voice-gateway/exotel_routes.py\<close>: \<open>record\<close> answers whether the event
  key was recorded before, and records it. It may fail (\<open>None\<close>); then the caller cannot tell whether
  the event was recorded. Recording an event again changes nothing.
\<close>

locale event_recorder =
  fixes record_event :: "'a \<Rightarrow> 'k \<Rightarrow> 's \<Rightarrow> 's \<times> bool option"
    and recorded :: "'s \<Rightarrow> 'k set"
    and ok :: "'s \<Rightarrow> bool"
  assumes record_ok: "ok s \<Longrightarrow> ok (fst (record_event a k s))"
    and record_answer:
      "ok s \<Longrightarrow> record_event a k s = (s', Some b) \<Longrightarrow>
         b = (k \<in> recorded s) \<and> recorded s' = insert k (recorded s)"
    and record_failure:
      "ok s \<Longrightarrow> record_event a k s = (s', None) \<Longrightarrow>
         s' = s \<or> recorded s' = insert k (recorded s)"
    and record_known: "ok s \<Longrightarrow> k \<in> recorded s \<Longrightarrow> fst (record_event a k s) = s"
begin

lemma recorded_mono: "ok s \<Longrightarrow> recorded s \<subseteq> recorded (fst (record_event a k s))"
  by (cases "record_event a k s"; cases "snd (record_event a k s)")
    (auto dest: record_answer record_failure)

lemma record_known_answer: "ok s \<Longrightarrow> k \<in> recorded s \<Longrightarrow> snd (record_event a k s) \<noteq> Some False"
  by (cases "record_event a k s") (auto dest: record_answer)

text \<open>Recording changes the state only by recording the event.\<close>

lemma changed_recorded: "ok s \<Longrightarrow> record_event a k s = (s', r) \<Longrightarrow> s' = s \<or> k \<in> recorded s'"
  by (cases r) (auto dest: record_answer record_failure)

lemma record_again:
  assumes "ok s" "record_event a k s = (s', Some b)" "record_event a' k s' = (s'', Some b')"
  shows "b'"
  using record_answer [OF assms(1,2)] record_ok [OF assms(1), of a k] assms(2)
    record_answer [OF _ assms(3)] by auto

text \<open>The answers to a sequence of deliveries.\<close>

fun deliver :: "('a \<times> 'k) list \<Rightarrow> 's \<Rightarrow> bool option list" where
  "deliver [] s = []"
| "deliver ((a, k) # ds) s =
     snd (record_event a k s) # deliver ds (fst (record_event a k s))"

lemma deliver_known: "ok s \<Longrightarrow> k \<in> recorded s \<Longrightarrow>
    i < length ds \<Longrightarrow> snd (ds ! i) = k \<Longrightarrow> deliver ds s ! i \<noteq> Some False"
proof (induction ds arbitrary: s i)
  case (Cons d ds)
  obtain a q where d: "d = (a, q)" by (cases d)
  let ?s = "fst (record_event a q s)"
  have s: "ok ?s" "k \<in> recorded ?s"
    using Cons.prems record_ok recorded_mono by blast+
  show ?case
  proof (cases i)
    case 0
    with Cons.prems d have "q = k" by simp
    with Cons.prems 0 d show ?thesis
      by (cases "record_event a k s") (auto dest: record_answer)
  next
    case (Suc j)
    with Cons.IH [OF s, of j] Cons.prems d show ?thesis by simp
  qed
qed simp

text \<open>However often an event is delivered, at most one delivery is answered as new.\<close>

lemma at_most_one_new:
  assumes "ok s" "i < j" "j < length ds" "snd (ds ! i) = snd (ds ! j)"
    and "deliver ds s ! i = Some False"
  shows "deliver ds s ! j \<noteq> Some False"
  using assms
proof (induction ds arbitrary: s i j)
  case (Cons d ds)
  obtain a q where d: "d = (a, q)" by (cases d)
  let ?s = "fst (record_event a q s)"
  have ok: "ok ?s" using Cons.prems record_ok by blast
  from Cons.prems obtain j' where j': "j = Suc j'" by (cases j) auto
  show ?case
  proof (cases i)
    case 0
    with Cons.prems d have ans: "snd (record_event a q s) = Some False" by simp
    have "q \<in> recorded ?s"
      using record_answer [OF Cons.prems(1), of a q ?s False] ans
      by (cases "record_event a q s") auto
    moreover have "snd (ds ! j') = q" using Cons.prems 0 j' d by simp
    ultimately show ?thesis using deliver_known [OF ok] Cons.prems j' d by simp
  next
    case (Suc i')
    with Cons.IH [OF ok, of i' j'] Cons.prems j' d show ?thesis by simp
  qed
qed simp

end

section \<open>Remembering which call a provider identifier means\<close>

text \<open>
  \<open>CallStore\<close> of \<^verbatim>\<open>exotel_routes.py\<close>: a map from provider call identifiers to call identifiers. Each
  access has an index: \<open>up u\<close> says that the backing store answers it, and \<open>fresh u v\<close> that the access
  \<open>v\<close> comes before an entry written by \<open>u\<close> expires. A store in memory always answers and never
  expires.
\<close>

locale call_store =
  fixes store_set :: "'u \<Rightarrow> string \<Rightarrow> string \<Rightarrow> 's \<Rightarrow> 's"
    and store_get :: "'u \<Rightarrow> string \<Rightarrow> 's \<Rightarrow> string option"
    and store_delete :: "'u \<Rightarrow> string \<Rightarrow> 's \<Rightarrow> 's"
    and up :: "'u \<Rightarrow> bool"
    and fresh :: "'u \<Rightarrow> 'u \<Rightarrow> bool"
  assumes get_set: "up u \<Longrightarrow> up v \<Longrightarrow> fresh u v \<Longrightarrow> c \<noteq> [] \<Longrightarrow> store_get v p (store_set u p c s) = Some c"
    and get_set_other: "q \<noteq> p \<Longrightarrow> store_get v q (store_set u p c s) = store_get v q s"
    and get_delete: "up u \<Longrightarrow> store_get v p (store_delete u p s) = None"
    and get_delete_other: "q \<noteq> p \<Longrightarrow> store_get v q (store_delete u p s) = store_get v q s"
begin

text \<open>Writing and later forgetting one identifier leaves every other one alone.\<close>

lemma set_delete_frame:
  "q \<noteq> p \<Longrightarrow> store_get w q (store_delete v p (store_set u p c s)) = store_get w q s"
  by (simp add: get_set_other get_delete_other)

lemma set_delete_forgets: "up v \<Longrightarrow> store_get w p (store_delete v p (store_set u p c s)) = None"
  by (simp add: get_delete)

lemma set_again: "up v \<Longrightarrow> up w \<Longrightarrow> fresh v w \<Longrightarrow> c' \<noteq> [] \<Longrightarrow>
    store_get w p (store_set v p c' (store_set u p c s)) = Some c'"
  by (simp add: get_set)

end

end
