(* ===== verification/Jobs.thy ===== *)
theory Jobs
  imports Models Interfaces
begin

text \<open>
  The durable job queue (\<^verbatim>\<open>services/api/src/routers/jobs.py\<close>): every handler of the router, the job
  life cycle as a state machine over the whole database, its invariant, and the facts its two
  clients rest on: the gateway's once-only recording of webhook events and the worker's exclusive,
  bounded retries.

  PostgreSQL's clock \<open>now\<close> (\<open>func.now()\<close>) and the API process's clock \<open>pynow\<close> (\<open>datetime.now(UTC)\<close>)
  are separate arguments, since the code mixes them; \<open>uuid\<close> is the identifier \<open>uuid4\<close> returns.
  \<open>complete_event\<close> and \<open>fail_event\<close> read the row, decide, and then issue a guarded UPDATE: their
  models take the database each statement sees, so that another request can run in between. Every
  statement is taken to run with the cross-tenant setting of \<open>get_internal_service_db\<close>; that a
  rollback or a change of connection can lose this setting is shown in theory \<open>Tenancy\<close>.
\<close>

section \<open>Constants and helpers\<close>

definition MAX_ERROR_CHARS :: nat where "MAX_ERROR_CHARS = 2000"
definition STALE_PROCESSING_SECONDS :: int where "STALE_PROCESSING_SECONDS = 120"
definition BASE_BACKOFF_SECONDS :: int where "BASE_BACKOFF_SECONDS = 5"
definition MAX_BACKOFF_SECONDS :: int where "MAX_BACKOFF_SECONDS = 300"

definition TERMINAL_STATUSES :: "jobstatus set" where
  "TERMINAL_STATUSES = {Completed, Failed}"

definition CLAIMABLE_STATUSES :: "jobstatus set" where
  "CLAIMABLE_STATUSES = {Queued, Retrying}"

fun status_str :: "jobstatus \<Rightarrow> string" where
  "status_str Queued = ''queued''"
| "status_str Processing = ''processing''"
| "status_str Completed = ''completed''"
| "status_str Failed = ''failed''"
| "status_str Retrying = ''retrying''"

definition backoff_seconds :: "int \<Rightarrow> int" where
  "backoff_seconds attempts =
     min (BASE_BACKOFF_SECONDS * 2 ^ nat (max (attempts - 1) 0)) MAX_BACKOFF_SECONDS"

definition truncate_error :: "string \<Rightarrow> string" where
  "truncate_error error =
     (if length error \<le> MAX_ERROR_CHARS then error
      else take MAX_ERROR_CHARS error @ ''...(truncated)'')"

text \<open>
  The wake-up list in Redis: not configured, reachable, or failing. A failed push is logged and
  forgotten.
\<close>

datatype redis_mode = Redis_none | Redis_up | Redis_down

fun notify_worker :: "redis_mode \<Rightarrow> string \<Rightarrow> string list \<Rightarrow> string list" where
  "notify_worker Redis_none jid q = q"
| "notify_worker Redis_up jid q = q @ [jid]"
| "notify_worker Redis_down jid q = q"

record api_state =
  db :: database
  wake_queue :: "string list"

text \<open>A handler that touches only the database.\<close>

definition on_db :: "(database \<Rightarrow> database \<times> 'a) \<Rightarrow> api_state \<Rightarrow> api_state \<times> 'a" where
  "on_db h s = (case h (db s) of (d, r) \<Rightarrow> (s\<lparr>db := d\<rparr>, r))"

lemma fst_on_db [simp]: "fst (on_db h s) = s\<lparr>db := fst (h (db s))\<rparr>"
  by (simp add: on_db_def split: prod.splits)

section \<open>Requests\<close>

record event_create_request =
  ec_event_type :: string
  ec_provider_call_id :: "string option"
  ec_tenant_id :: "string option"
  ec_call_id :: "string option"
  ec_payload :: "json_object option"
  ec_max_attempts :: "int option"

record event_fail_request =
  ef_error :: string
  ef_retry :: bool

record event_create_response =
  er_job :: call_job
  er_duplicate :: bool

definition valid_event_create :: "event_create_request \<Rightarrow> bool" where
  "valid_event_create b =
     (1 \<le> length (ec_event_type b) \<and> length (ec_event_type b) \<le> 50
      \<and> (case ec_max_attempts b of None \<Rightarrow> True | Some m \<Rightarrow> 1 \<le> m \<and> m \<le> 20))"

definition valid_event_fail :: "event_fail_request \<Rightarrow> bool" where
  "valid_event_fail b = (ef_error b \<noteq> [])"

definition unprocessable :: http_error where
  "unprocessable = HTTPException 422 ''validation error''"

definition job_not_found :: http_error where
  "job_not_found = HTTPException 404 ''job not found''"

definition not_in_status :: "string \<Rightarrow> jobstatus \<Rightarrow> http_error" where
  "not_in_status what st = HTTPException 409 (what @ '' in status='' @ quoted (status_str st))"

definition state_changed :: http_error where
  "state_changed = HTTPException 409 ''job state changed concurrently''"

section \<open>Creating a job\<close>

definition new_job :: "datetime \<Rightarrow> string \<Rightarrow> event_create_request \<Rightarrow> call_job" where
  "new_job now uuid b =
     \<lparr>job_id = uuid, job_tenant_id = ec_tenant_id b, job_call_id = ec_call_id b,
      job_provider_call_id = ec_provider_call_id b, job_event_type = ec_event_type b,
      job_payload = ec_payload b, job_status = Queued, job_attempts = 0,
      job_max_attempts = (case ec_max_attempts b of None \<Rightarrow> 5 | Some m \<Rightarrow> m),
      job_last_error = None, job_created_at = now, job_updated_at = now,
      job_available_at = now, job_processed_at = None\<rparr>"

text \<open>
  What INSERT raises: a value too long for its column is a data error; a duplicate primary key, a
  call that does not exist or a second row for one event is an integrity error.
\<close>

definition job_integrity_error :: "database \<Rightarrow> call_job \<Rightarrow> bool" where
  "job_integrity_error d j =
     (job_id j \<in> job_id ` set (t_call_jobs d)
      \<or> \<not> fk_null call_id (t_calls d) (job_call_id j)
      \<or> (case job_event_key j of None \<Rightarrow> False
         | Some k \<Rightarrow> \<exists>i \<in> set (t_call_jobs d). job_event_key i = Some k))"

definition find_event :: "database \<Rightarrow> string \<Rightarrow> string \<Rightarrow> call_job option" where
  "find_event d p e =
     List.find (\<lambda>j. job_provider_call_id j = Some p \<and> job_event_type j = e) (t_call_jobs d)"

definition create_event ::
  "redis_mode \<Rightarrow> datetime \<Rightarrow> string \<Rightarrow> event_create_request \<Rightarrow> api_state
     \<Rightarrow> api_state \<times> event_create_response http" where
  "create_event redis now uuid b s =
     (if \<not> valid_event_create b then (s, Inl unprocessable)
      else let job = new_job now uuid b; d = db s in
        if \<not> job_widths job then (s, Inl (Unhandled ''DataError''))
        else if job_integrity_error d job then
          (s, case ec_provider_call_id b of
                None \<Rightarrow> Inl (Unhandled ''IntegrityError'')
              | Some p \<Rightarrow>
                  (case find_event d p (ec_event_type b) of
                     None \<Rightarrow> Inl (Unhandled ''IntegrityError'')
                   | Some existing \<Rightarrow> Inr \<lparr>er_job = existing, er_duplicate = True\<rparr>))
        else
          (\<lparr>db = d\<lparr>t_call_jobs := t_call_jobs d @ [job]\<rparr>,
            wake_queue = notify_worker redis uuid (wake_queue s)\<rparr>,
           Inr \<lparr>er_job = job, er_duplicate = False\<rparr>))"

section \<open>Reading jobs\<close>

definition list_eligible_events ::
  "datetime \<Rightarrow> string list \<Rightarrow> int \<Rightarrow> database \<Rightarrow> call_job list http" where
  "list_eligible_events now statuses limit d =
     (if limit < 1 \<or> 200 < limit then Inl unprocessable
      else Inr (take (nat limit)
        (sort_key job_available_at
          (filter (\<lambda>j. status_str (job_status j) \<in> set statuses \<and> job_available_at j \<le> now)
            (t_call_jobs d)))))"

definition get_event :: "string \<Rightarrow> database \<Rightarrow> call_job http" where
  "get_event jid d =
     (case tbl_get job_id (t_call_jobs d) jid of
        None \<Rightarrow> Inl job_not_found
      | Some j \<Rightarrow> Inr j)"

section \<open>Claiming\<close>

definition claimable :: "datetime \<Rightarrow> call_job \<Rightarrow> bool" where
  "claimable now j = (job_status j \<in> CLAIMABLE_STATUSES \<and> job_available_at j \<le> now)"

definition claim_row :: "datetime \<Rightarrow> call_job \<Rightarrow> call_job" where
  "claim_row now j =
     j\<lparr>job_status := Processing, job_attempts := job_attempts j + 1, job_updated_at := now\<rparr>"

definition claim_event :: "datetime \<Rightarrow> string \<Rightarrow> database \<Rightarrow> database \<times> call_job http" where
  "claim_event now jid d =
     (let hit = (\<lambda>j. job_id j = jid \<and> claimable now j) in
      case tbl_returning hit (claim_row now) (t_call_jobs d) of
        [] \<Rightarrow>
          (d, case tbl_get job_id (t_call_jobs d) jid of
                None \<Rightarrow> Inl job_not_found
              | Some existing \<Rightarrow>
                  Inl (not_in_status ''job not claimable'' (job_status existing)))
      | job # _ \<Rightarrow>
          (d\<lparr>t_call_jobs := tbl_update hit (claim_row now) (t_call_jobs d)\<rparr>, Inr job))"

section \<open>Completing\<close>

definition complete_row :: "datetime \<Rightarrow> call_job \<Rightarrow> call_job" where
  "complete_row now j =
     j\<lparr>job_status := Completed, job_processed_at := Some now, job_updated_at := now\<rparr>"

text \<open>\<open>d0\<close>, \<open>d1\<close> and \<open>d2\<close>: the database at the first read, at the UPDATE and at the re-read.\<close>

definition complete_event_racing ::
  "datetime \<Rightarrow> string \<Rightarrow> database \<Rightarrow> database \<Rightarrow> database \<Rightarrow> database \<times> call_job http" where
  "complete_event_racing now jid d0 d1 d2 =
     (case tbl_get job_id (t_call_jobs d0) jid of
        None \<Rightarrow> (d1, Inl job_not_found)
      | Some existing \<Rightarrow>
          if job_status existing = Completed then (d1, Inr existing)
          else if job_status existing \<noteq> Processing then
            (d1, Inl (not_in_status ''cannot complete job'' (job_status existing)))
          else
            let hit = (\<lambda>j. job_id j = jid \<and> job_status j = Processing) in
            (case tbl_returning hit (complete_row now) (t_call_jobs d1) of
               [] \<Rightarrow>
                 (d2, case tbl_get job_id (t_call_jobs d2) jid of
                        None \<Rightarrow> Inl state_changed
                      | Some current \<Rightarrow>
                          if job_status current = Completed then Inr current
                          else Inl state_changed)
             | job # _ \<Rightarrow>
                 (d1\<lparr>t_call_jobs := tbl_update hit (complete_row now) (t_call_jobs d1)\<rparr>, Inr job)))"

definition complete_event :: "datetime \<Rightarrow> string \<Rightarrow> database \<Rightarrow> database \<times> call_job http" where
  "complete_event now jid d = complete_event_racing now jid d d d"

section \<open>Failing\<close>

definition can_retry :: "event_fail_request \<Rightarrow> call_job \<Rightarrow> bool" where
  "can_retry b existing = (ef_retry b \<and> job_attempts existing < job_max_attempts existing)"

definition fail_row ::
  "datetime \<Rightarrow> datetime \<Rightarrow> event_fail_request \<Rightarrow> call_job \<Rightarrow> call_job \<Rightarrow> call_job" where
  "fail_row now pynow b existing j =
     (if can_retry b existing
      then j\<lparr>job_status := Retrying, job_last_error := Some (truncate_error (ef_error b)),
             job_available_at := pynow + seconds (backoff_seconds (job_attempts existing)),
             job_updated_at := now\<rparr>
      else j\<lparr>job_status := Failed, job_last_error := Some (truncate_error (ef_error b)),
             job_updated_at := now, job_processed_at := Some now\<rparr>)"

definition fail_event_racing ::
  "datetime \<Rightarrow> datetime \<Rightarrow> string \<Rightarrow> event_fail_request \<Rightarrow> database \<Rightarrow> database
     \<Rightarrow> database \<times> call_job http" where
  "fail_event_racing now pynow jid b d0 d1 =
     (if \<not> valid_event_fail b then (d1, Inl unprocessable)
      else case tbl_get job_id (t_call_jobs d0) jid of
        None \<Rightarrow> (d1, Inl job_not_found)
      | Some existing \<Rightarrow>
          if job_status existing \<in> TERMINAL_STATUSES then (d1, Inr existing)
          else if job_status existing \<noteq> Processing then
            (d1, Inl (not_in_status ''cannot fail job'' (job_status existing)))
          else
            let hit = (\<lambda>j. job_id j = jid \<and> job_status j = Processing);
                upd = fail_row now pynow b existing in
            (case tbl_returning hit upd (t_call_jobs d1) of
               [] \<Rightarrow> (d1, Inl state_changed)
             | job # _ \<Rightarrow> (d1\<lparr>t_call_jobs := tbl_update hit upd (t_call_jobs d1)\<rparr>, Inr job)))"

definition fail_event ::
  "datetime \<Rightarrow> datetime \<Rightarrow> string \<Rightarrow> event_fail_request \<Rightarrow> database \<Rightarrow> database \<times> call_job http" where
  "fail_event now pynow jid b d = fail_event_racing now pynow jid b d d"

section \<open>Reaping\<close>

definition stale :: "datetime \<Rightarrow> call_job \<Rightarrow> bool" where
  "stale pynow j =
     (job_status j = Processing \<and> job_updated_at j < pynow - seconds STALE_PROCESSING_SECONDS)"

definition reap_row :: "datetime \<Rightarrow> call_job \<Rightarrow> call_job" where
  "reap_row now j =
     j\<lparr>job_status := (if job_attempts j < job_max_attempts j then Retrying else Failed),
       job_available_at := now,
       job_processed_at := (if job_attempts j < job_max_attempts j then None else Some now),
       job_last_error :=
         (case job_last_error j of
            None \<Rightarrow> Some ''reaped: worker did not report completion in time''
          | Some e \<Rightarrow> Some e),
       job_updated_at := now\<rparr>"

definition reap_stale_jobs :: "datetime \<Rightarrow> datetime \<Rightarrow> database \<Rightarrow> database \<times> string list" where
  "reap_stale_jobs now pynow d =
     (d\<lparr>t_call_jobs := tbl_update (stale pynow) (reap_row now) (t_call_jobs d)\<rparr>,
      map job_id (tbl_returning (stale pynow) (reap_row now) (t_call_jobs d)))"

section \<open>The queue as a state machine\<close>

text \<open>Every request that can change the table, with the clocks it reads.\<close>

datatype job_op =
    Op_create redis_mode datetime string event_create_request
  | Op_claim datetime string
  | Op_complete datetime string
  | Op_fail datetime datetime string event_fail_request
  | Op_reap datetime datetime

fun job_step :: "api_state \<Rightarrow> job_op \<Rightarrow> api_state" where
  "job_step s (Op_create redis now uuid b) = fst (create_event redis now uuid b s)"
| "job_step s (Op_claim now jid) = s\<lparr>db := fst (claim_event now jid (db s))\<rparr>"
| "job_step s (Op_complete now jid) = s\<lparr>db := fst (complete_event now jid (db s))\<rparr>"
| "job_step s (Op_fail now pynow jid b) = s\<lparr>db := fst (fail_event now pynow jid b (db s))\<rparr>"
| "job_step s (Op_reap now pynow) = s\<lparr>db := fst (reap_stale_jobs now pynow (db s))\<rparr>"

abbreviation jobs_of :: "api_state \<Rightarrow> call_job list" where
  "jobs_of s \<equiv> t_call_jobs (db s)"

abbreviation job_at :: "api_state \<Rightarrow> string \<Rightarrow> call_job option" where
  "job_at s jid \<equiv> tbl_get job_id (jobs_of s) jid"

text \<open>
  The row invariant: attempts are counted up to the limit and no further, a job waiting to be
  claimed has an attempt left, exactly the finished jobs carry \<open>processed_at\<close>, and the stored error
  text is bounded.
\<close>

definition job_ok :: "call_job \<Rightarrow> bool" where
  "job_ok j =
     (1 \<le> job_max_attempts j \<and> job_max_attempts j \<le> 20
      \<and> 0 \<le> job_attempts j \<and> job_attempts j \<le> job_max_attempts j
      \<and> (job_status j \<in> CLAIMABLE_STATUSES \<longrightarrow> job_attempts j < job_max_attempts j)
      \<and> (job_status j = Queued \<longleftrightarrow> job_attempts j = 0)
      \<and> (job_processed_at j \<noteq> None \<longleftrightarrow> job_status j \<in> TERMINAL_STATUSES)
      \<and> (case job_last_error j of None \<Rightarrow> job_status j \<noteq> Retrying \<and> job_status j \<noteq> Failed
         | Some e \<Rightarrow> length e \<le> MAX_ERROR_CHARS + 14))"

definition jobs_inv :: "api_state \<Rightarrow> bool" where
  "jobs_inv s =
     (distinct (map job_id (jobs_of s)) \<and> unique_event (jobs_of s)
      \<and> (\<forall>j \<in> set (jobs_of s). job_ok j))"

text \<open>The life cycle the comment on the status column draws.\<close>

inductive job_trans :: "jobstatus \<Rightarrow> jobstatus \<Rightarrow> bool" where
  claim_queued: "job_trans Queued Processing"
| claim_retry: "job_trans Retrying Processing"
| finish: "job_trans Processing Completed"
| retry: "job_trans Processing Retrying"
| give_up: "job_trans Processing Failed"

inductive_simps job_trans_simps [simp]:
  "job_trans Queued st" "job_trans Processing st" "job_trans Completed st"
  "job_trans Failed st" "job_trans Retrying st"

section \<open>What each row update does\<close>

lemmas status_defs = CLAIMABLE_STATUSES_def TERMINAL_STATUSES_def

interpretation claim_upd: keyed_update job_id "claim_row now" for now
  by unfold_locales (simp add: claim_row_def)

interpretation complete_upd: keyed_update job_id "complete_row now" for now
  by unfold_locales (simp add: complete_row_def)

interpretation fail_upd: keyed_update job_id "fail_row now pynow b existing" for now pynow b existing
  by unfold_locales (simp add: fail_row_def)

interpretation reap_upd: keyed_update job_id "reap_row now" for now
  by unfold_locales (simp add: reap_row_def)

lemma event_key_rows [simp]:
  "job_event_key (claim_row now j) = job_event_key j"
  "job_event_key (complete_row now j) = job_event_key j"
  "job_event_key (fail_row now pynow b e j) = job_event_key j"
  "job_event_key (reap_row now j) = job_event_key j"
  by (simp_all add: job_event_key_def claim_row_def complete_row_def fail_row_def reap_row_def)

lemma length_truncate_error: "length (truncate_error e) \<le> MAX_ERROR_CHARS + 14"
  by (simp add: truncate_error_def)

lemma job_ok_new: "valid_event_create b \<Longrightarrow> job_ok (new_job now uuid b)"
  by (auto simp: job_ok_def new_job_def valid_event_create_def status_defs split: option.splits)

lemma job_ok_claim: "job_ok j \<Longrightarrow> claimable now j \<Longrightarrow> job_ok (claim_row now j)"
  by (auto simp: job_ok_def claimable_def claim_row_def status_defs split: option.splits)

lemma job_ok_complete: "job_ok j \<Longrightarrow> job_status j = Processing \<Longrightarrow> job_ok (complete_row now j)"
  by (auto simp: job_ok_def complete_row_def status_defs split: option.splits)

lemma job_ok_fail:
  assumes "job_ok j" "job_status j = Processing"
  shows "job_ok (fail_row now pynow b j j)"
  using assms length_truncate_error [of "ef_error b"]
  by (cases "can_retry b j") (auto simp: job_ok_def fail_row_def can_retry_def status_defs)

lemma job_ok_reap: "job_ok j \<Longrightarrow> stale pynow j \<Longrightarrow> job_ok (reap_row now j)"
  by (auto simp: job_ok_def stale_def reap_row_def status_defs MAX_ERROR_CHARS_def
      split: option.splits)

section \<open>The guarded updates, by the row they find\<close>

lemma claim_event_hit:
  assumes "distinct (map job_id (t_call_jobs d))" "tbl_get job_id (t_call_jobs d) jid = Some j"
    and "claimable now j"
  shows "claim_event now jid d =
    (d\<lparr>t_call_jobs := tbl_update (\<lambda>j. job_id j = jid \<and> claimable now j) (claim_row now) (t_call_jobs d)\<rparr>,
     Inr (claim_row now j))"
  using claim_upd.returning_hit [where Q = "claimable now", OF assms] by (simp add: claim_event_def)

lemma claim_event_miss:
  assumes "distinct (map job_id (t_call_jobs d))" "tbl_get job_id (t_call_jobs d) jid = Some j"
    and "\<not> claimable now j"
  shows "claim_event now jid d = (d, Inl (not_in_status ''job not claimable'' (job_status j)))"
  using claim_upd.returning_miss [where Q = "claimable now", of "t_call_jobs d" jid now] assms
  by (simp add: claim_event_def)

lemma claim_event_none:
  assumes "tbl_get job_id (t_call_jobs d) jid = None"
  shows "claim_event now jid d = (d, Inl job_not_found)"
proof -
  have "filter (\<lambda>j. job_id j = jid \<and> claimable now j) (t_call_jobs d) = []"
    using assms by (auto simp: tbl_get_None_iff filter_empty_conv)
  then show ?thesis by (simp add: claim_event_def tbl_returning_def assms)
qed

lemma claim_event_Inr:
  assumes "distinct (map job_id (t_call_jobs d))" "claim_event now jid d = (d', Inr j)"
  shows "\<exists>i. tbl_get job_id (t_call_jobs d) jid = Some i \<and> claimable now i \<and> j = claim_row now i"
proof (cases "tbl_get job_id (t_call_jobs d) jid")
  case None
  with assms(2) show ?thesis by (simp add: claim_event_none)
next
  case (Some i)
  with assms show ?thesis
    by (cases "claimable now i") (auto simp: claim_event_hit claim_event_miss)
qed

lemma complete_event_hit:
  assumes "distinct (map job_id (t_call_jobs d))" "tbl_get job_id (t_call_jobs d) jid = Some j"
    and "job_status j = Processing"
  shows "complete_event now jid d =
    (d\<lparr>t_call_jobs := tbl_update (\<lambda>j. job_id j = jid \<and> job_status j = Processing) (complete_row now)
        (t_call_jobs d)\<rparr>, Inr (complete_row now j))"
  using complete_upd.returning_hit [where Q = "\<lambda>j. job_status j = Processing", OF assms]
  by (simp add: complete_event_def complete_event_racing_def assms Let_def)

lemma complete_event_other:
  assumes "tbl_get job_id (t_call_jobs d) jid = Some j" "job_status j \<noteq> Processing"
  shows "complete_event now jid d =
    (d, if job_status j = Completed then Inr j
        else Inl (not_in_status ''cannot complete job'' (job_status j)))"
  using assms by (simp add: complete_event_def complete_event_racing_def)

lemma complete_event_none:
  "tbl_get job_id (t_call_jobs d) jid = None \<Longrightarrow> complete_event now jid d = (d, Inl job_not_found)"
  by (simp add: complete_event_def complete_event_racing_def)

lemma fail_event_hit:
  assumes "distinct (map job_id (t_call_jobs d))" "tbl_get job_id (t_call_jobs d) jid = Some j"
    and "job_status j = Processing" "valid_event_fail b"
  shows "fail_event now pynow jid b d =
    (d\<lparr>t_call_jobs := tbl_update (\<lambda>j. job_id j = jid \<and> job_status j = Processing)
        (fail_row now pynow b j) (t_call_jobs d)\<rparr>, Inr (fail_row now pynow b j j))"
  using fail_upd.returning_hit [where Q = "\<lambda>j. job_status j = Processing", OF assms(1-3)]
  by (simp add: fail_event_def fail_event_racing_def assms status_defs Let_def)

lemma fail_event_other:
  assumes "tbl_get job_id (t_call_jobs d) jid = Some j" "job_status j \<noteq> Processing"
    and "valid_event_fail b"
  shows "fail_event now pynow jid b d =
    (d, if job_status j \<in> TERMINAL_STATUSES then Inr j
        else Inl (not_in_status ''cannot fail job'' (job_status j)))"
  using assms by (simp add: fail_event_def fail_event_racing_def)

lemma fail_event_none:
  assumes "tbl_get job_id (t_call_jobs d) jid = None"
  shows "fail_event now pynow jid b d =
    (d, Inl (if valid_event_fail b then job_not_found else unprocessable))"
  by (simp add: fail_event_def fail_event_racing_def assms)

lemma fail_event_invalid:
  "\<not> valid_event_fail b \<Longrightarrow> fail_event now pynow jid b d = (d, Inl unprocessable)"
  by (simp add: fail_event_def fail_event_racing_def)

section \<open>Every request keeps the invariant\<close>

lemma jobs_inv_update:
  assumes inv: "jobs_inv s"
    and keys: "\<And>j. job_id (f j) = job_id j" "\<And>j. job_event_key (f j) = job_event_key j"
    and rows: "\<And>j. j \<in> set (jobs_of s) \<Longrightarrow> P j \<Longrightarrow> job_ok (f j)"
  shows "jobs_inv (s\<lparr>db := (db s)\<lparr>t_call_jobs := tbl_update P f (jobs_of s)\<rparr>\<rparr>)"
proof -
  have "map job_id (tbl_update P f (jobs_of s)) = map job_id (jobs_of s)"
    by (simp add: tbl_update_def keys)
  with inv rows show ?thesis
    by (auto simp: jobs_inv_def unique_event_update keys set_tbl_update)
qed

lemma jobs_inv_same_row:
  assumes "jobs_inv s" "job_at s jid = Some j" "i \<in> set (jobs_of s)" "job_id i = jid"
  shows "i = j"
  using assms by (auto simp: jobs_inv_def tbl_get_eq_Some_iff dest: eq_key_imp_eq_value inj_onD
      simp: distinct_map)

lemma job_at_ok: "jobs_inv s \<Longrightarrow> job_at s jid = Some j \<Longrightarrow> job_ok j"
  by (auto simp: jobs_inv_def dest: tbl_get_SomeD)

lemma jobs_inv_distinct: "jobs_inv s \<Longrightarrow> distinct (map job_id (jobs_of s))"
  by (simp add: jobs_inv_def)

lemma create_event_inv:
  assumes "jobs_inv s"
  shows "jobs_inv (fst (create_event redis now uuid b s))"
proof (cases "fst (create_event redis now uuid b s) = s")
  case False
  let ?j = "new_job now uuid b"
  from False have new: "valid_event_create b" "\<not> job_integrity_error (db s) ?j"
    and eq: "jobs_of (fst (create_event redis now uuid b s)) = jobs_of s @ [?j]"
    by (auto simp: create_event_def Let_def split: if_splits)
  have "job_id ?j \<notin> job_id ` set (jobs_of s)"
    "\<forall>k. job_event_key ?j = Some k \<longrightarrow> (\<forall>i \<in> set (jobs_of s). job_event_key i \<noteq> Some k)"
    using new(2) by (auto simp: job_integrity_error_def)
  with assms job_ok_new [OF new(1)] show ?thesis
    by (auto simp: jobs_inv_def eq unique_event_snoc)
qed (simp add: assms)

lemma claim_event_inv:
  assumes "jobs_inv s"
  shows "jobs_inv (s\<lparr>db := fst (claim_event now jid (db s))\<rparr>)"
proof (cases "job_at s jid")
  case None
  then show ?thesis using assms by (simp add: claim_event_none)
next
  case (Some j)
  note d = jobs_inv_distinct [OF assms]
  show ?thesis
  proof (cases "claimable now j")
    case True
    have "jobs_inv (s\<lparr>db := (db s)\<lparr>t_call_jobs :=
        tbl_update (\<lambda>j. job_id j = jid \<and> claimable now j) (claim_row now) (jobs_of s)\<rparr>\<rparr>)"
      using assms by (intro jobs_inv_update) (auto simp: claim_upd.key_kept jobs_inv_def job_ok_claim)
    then show ?thesis by (simp add: claim_event_hit [OF d Some True])
  next
    case False
    then show ?thesis using assms by (simp add: claim_event_miss [OF d Some])
  qed
qed

lemma complete_event_inv:
  assumes "jobs_inv s"
  shows "jobs_inv (s\<lparr>db := fst (complete_event now jid (db s))\<rparr>)"
proof (cases "job_at s jid")
  case None
  then show ?thesis using assms by (simp add: complete_event_none)
next
  case (Some j)
  show ?thesis
  proof (cases "job_status j = Processing")
    case True
    have "jobs_inv (s\<lparr>db := (db s)\<lparr>t_call_jobs :=
        tbl_update (\<lambda>j. job_id j = jid \<and> job_status j = Processing) (complete_row now) (jobs_of s)\<rparr>\<rparr>)"
      using assms
      by (intro jobs_inv_update) (auto simp: complete_upd.key_kept jobs_inv_def job_ok_complete)
    then show ?thesis by (simp add: complete_event_hit [OF jobs_inv_distinct [OF assms] Some True])
  next
    case False
    then show ?thesis using assms by (simp add: complete_event_other [OF Some])
  qed
qed

lemma fail_event_inv:
  assumes "jobs_inv s"
  shows "jobs_inv (s\<lparr>db := fst (fail_event now pynow jid b (db s))\<rparr>)"
proof (cases "job_at s jid")
  case None
  then show ?thesis using assms by (simp add: fail_event_none)
next
  case (Some j)
  consider (hit) "valid_event_fail b" "job_status j = Processing"
    | (other) "valid_event_fail b" "job_status j \<noteq> Processing"
    | (bad) "\<not> valid_event_fail b" by blast
  then show ?thesis
  proof cases
    case hit
    have "job_ok (fail_row now pynow b j i)" if "i \<in> set (jobs_of s)" "job_id i = jid" for i
      using jobs_inv_same_row [OF assms Some that] job_ok_fail [OF job_at_ok [OF assms Some] hit(2)]
      by simp
    then have "jobs_inv (s\<lparr>db := (db s)\<lparr>t_call_jobs :=
        tbl_update (\<lambda>j. job_id j = jid \<and> job_status j = Processing) (fail_row now pynow b j)
          (jobs_of s)\<rparr>\<rparr>)"
      using assms by (intro jobs_inv_update) (auto simp: fail_upd.key_kept)
    then show ?thesis by (simp add: fail_event_hit [OF jobs_inv_distinct [OF assms] Some hit(2,1)])
  next
    case other
    then show ?thesis using assms by (simp add: fail_event_other [OF Some])
  next
    case bad
    then show ?thesis using assms by (simp add: fail_event_invalid)
  qed
qed

lemma reap_inv:
  assumes "jobs_inv s"
  shows "jobs_inv (s\<lparr>db := fst (reap_stale_jobs now pynow (db s))\<rparr>)"
proof -
  have "jobs_inv (s\<lparr>db := (db s)\<lparr>t_call_jobs :=
      tbl_update (stale pynow) (reap_row now) (jobs_of s)\<rparr>\<rparr>)"
    using assms by (intro jobs_inv_update) (auto simp: reap_upd.key_kept jobs_inv_def job_ok_reap)
  then show ?thesis by (simp add: reap_stale_jobs_def)
qed

lemma job_step_inv: "jobs_inv s \<Longrightarrow> jobs_inv (job_step s op)"
  by (cases op)
    (auto intro: create_event_inv claim_event_inv complete_event_inv fail_event_inv reap_inv)

interpretation job_queue: machine job_step jobs_inv
  by unfold_locales (rule job_step_inv)

section \<open>One job's life\<close>

text \<open>
  The abstract specification of the queue: what a request does to one job, with no table around it.
\<close>

fun row_step :: "call_job \<Rightarrow> job_op \<Rightarrow> call_job" where
  "row_step j (Op_create redis now uuid b) = j"
| "row_step j (Op_claim now jid) =
     (if job_id j = jid \<and> claimable now j then claim_row now j else j)"
| "row_step j (Op_complete now jid) =
     (if job_id j = jid \<and> job_status j = Processing then complete_row now j else j)"
| "row_step j (Op_fail now pynow jid b) =
     (if job_id j = jid \<and> job_status j = Processing \<and> valid_event_fail b
      then fail_row now pynow b j j else j)"
| "row_step j (Op_reap now pynow) = (if stale pynow j then reap_row now j else j)"

lemma create_event_keeps:
  "job_at s jid = Some j \<Longrightarrow> job_at (fst (create_event redis now uuid b s)) jid = Some j"
  by (auto simp: create_event_def Let_def split: option.splits)

lemma job_at_update:
  assumes "\<And>j. job_id (f j) = job_id j" "job_at s jid = Some j"
  shows "tbl_get job_id (tbl_update P f (jobs_of s)) jid = Some (if P j then f j else j)"
  using keyed_update.get_update [OF keyed_update.intro, of job_id f P] assms by simp

lemma claim_event_at:
  assumes "jobs_inv s" "job_at s jid = Some j"
  shows "tbl_get job_id (t_call_jobs (fst (claim_event now i (db s)))) jid =
    Some (if job_id j = i \<and> claimable now j then claim_row now j else j)"
proof -
  let ?P = "\<lambda>j. job_id j = i \<and> claimable now j"
  have "t_call_jobs (fst (claim_event now i (db s))) = tbl_update ?P (claim_row now) (jobs_of s)"
    by (auto simp: claim_event_def Let_def tbl_returning_def filter_empty_conv
        intro: tbl_update_cong_none [symmetric] split: list.splits)
  then show ?thesis using job_at_update [OF claim_upd.key_kept assms(2), where P = ?P] by simp
qed

lemma complete_event_at:
  assumes "jobs_inv s" "job_at s jid = Some j"
  shows "tbl_get job_id (t_call_jobs (fst (complete_event now i (db s)))) jid =
    Some (if job_id j = i \<and> job_status j = Processing then complete_row now j else j)"
proof (cases "job_id j = i \<and> job_status j = Processing")
  case True
  then have i: "i = jid" using assms(2) by (auto dest: tbl_get_SomeD)
  show ?thesis
    using complete_event_hit [OF jobs_inv_distinct [OF assms(1)] assms(2)] True i
      job_at_update [OF complete_upd.key_kept assms(2)]
    by simp
next
  case False
  have "tbl_get job_id (tbl_update (\<lambda>j. job_id j = i \<and> job_status j = Processing)
      (complete_row now) (jobs_of s)) jid = Some j"
    using job_at_update [OF complete_upd.key_kept assms(2),
        where P = "\<lambda>j. job_id j = i \<and> job_status j = Processing"] False by auto
  with False assms(2) show ?thesis
    by (auto simp: complete_event_def complete_event_racing_def Let_def
        split: option.splits list.splits)
qed

lemma fail_event_at:
  assumes "jobs_inv s" "job_at s jid = Some j"
  shows "tbl_get job_id (t_call_jobs (fst (fail_event now pynow i b (db s)))) jid =
    Some (if job_id j = i \<and> job_status j = Processing \<and> valid_event_fail b
          then fail_row now pynow b j j else j)"
proof (cases "job_id j = i \<and> job_status j = Processing \<and> valid_event_fail b")
  case True
  then have i: "i = jid" using assms(2) by (auto dest: tbl_get_SomeD)
  show ?thesis
    using fail_event_hit [OF jobs_inv_distinct [OF assms(1)] assms(2)] True i
      job_at_update [OF fail_upd.key_kept assms(2)]
    by simp
next
  case False
  have "tbl_get job_id (tbl_update (\<lambda>j. job_id j = i \<and> job_status j = Processing)
      (fail_row now pynow b e) (jobs_of s)) jid = Some j" if "valid_event_fail b" for e
    using job_at_update [OF fail_upd.key_kept assms(2),
        where P = "\<lambda>j. job_id j = i \<and> job_status j = Processing"] False that by auto
  with False assms(2) show ?thesis
    by (auto simp: fail_event_def fail_event_racing_def Let_def split: option.splits list.splits)
qed

lemma job_step_row:
  assumes "jobs_inv s" "job_at s jid = Some j"
  shows "job_at (job_step s op) jid = Some (row_step j op)"
  using assms(2)
  by (cases op)
    (simp_all add: create_event_keeps claim_event_at [OF assms] complete_event_at [OF assms]
      fail_event_at [OF assms] reap_stale_jobs_def
      job_at_update [OF reap_upd.key_kept assms(2)] del: api_state.select_convs)

lemma run_row:
  assumes "jobs_inv s" "job_at s jid = Some j"
  shows "job_at (run job_step s ops) jid = Some (run row_step j ops)"
  using assms
proof (induction ops arbitrary: s j)
  case (Cons op ops)
  show ?case
    using Cons.IH [OF job_step_inv [OF Cons.prems(1)] job_step_row [OF Cons.prems]] by simp
qed simp

lemma row_step_id [simp]: "job_id (row_step j op) = job_id j"
  by (cases op)
    (auto simp: claim_upd.key_kept complete_upd.key_kept fail_upd.key_kept reap_upd.key_kept)

lemma row_step_ok: "job_ok j \<Longrightarrow> job_ok (row_step j op)"
  by (cases op) (auto intro: job_ok_claim job_ok_complete job_ok_fail job_ok_reap)

lemma row_step_trans:
  "job_status (row_step j op) = job_status j \<or> job_trans (job_status j) (job_status (row_step j op))"
  by (cases op; cases "job_status j")
    (auto simp: claim_row_def claimable_def complete_row_def fail_row_def stale_def reap_row_def
      status_defs)

lemma row_step_terminal: "job_status j \<in> TERMINAL_STATUSES \<Longrightarrow> row_step j op = j"
  by (cases op) (auto simp: claimable_def stale_def status_defs)

lemma row_run_terminal: "job_status j \<in> TERMINAL_STATUSES \<Longrightarrow> run row_step j ops = j"
  by (induction ops) (auto simp: row_step_terminal)

text \<open>The attempts left, which a successful claim lowers by one and nothing raises.\<close>

definition attempts_left :: "call_job \<Rightarrow> nat" where
  "attempts_left j = nat (job_max_attempts j - job_attempts j)"

fun claims_row :: "call_job \<Rightarrow> job_op \<Rightarrow> bool" where
  "claims_row j (Op_claim now jid) = (job_id j = jid \<and> claimable now j)"
| "claims_row j _ = False"

lemma attempts_left_le: "job_ok j \<Longrightarrow> attempts_left (row_step j op) \<le> attempts_left j"
  by (cases op) (auto simp: attempts_left_def claim_row_def complete_row_def fail_row_def reap_row_def)

lemma attempts_left_less:
  "job_ok j \<Longrightarrow> claims_row j op \<Longrightarrow> attempts_left (row_step j op) < attempts_left j"
  by (cases op) (auto simp: attempts_left_def claim_row_def job_ok_def claimable_def)

interpretation job_row: measured_machine row_step job_ok attempts_left claims_row
  by unfold_locales (auto intro: row_step_ok attempts_left_le attempts_left_less)

text \<open>A request that claims the job, seen from the handler.\<close>

fun claims_job :: "string \<Rightarrow> api_state \<Rightarrow> job_op \<Rightarrow> bool" where
  "claims_job jid s (Op_claim now i) = (i = jid \<and> is_ok (snd (claim_event now i (db s))))"
| "claims_job jid s _ = False"

lemma claims_job_row:
  assumes "jobs_inv s" "job_at s jid = Some j"
  shows "claims_job jid s op = claims_row j op"
proof (cases op)
  case (Op_claim now i)
  note d = jobs_inv_distinct [OF assms(1)]
  have "job_id j = jid" using assms(2) by (auto dest: tbl_get_SomeD)
  with Op_claim assms(2) show ?thesis
    by (cases "claimable now j") (auto simp: claim_event_hit [OF d] claim_event_miss [OF d])
qed simp_all

lemma count_claims_row:
  assumes "jobs_inv s" "job_at s jid = Some j"
  shows "count_steps job_step (claims_job jid) s ops = count_steps row_step claims_row j ops"
  using assms
proof (induction ops arbitrary: s j)
  case (Cons op ops)
  show ?case
    using Cons.IH [OF job_step_inv [OF Cons.prems(1)] job_step_row [OF Cons.prems]]
      claims_job_row [OF Cons.prems] by simp
qed simp

section \<open>Recording an event once\<close>

text \<open>
  \<open>create_event\<close> as the provider of the event recorder: the arguments beside the key are the Redis
  mode, the clock, the identifier and the rest of the request. A caller that gets an error learns
  nothing and records nothing.
\<close>

definition event_request :: "event_create_request \<Rightarrow> string \<times> string \<Rightarrow> event_create_request" where
  "event_request b k = b\<lparr>ec_provider_call_id := Some (fst k), ec_event_type := snd k\<rparr>"

fun record_job ::
  "redis_mode \<times> datetime \<times> string \<times> event_create_request \<Rightarrow> string \<times> string \<Rightarrow> api_state
     \<Rightarrow> api_state \<times> bool option" where
  "record_job (redis, now, uuid, b) k s =
     (case create_event redis now uuid (event_request b k) s of
        (s', Inl _) \<Rightarrow> (s', None)
      | (s', Inr r) \<Rightarrow> (s', Some (er_duplicate r)))"

definition recorded_events :: "api_state \<Rightarrow> (string \<times> string) set" where
  "recorded_events s = {k. \<exists>j \<in> set (jobs_of s). job_event_key j = Some k}"

lemma find_event_Some:
  "find_event d p e = Some j \<Longrightarrow> j \<in> set (t_call_jobs d) \<and> job_event_key j = Some (p, e)"
  by (auto simp: find_event_def job_event_key_def find_Some_iff)

lemma find_event_None:
  "find_event d p e = None \<longleftrightarrow> (\<forall>j \<in> set (t_call_jobs d). job_event_key j \<noteq> Some (p, e))"
  by (auto simp: find_event_def find_None_iff job_event_key_def)

lemma find_event_unique:
  assumes "jobs_inv s" "j \<in> set (jobs_of s)" "job_event_key j = Some (p, e)"
  shows "find_event (db s) p e = Some j"
  using assms unique_eventD [of "jobs_of s"] find_event_Some [of "db s" p e]
    find_event_None [of "db s" p e]
  by (cases "find_event (db s) p e") (auto simp: jobs_inv_def)

lemma new_job_key:
  "ec_provider_call_id b = Some p \<Longrightarrow> job_event_key (new_job now uuid b) = Some (p, ec_event_type b)"
  by (simp add: job_event_key_def new_job_def)

text \<open>The answer to a valid request for an event that is already recorded.\<close>

lemma create_event_duplicate:
  assumes inv: "jobs_inv s" and j: "j \<in> set (jobs_of s)" "job_event_key j = Some (p, ec_event_type b)"
    and b: "ec_provider_call_id b = Some p" "valid_event_create b" "job_widths (new_job now uuid b)"
  shows "create_event redis now uuid b s = (s, Inr \<lparr>er_job = j, er_duplicate = True\<rparr>)"
  using find_event_unique [OF inv j] j b new_job_key [OF b(1), of now uuid]
  by (auto simp: create_event_def Let_def job_integrity_error_def)

lemma record_job_inv: "jobs_inv s \<Longrightarrow> jobs_inv (fst (record_job a k s))"
  using create_event_inv [of s "fst a" "fst (snd a)" "fst (snd (snd a))" "event_request (snd (snd (snd a))) k"]
  by (cases a) (auto split: prod.splits sum.splits)

lemma record_job_answer:
  assumes r: "record_job a k s = (s', Some dup)"
  shows "dup = (k \<in> recorded_events s) \<and> recorded_events s' = insert k (recorded_events s)"
proof -
  obtain redis now uuid b where a: "a = (redis, now, uuid, b)" by (cases a)
  let ?j = "new_job now uuid (event_request b k)"
  have key: "job_event_key ?j = Some k"
    by (simp add: event_request_def job_event_key_def new_job_def)
  show ?thesis
  proof (cases "job_integrity_error (db s) ?j")
    case True
    with r have "s' = s" "dup" "\<exists>e. find_event (db s) (fst k) (snd k) = Some e"
      by (auto simp: a create_event_def Let_def event_request_def split: if_splits option.splits)
    then have "k \<in> recorded_events s"
      using find_event_Some [of "db s" "fst k" "snd k"] by (auto simp: recorded_events_def)
    with \<open>s' = s\<close> \<open>dup\<close> show ?thesis by auto
  next
    case False
    with r have "\<not> dup" "jobs_of s' = jobs_of s @ [?j]"
      by (auto simp: a create_event_def Let_def split: if_splits)
    with False key show ?thesis by (auto simp: recorded_events_def job_integrity_error_def)
  qed
qed

lemma record_job_failure: "record_job a k s = (s', None) \<Longrightarrow> s' = s"
  by (cases a)
    (auto simp: create_event_def Let_def event_request_def split: if_splits option.splits)

lemma create_event_known:
  assumes "jobs_inv s" "ec_provider_call_id b = Some p" "(p, ec_event_type b) \<in> recorded_events s"
  shows "fst (create_event redis now uuid b s) = s"
    and "snd (create_event redis now uuid b s) = Inr r \<Longrightarrow> er_duplicate r"
proof -
  have "job_integrity_error (db s) (new_job now uuid b)"
    using assms new_job_key [OF assms(2)] by (auto simp: job_integrity_error_def recorded_events_def)
  then show "fst (create_event redis now uuid b s) = s"
    and "snd (create_event redis now uuid b s) = Inr r \<Longrightarrow> er_duplicate r"
    by (auto simp: create_event_def Let_def assms(2) split: if_splits option.splits)
qed

lemma record_job_known:
  assumes "jobs_inv s" "k \<in> recorded_events s"
  shows "fst (record_job a k s) = s"
proof -
  obtain redis now uuid b where a: "a = (redis, now, uuid, b)" by (cases a)
  have "fst (create_event redis now uuid (event_request b k) s) = s"
    using create_event_known(1) [OF assms(1), of "event_request b k" "fst k"] assms(2)
    by (simp add: event_request_def)
  then show ?thesis by (auto simp: a split: prod.splits sum.splits)
qed

interpretation job_recorder: event_recorder record_job recorded_events jobs_inv
  by unfold_locales (auto intro: record_job_inv record_job_known dest: record_job_answer record_job_failure)

lemma recorded_events_step:
  assumes "jobs_inv s"
  shows "recorded_events s \<subseteq> recorded_events (job_step s op)"
proof
  fix k assume "k \<in> recorded_events s"
  then obtain j where j: "j \<in> set (jobs_of s)" "job_event_key j = Some k"
    by (auto simp: recorded_events_def)
  then have at: "job_at s (job_id j) = Some j"
    using assms by (simp add: jobs_inv_def tbl_get_eq_Some_iff)
  have "job_event_key (row_step j op) = job_event_key j" by (cases op) auto
  with j tbl_get_SomeD [OF job_step_row [OF assms at, of op]]
  show "k \<in> recorded_events (job_step s op)" by (auto simp: recorded_events_def)
qed

lemma recorded_events_run:
  "jobs_inv s \<Longrightarrow> recorded_events s \<subseteq> recorded_events (run job_step s ops)"
proof (induction ops arbitrary: s)
  case (Cons op ops)
  show ?case
    using Cons.IH [OF job_step_inv [OF Cons.prems]] recorded_events_step [OF Cons.prems] by simp blast
qed simp

text \<open>The listing the worker asks for: the claimable jobs, the longest available first.\<close>

lemma list_eligible_jobs:
  "list_eligible_events now [''queued'', ''retrying''] limit d =
     (if limit < 1 \<or> 200 < limit then Inl unprocessable
      else Inr (take (nat limit) (sort_key job_available_at (filter (claimable now) (t_call_jobs d)))))"
proof -
  have "status_str st \<in> set [''queued'', ''retrying''] \<longleftrightarrow> st \<in> CLAIMABLE_STATUSES" for st
    by (cases st) (simp_all add: status_defs)
  then show ?thesis by (simp add: list_eligible_events_def claimable_def [abs_def])
qed

section \<open>Properties\<close>

text \<open>A small queue the witnesses evaluate: one job waiting, one in progress on its last attempt.\<close>

definition demo_job :: "string \<Rightarrow> string \<Rightarrow> jobstatus \<Rightarrow> int \<Rightarrow> call_job" where
  "demo_job jid ev st n =
     \<lparr>job_id = jid, job_tenant_id = None, job_call_id = None, job_provider_call_id = Some ''P1'',
      job_event_type = ev, job_payload = None, job_status = st, job_attempts = n,
      job_max_attempts = 2, job_last_error = None, job_created_at = 0, job_updated_at = 0,
      job_available_at = 0, job_processed_at = None\<rparr>"

definition demo_state :: api_state where
  "demo_state =
     \<lparr>db = empty_database\<lparr>t_call_jobs := [demo_job ''a'' ''answered'' Queued 0,
                                        demo_job ''b'' ''terminal'' Processing 1]\<rparr>,
      wake_queue = []\<rparr>"

lemmas demo_defs = demo_state_def demo_job_def empty_database_def

lemma demo_inv: "jobs_inv demo_state"
  by (simp add: jobs_inv_def demo_defs unique_event_def List.map_filter_simps job_event_key_def
      job_ok_def status_defs)





text \<open>A finished job is final: once completed or failed, its row never changes again, whatever
  duplicate, late or stray reports arrive.\<close>

lemma finished_jobs_are_final:
  assumes "jobs_inv s" "job_at s jid = Some j" "job_status j \<in> TERMINAL_STATUSES"
  shows "job_at (run job_step s ops) jid = Some j"
  using run_row [OF assms(1,2), of ops] row_run_terminal [OF assms(3), of ops] by simp

lemma finished_jobs_are_final_example:
  "job_at (run job_step (job_step demo_state (Op_complete 7 ''b''))
     [Op_fail 8 8 ''b'' \<lparr>ef_error = ''late'', ef_retry = True\<rparr>, Op_reap 9 (seconds 500)]) ''b''
   = Some (complete_row 7 (demo_job ''b'' ''terminal'' Processing 1))"
proof (rule finished_jobs_are_final)
  show "jobs_inv (job_step demo_state (Op_complete 7 ''b''))"
    by (rule job_step_inv [OF demo_inv])
  show "job_at (job_step demo_state (Op_complete 7 ''b'')) ''b'' =
      Some (complete_row 7 (demo_job ''b'' ''terminal'' Processing 1))"
    by (subst job_step_row [OF demo_inv, of "''b''" "demo_job ''b'' ''terminal'' Processing 1"])
      (simp_all add: demo_defs)
qed (simp add: complete_row_def status_defs)




definition demo_request :: event_create_request where
  "demo_request =
     \<lparr>ec_event_type = ''answered'', ec_provider_call_id = Some ''P2'', ec_tenant_id = None,
      ec_call_id = None, ec_payload = None, ec_max_attempts = None\<rparr>"

lemma demo_create:
  "create_event Redis_up 3 ''c'' demo_request demo_state =
     (fst (create_event Redis_up 3 ''c'' demo_request demo_state),
      Inr \<lparr>er_job = new_job 3 ''c'' demo_request, er_duplicate = False\<rparr>)"
  by (simp add: create_event_def Let_def demo_request_def demo_defs valid_event_create_def new_job_def
      job_widths_def varchar_def varchar_null_def job_integrity_error_def job_event_key_def)




text \<open>The retry delay doubles from five seconds with each attempt until it reaches the cap of five
  minutes at the seventh, and never decreases.\<close>

lemma backoff_doubles_to_cap:
  "(\<forall>n \<in> {1..6}. backoff_seconds (n + 1) = min (2 * backoff_seconds n) 300)
   \<and> backoff_seconds 1 = 5 \<and> (\<forall>n. 7 \<le> n \<longrightarrow> backoff_seconds n = 300)
   \<and> (\<forall>m n. m \<le> n \<longrightarrow> backoff_seconds m \<le> backoff_seconds n)"
proof -
  note defs = backoff_seconds_def BASE_BACKOFF_SECONDS_def MAX_BACKOFF_SECONDS_def
  have small: "{1..6} = {1, 2, 3, 4, 5, 6 :: int}" by auto
  have "\<forall>n \<in> {1..6}. backoff_seconds (n + 1) = min (2 * backoff_seconds n) 300"
    unfolding small by (simp add: defs)
  moreover have "backoff_seconds n = 300" if "7 \<le> n" for n
  proof -
    have "(2 :: int) ^ 6 \<le> 2 ^ nat (n - 1)" using that by (intro power_increasing) auto
    with that show ?thesis by (simp add: defs)
  qed
  moreover have "backoff_seconds m \<le> backoff_seconds n" if "m \<le> n" for m n
  proof -
    have "(2 :: int) ^ nat (max (m - 1) 0) \<le> 2 ^ nat (max (n - 1) 0)"
      using that by (intro power_increasing) auto
    then show ?thesis unfolding defs by (intro min.mono mult_left_mono) auto
  qed
  ultimately show ?thesis by (simp add: defs)
qed

lemma backoff_doubles_to_cap_example: "backoff_seconds 4 = 40 \<and> backoff_seconds 9 = 300"
proof -
  note step = bspec [OF conjunct1 [OF backoff_doubles_to_cap]]
  have "backoff_seconds 1 = 5" using backoff_doubles_to_cap by blast
  then show ?thesis
    using step [of 1] step [of 2] step [of 3] backoff_doubles_to_cap by simp
qed

text \<open>Reaping recovers exactly the orphans: after it no job has been processing since before the
  cutoff, the identifiers it reports are those of the stale jobs, a stale job becomes claimable at
  once if it has an attempt left and failed otherwise, and every other job is untouched.\<close>

lemma reap_recovers_orphans:
  assumes "jobs_inv s"
  shows "(\<forall>j \<in> set (t_call_jobs (fst (reap_stale_jobs now pynow (db s)))). \<not> stale pynow j)
    \<and> set (snd (reap_stale_jobs now pynow (db s))) = job_id ` {j \<in> set (jobs_of s). stale pynow j}
    \<and> (\<forall>j \<in> set (jobs_of s).
        tbl_get job_id (t_call_jobs (fst (reap_stale_jobs now pynow (db s)))) (job_id j) =
          Some (if stale pynow j then reap_row now j else j)
        \<and> (stale pynow j \<longrightarrow>
             (if job_attempts j < job_max_attempts j then claimable now (reap_row now j)
              else job_status (reap_row now j) = Failed)))"
proof -
  have gone: "\<not> stale pynow (reap_row now j)" for j by (simp add: stale_def reap_row_def)
  have "job_at s (job_id j) = Some j" if "j \<in> set (jobs_of s)" for j
    using assms that by (simp add: jobs_inv_def tbl_get_eq_Some_iff)
  moreover have "if job_attempts j < job_max_attempts j then claimable now (reap_row now j)
      else job_status (reap_row now j) = Failed" for j
    by (simp add: claimable_def status_defs reap_row_def)
  ultimately show ?thesis
    by (auto simp: reap_stale_jobs_def set_tbl_update gone tbl_returning_def reap_upd.key_kept
        reap_upd.get_update)
qed

lemma reap_recovers_orphans_example:
  "set (snd (reap_stale_jobs 9 (seconds 500) (db demo_state))) = {''b''}"
proof -
  have "{j \<in> set (jobs_of demo_state). stale (seconds 500) j}
      = {demo_job ''b'' ''terminal'' Processing 1}"
    by (auto simp: demo_defs stale_def seconds_def STALE_PROCESSING_SECONDS_def)
  with reap_recovers_orphans [OF demo_inv, of 9 "seconds 500"] show ?thesis
    by (simp add: demo_job_def)
qed

text \<open>The worker's poll is sound and complete: the jobs listed for \<open>queued\<close> and \<open>retrying\<close> come in
  order of availability, each of them can be claimed at that moment, and when the list is shorter
  than its limit it holds every claimable job.\<close>

lemma listed_jobs_are_claimable:
  assumes "jobs_inv s"
    and "list_eligible_events now [''queued'', ''retrying''] limit (db s) = Inr js"
  shows "sorted (map job_available_at js) \<and> length js \<le> nat limit
    \<and> (\<forall>j \<in> set js. is_ok (snd (claim_event now (job_id j) (db s))))
    \<and> (length js < nat limit \<longrightarrow> (\<forall>j \<in> set (jobs_of s). claimable now j \<longrightarrow> j \<in> set js))"
proof -
  let ?el = "filter (claimable now) (jobs_of s)"
  have js: "js = take (nat limit) (sort_key job_available_at ?el)"
    using assms(2) by (auto simp: list_eligible_jobs split: if_splits)
  have sub: "set js \<subseteq> set ?el"
    unfolding js using set_take_subset [of "nat limit" "sort_key job_available_at ?el"] by simp
  have ok: "is_ok (snd (claim_event now (job_id j) (db s)))" if "j \<in> set js" for j
  proof -
    from that sub have "claimable now j" "job_at s (job_id j) = Some j"
      using assms(1) by (auto simp: jobs_inv_def tbl_get_eq_Some_iff)
    then show ?thesis by (simp add: claim_event_hit [OF jobs_inv_distinct [OF assms(1)]])
  qed
  have "sorted (map job_available_at js)"
    unfolding js by (simp add: take_map [symmetric] sorted_wrt_take)
  moreover have "j \<in> set js" if "length js < nat limit" "j \<in> set (jobs_of s)" "claimable now j" for j
    using that by (simp add: js)
  ultimately show ?thesis using ok by (auto simp: js)
qed

lemma listed_jobs_are_claimable_example:
  "is_ok (snd (claim_event 5 ''a'' (db demo_state)))"
proof -
  have "list_eligible_events 5 [''queued'', ''retrying''] 10 (db demo_state)
      = Inr [demo_job ''a'' ''answered'' Queued 0]"
    by (simp add: list_eligible_events_def demo_defs)
  from listed_jobs_are_claimable [OF demo_inv this] show ?thesis by (simp add: demo_job_def)
qed

text \<open>The guards hold under races: a completion or failure report whose row has left \<open>processing\<close>
  between the report's read and its UPDATE, for example because another report finished the job,
  leaves that row as it is.\<close>

lemma late_reports_do_not_overwrite:
  assumes "tbl_get job_id (t_call_jobs d1) jid = Some j" "job_status j \<noteq> Processing"
  shows "tbl_get job_id (t_call_jobs (fst (complete_event_racing now i d0 d1 d1))) jid = Some j
    \<and> tbl_get job_id (t_call_jobs (fst (fail_event_racing now pynow i b d0 d1))) jid = Some j"
proof -
  have frame: "tbl_get job_id (tbl_update (\<lambda>j. job_id j = i \<and> job_status j = Processing) f
      (t_call_jobs d1)) jid = Some j" if "\<And>j. job_id (f j) = job_id j" for f
    using keyed_update.get_update [OF keyed_update.intro, of job_id f] that assms by simp
  show ?thesis
    using assms(1) frame [OF complete_upd.key_kept] frame [OF fail_upd.key_kept]
    by (auto simp: complete_event_racing_def fail_event_racing_def Let_def
        split: option.splits list.splits)
qed

lemma late_reports_do_not_overwrite_example:
  "tbl_get job_id (t_call_jobs (fst (complete_event_racing 9 ''b'' (db demo_state)
     (fst (complete_event 7 ''b'' (db demo_state))) (fst (complete_event 7 ''b'' (db demo_state)))))) ''b''
   = Some (complete_row 7 (demo_job ''b'' ''terminal'' Processing 1))"
proof -
  have "tbl_get job_id (t_call_jobs (fst (complete_event 7 ''b'' (db demo_state)))) ''b''
      = Some (complete_row 7 (demo_job ''b'' ''terminal'' Processing 1))"
    by (subst complete_event_at [OF demo_inv, of "''b''" "demo_job ''b'' ''terminal'' Processing 1"])
      (simp_all add: demo_defs)
  from late_reports_do_not_overwrite [OF this, of 9 "''b''" "db demo_state"] show ?thesis
    by (simp add: complete_row_def)
qed

text \<open>The failure report's limit check uses the attempt count it read, and its UPDATE is guarded by
  the status alone: a report that reads a job, is overtaken by a reap and a new claim, and then
  writes, puts a job whose attempts are exhausted back into \<open>retrying\<close>; the next claim counts an
  attempt beyond the limit.\<close>

lemma overtaken_failure_report_exceeds_limit:
  "\<exists>s ops now pynow b later j. jobs_inv s
     \<and> snd (claim_event later ''b''
          (fst (fail_event_racing now pynow ''b'' b (db s) (db (run job_step s ops))))) = Inr j
     \<and> job_max_attempts j < job_attempts j"
proof (intro exI conjI)
  show "jobs_inv demo_state" by (rule demo_inv)
  show "snd (claim_event (seconds 900) ''b''
      (fst (fail_event_racing (seconds 502) (seconds 502) ''b'' \<lparr>ef_error = ''x'', ef_retry = True\<rparr>
        (db demo_state)
        (db (run job_step demo_state [Op_reap (seconds 500) (seconds 500), Op_claim (seconds 501) ''b''])))))
    = Inr ((demo_job ''b'' ''terminal'' Processing 3)\<lparr>job_last_error := Some ''x'',
        job_updated_at := seconds 900, job_available_at := seconds 507\<rparr>)"
    by (simp add: demo_defs reap_stale_jobs_def stale_def reap_row_def claim_event_def claimable_def
        claim_row_def tbl_returning_def fail_event_racing_def fail_row_def can_retry_def
        valid_event_fail_def truncate_error_def MAX_ERROR_CHARS_def seconds_def status_defs
        STALE_PROCESSING_SECONDS_def backoff_seconds_def BASE_BACKOFF_SECONDS_def
        MAX_BACKOFF_SECONDS_def)
qed (simp add: demo_job_def)

end
