(* ===== verification/InternalAuth.thy ===== *)
theory InternalAuth
  imports Prelude
begin

text \<open>
  The shared secret between the services: the guard on every \<^verbatim>\<open>/internal/v1\<close> route of the API
  (\<open>verify_internal_token\<close> of \<^verbatim>\<open>routers/internal.py\<close>, imported by \<^verbatim>\<open>routers/jobs.py\<close>), the same guard of the
  integration service, and the header its clients attach (\<open>_with_internal_auth\<close> of the worker's
  \<^verbatim>\<open>jobs_client.py\<close> and of the gateway's \<^verbatim>\<open>internal_calls.py\<close>). A token is a string, empty when the
  environment variable \<open>INTERNAL_API_TOKEN\<close> is not set.
\<close>

section \<open>The guard\<close>

text \<open>
  \<open>hmac.compare_digest\<close> on two strings: it raises \<open>TypeError\<close> unless both are ASCII.
\<close>

definition is_ascii :: "string \<Rightarrow> bool" where
  "is_ascii s = list_all (\<lambda>c. (of_char c :: nat) < 128) s"

definition compare_digest :: "string \<Rightarrow> string \<Rightarrow> bool http" where
  "compare_digest a b =
     (if is_ascii a \<and> is_ascii b then Inr (a = b) else Inl (Unhandled ''TypeError''))"

definition invalid_internal_token :: http_error where
  "invalid_internal_token = HTTPException 401 ''invalid or missing internal API token''"

text \<open>\<open>secret\<close> is the server's \<open>INTERNAL_API_TOKEN\<close>, \<open>header\<close> the request's \<open>X-Internal-API-Token\<close>.\<close>

definition verify_internal_token :: "string \<Rightarrow> string option \<Rightarrow> unit http" where
  "verify_internal_token secret header =
     (if secret = [] then Inl invalid_internal_token
      else if \<not> truthy header then Inl invalid_internal_token
      else case compare_digest (the header) secret of
        Inl e \<Rightarrow> Inl e
      | Inr same \<Rightarrow> if same then Inr () else Inl invalid_internal_token)"

text \<open>
  The copy of the guard in the integration service.
\<close>

definition integration_verify_internal_token :: "string \<Rightarrow> string option \<Rightarrow> unit http" where
  "integration_verify_internal_token secret header =
     (if secret = [] then Inl invalid_internal_token
      else if \<not> truthy header then Inl invalid_internal_token
      else case compare_digest (the header) secret of
        Inl e \<Rightarrow> Inl e
      | Inr same \<Rightarrow> if same then Inr () else Inl invalid_internal_token)"

text \<open>A route behind the guard: a rejected request reaches no handler and changes nothing.\<close>

definition guarded ::
  "(string \<Rightarrow> string option \<Rightarrow> unit http) \<Rightarrow> string \<Rightarrow> string option \<Rightarrow> ('s \<Rightarrow> 's \<times> 'a http) \<Rightarrow> 's \<Rightarrow> 's \<times> 'a http" where
  "guarded verify secret header h s =
     (case verify secret header of Inl e \<Rightarrow> (s, Inl e) | Inr _ \<Rightarrow> h s)"

section \<open>The clients' header\<close>

text \<open>The header a client whose own \<open>INTERNAL_API_TOKEN\<close> is \<open>token\<close> sends, if any.\<close>

definition with_internal_auth :: "string \<Rightarrow> string option" where
  "with_internal_auth token = (if token \<noteq> [] then Some token else None)"

definition gateway_with_internal_auth :: "string \<Rightarrow> string option" where
  "gateway_with_internal_auth token = (if token \<noteq> [] then Some token else None)"

section \<open>What the guard lets through\<close>

lemma verify_copies: "integration_verify_internal_token = verify_internal_token"
  by (intro ext) (simp add: integration_verify_internal_token_def verify_internal_token_def)

lemma header_copies: "gateway_with_internal_auth = with_internal_auth"
  by (intro ext) (simp add: gateway_with_internal_auth_def with_internal_auth_def)

lemma verify_ok_iff:
  "is_ok (verify_internal_token secret header) \<longleftrightarrow>
     secret \<noteq> [] \<and> is_ascii secret \<and> header = Some secret"
  by (cases header) (auto simp: verify_internal_token_def compare_digest_def)

lemma verify_Inr:
  "verify_internal_token secret header = Inr u \<longleftrightarrow>
     secret \<noteq> [] \<and> is_ascii secret \<and> header = Some secret"
  by (cases header) (auto simp: verify_internal_token_def compare_digest_def)

lemma verify_shared: "t \<noteq> [] \<Longrightarrow> is_ascii t \<Longrightarrow> verify_internal_token t (with_internal_auth t) = Inr ()"
  by (simp add: verify_Inr with_internal_auth_def)

lemma guarded_shared [simp]:
  "t \<noteq> [] \<Longrightarrow> is_ascii t \<Longrightarrow> guarded verify_internal_token t (with_internal_auth t) h s = h s"
  by (simp add: guarded_def verify_shared)

lemma guarded_cases:
  "guarded verify_internal_token secret header h s =
     (if secret \<noteq> [] \<and> is_ascii secret \<and> header = Some secret then h s
      else (s, Inl (projl (verify_internal_token secret header))))"
  by (cases "verify_internal_token secret header")
    (use verify_Inr [of secret header] in \<open>auto simp: guarded_def\<close>)

lemma guarded_state:
  "fst (guarded verify_internal_token secret header h s) = s
   \<or> guarded verify_internal_token secret header h s = h s"
  by (simp add: guarded_cases)

text \<open>A rejection is a 401, or a 500 when one of the two tokens is not ASCII.\<close>

lemma verify_error_status:
  "verify_internal_token secret header = Inl e \<Longrightarrow> status_code e \<in> {401, 500}"
  by (auto simp: verify_internal_token_def compare_digest_def invalid_internal_token_def
      split: if_splits)

end
