(* ===== verification/Worker.thy ===== *)
theory Worker
  imports Jobs InternalAuth
begin

text \<open>
  The background worker and the service it drives: the worker's two HTTP clients
  (\<^verbatim>\<open>services/worker/src/jobs_client.py\<close>, \<^verbatim>\<open>integration_client.py\<close>), \<open>process_one\<close> and the main loop
  (\<^verbatim>\<open>services/worker/src/main.py\<close>), and the integration service's endpoint
  (\<^verbatim>\<open>services/integration-service/src/main.py\<close>).

  Every HTTP request carries a network outcome (\<^typ>\<open>net\<close>): it is served, it is lost, or it is served
  and its answer is lost. The clients add the shared token and the servers check it. The state is
  the API's database and Redis list, and the log line \<^verbatim>\<open>Processed event\<close> the integration service
  writes for each event it performs, which is what its clients mean by a side effect. Two accounts
  of \<open>process_one\<close> are given: the function itself, run alone, and its three phases as steps of a
  system in which any number of workers interleave.
\<close>

section \<open>The integration service\<close>

record process_event_request =
  pe_job_id :: string
  pe_tenant_id :: "string option"
  pe_call_id :: "string option"
  pe_event_type :: string
  pe_payload :: "json_object option"

record process_event_response =
  ps_status :: string
  ps_detail :: string

text \<open>\<open>process_event\<close> acknowledges the event and writes one log line.\<close>

definition force_failure :: "process_event_request \<Rightarrow> bool" where
  "force_failure b =
     (case pe_payload b of None \<Rightarrow> False
      | Some p \<Rightarrow> (case dict_get p ''_test_force_failure'' of None \<Rightarrow> False | Some v \<Rightarrow> json_truthy v))"

definition process_event ::
  "process_event_request \<Rightarrow> process_event_request list
     \<Rightarrow> process_event_request list \<times> process_event_response http" where
  "process_event b log =
     (if force_failure b then
        (log, Inl (HTTPException 503 ''forced failure for testing (payload._test_force_failure)''))
      else if py_strip (pe_event_type b) = [] then
        (log, Inl (HTTPException 422 ''event_type must not be empty''))
      else
        (log @ [b],
         Inr \<lparr>ps_status = ''processed'',
              ps_detail = ''event '' @ quoted (pe_event_type b) @ '' acknowledged for job ''
                @ pe_job_id b\<rparr>))"

definition integration_process ::
  "string \<Rightarrow> string option \<Rightarrow> process_event_request \<Rightarrow> process_event_request list
     \<Rightarrow> process_event_request list \<times> process_event_response http" where
  "integration_process secret header b =
     guarded integration_verify_internal_token secret header (process_event b)"

text \<open>\<open>health\<close>: the status code, the overall status and the Redis status.\<close>

definition integration_health :: "redis_mode \<Rightarrow> nat \<times> string \<times> string" where
  "integration_health redis =
     (let redis_status =
            (case redis of Redis_none \<Rightarrow> ''not_configured'' | Redis_up \<Rightarrow> ''ok''
             | Redis_down \<Rightarrow> ''unreachable'');
          is_healthy = (redis_status \<noteq> ''unreachable'')
      in (if is_healthy then 200 else 503, if is_healthy then ''ok'' else ''degraded'', redis_status))"

definition integration_root :: "(string \<times> string) list" where
  "integration_root = [(''service'', ''staykaro-integration-service''), (''status'', ''ok'')]"

section \<open>The worker's clients\<close>

text \<open>The tokens of the three processes, each from its own environment.\<close>

record tokens =
  api_secret :: string
  integration_secret :: string
  worker_token :: string

datatype worker_exc = JobsApiError string | IntegrationError string

fun exc_str :: "worker_exc \<Rightarrow> string" where
  "exc_str (JobsApiError m) = m"
| "exc_str (IntegrationError m) = m"

definition jobs_request ::
  "tokens \<Rightarrow> net \<Rightarrow> string \<Rightarrow> string \<Rightarrow> (api_state \<Rightarrow> api_state \<times> 'a http) \<Rightarrow> api_state
     \<Rightarrow> api_state \<times> (worker_exc + 'a http)" where
  "jobs_request cfg n method path h s =
     (case over_http n (guarded verify_internal_token (api_secret cfg)
                          (with_internal_auth (worker_token cfg)) h) s of
        (s', TransportError) \<Rightarrow>
          (s', Inl (JobsApiError (''jobs API request failed: '' @ method @ '' '' @ path)))
      | (s', Reply r) \<Rightarrow> (s', Inr r))"

definition raise_for_status :: "string \<Rightarrow> 'a http \<Rightarrow> worker_exc + 'a" where
  "raise_for_status message r = (case r of Inl e \<Rightarrow> Inl (JobsApiError message) | Inr x \<Rightarrow> Inr x)"

text \<open>\<open>GET /health\<close> is not behind the guard; \<open>up\<close> says whether the API's own checks pass.\<close>

definition jobs_health :: "net \<Rightarrow> bool \<Rightarrow> bool" where
  "jobs_health n up = (n = Delivered \<and> up)"

definition event_path :: "string \<Rightarrow> string \<Rightarrow> string" where
  "event_path jid verb = ''/internal/v1/events/'' @ jid @ ''/'' @ verb"

definition jobs_list_eligible ::
  "tokens \<Rightarrow> net \<Rightarrow> datetime \<Rightarrow> string list \<Rightarrow> int \<Rightarrow> api_state
     \<Rightarrow> api_state \<times> (worker_exc + call_job list)" where
  "jobs_list_eligible cfg n now statuses limit s =
     (case jobs_request cfg n ''GET'' ''/internal/v1/events''
             (\<lambda>s. (s, list_eligible_events now statuses limit (db s))) s of
        (s', Inl e) \<Rightarrow> (s', Inl e)
      | (s', Inr r) \<Rightarrow> (s', raise_for_status ''list_eligible failed'' r))"

definition jobs_claim ::
  "tokens \<Rightarrow> net \<Rightarrow> datetime \<Rightarrow> string \<Rightarrow> api_state \<Rightarrow> api_state \<times> (worker_exc + call_job option)" where
  "jobs_claim cfg n now jid s =
     (case jobs_request cfg n ''POST'' (event_path jid ''claim'') (on_db (claim_event now jid)) s of
        (s', Inl e) \<Rightarrow> (s', Inl e)
      | (s', Inr r) \<Rightarrow>
          (s', case r of
                 Inl e \<Rightarrow> if status_code e \<in> {404, 409} then Inr None
                          else Inl (JobsApiError ''claim failed'')
               | Inr j \<Rightarrow> Inr (Some j)))"

definition jobs_complete ::
  "tokens \<Rightarrow> net \<Rightarrow> datetime \<Rightarrow> string \<Rightarrow> api_state \<Rightarrow> api_state \<times> (worker_exc + unit)" where
  "jobs_complete cfg n now jid s =
     (case jobs_request cfg n ''POST'' (event_path jid ''complete'')
             (on_db (complete_event now jid)) s of
        (s', Inl e) \<Rightarrow> (s', Inl e)
      | (s', Inr r) \<Rightarrow> (s', map_sum id (\<lambda>_. ()) (raise_for_status ''complete failed'' r)))"

definition jobs_fail ::
  "tokens \<Rightarrow> net \<Rightarrow> datetime \<Rightarrow> datetime \<Rightarrow> string \<Rightarrow> string \<Rightarrow> bool \<Rightarrow> api_state
     \<Rightarrow> api_state \<times> (worker_exc + call_job)" where
  "jobs_fail cfg n now pynow jid error retry s =
     (case jobs_request cfg n ''POST'' (event_path jid ''fail'')
             (on_db (fail_event now pynow jid \<lparr>ef_error = error, ef_retry = retry\<rparr>)) s of
        (s', Inl e) \<Rightarrow> (s', Inl e)
      | (s', Inr r) \<Rightarrow> (s', raise_for_status ''fail failed'' r))"

definition jobs_reap ::
  "tokens \<Rightarrow> net \<Rightarrow> datetime \<Rightarrow> datetime \<Rightarrow> api_state \<Rightarrow> api_state \<times> (worker_exc + string list)" where
  "jobs_reap cfg n now pynow s =
     (case jobs_request cfg n ''POST'' ''/internal/v1/events/reap''
             (on_db (\<lambda>d. apsnd Inr (reap_stale_jobs now pynow d))) s of
        (s', Inl e) \<Rightarrow> (s', Inl e)
      | (s', Inr r) \<Rightarrow> (s', raise_for_status ''reap failed'' r))"

text \<open>The body of an error response, as FastAPI renders an \<open>HTTPException\<close>.\<close>

fun error_text :: "http_error \<Rightarrow> string" where
  "error_text (HTTPException _ detail) =
     CHR 123 # CHR 34 # ''detail'' @ CHR 34 # CHR 58 # CHR 34 # detail @ [CHR 34, CHR 125]"
| "error_text (Unhandled _) = ''Internal Server Error''"

text \<open>\<open>IntegrationClient.process\<close>, with the keyword arguments \<open>process_one\<close> passes.\<close>

definition job_request :: "call_job \<Rightarrow> process_event_request" where
  "job_request j =
     \<lparr>pe_job_id = job_id j, pe_tenant_id = job_tenant_id j, pe_call_id = job_call_id j,
      pe_event_type = job_event_type j, pe_payload = job_payload j\<rparr>"

definition integration_call ::
  "tokens \<Rightarrow> net \<Rightarrow> process_event_request \<Rightarrow> process_event_request list
     \<Rightarrow> process_event_request list \<times> (worker_exc + process_event_response)" where
  "integration_call cfg n b log =
     (case over_http n (integration_process (integration_secret cfg)
                          (with_internal_auth (worker_token cfg)) b) log of
        (log', TransportError) \<Rightarrow> (log', Inl (IntegrationError ''integration-service request failed''))
      | (log', Reply (Inr r)) \<Rightarrow> (log', Inr r)
      | (log', Reply (Inl e)) \<Rightarrow>
          (log', Inl (IntegrationError
             (if 500 \<le> status_code e
              then ''integration-service returned '' @ int_str (int (status_code e))
                @ '': transient failure''
              else ''integration-service rejected the event ('' @ int_str (int (status_code e))
                @ ''): '' @ take 500 (error_text e)))))"

section \<open>Processing one job\<close>

record world =
  api :: api_state
  processed :: "process_event_request list"

text \<open>What the surroundings decide for one call of \<open>process_one\<close>: networks and clocks.\<close>

record cycle =
  net_claim :: net
  at_claim :: datetime
  net_process :: net
  net_report :: net
  at_report :: datetime
  py_report :: datetime

definition on_api :: "(api_state \<Rightarrow> api_state \<times> 'a) \<Rightarrow> world \<Rightarrow> world \<times> 'a" where
  "on_api f w = (case f (api w) of (s, r) \<Rightarrow> (w\<lparr>api := s\<rparr>, r))"

definition on_log ::
  "(process_event_request list \<Rightarrow> process_event_request list \<times> 'a) \<Rightarrow> world \<Rightarrow> world \<times> 'a" where
  "on_log f w = (case f (processed w) of (l, r) \<Rightarrow> (w\<lparr>processed := l\<rparr>, r))"

text \<open>Reporting the outcome of the integration call; a report that fails is only logged.\<close>

definition report_outcome ::
  "tokens \<Rightarrow> net \<Rightarrow> datetime \<Rightarrow> datetime \<Rightarrow> call_job \<Rightarrow> (worker_exc + process_event_response)
     \<Rightarrow> world \<Rightarrow> world" where
  "report_outcome cfg n now pynow job outcome w =
     (case outcome of
        Inl exc \<Rightarrow> fst (on_api (jobs_fail cfg n now pynow (job_id job) (exc_str exc) True) w)
      | Inr _ \<Rightarrow> fst (on_api (jobs_complete cfg n now (job_id job)) w))"

definition process_one ::
  "tokens \<Rightarrow> cycle \<Rightarrow> string \<Rightarrow> world \<Rightarrow> world \<times> (worker_exc + unit)" where
  "process_one cfg c jid w =
     (case on_api (jobs_claim cfg (net_claim c) (at_claim c) jid) w of
        (w1, Inl e) \<Rightarrow> (w1, Inl e)
      | (w1, Inr None) \<Rightarrow> (w1, Inr ())
      | (w1, Inr (Some job)) \<Rightarrow>
          (case on_log (integration_call cfg (net_process c) (job_request job)) w1 of
             (w2, outcome) \<Rightarrow>
               (report_outcome cfg (net_report c) (at_report c) (py_report c) job outcome w2,
                Inr ())))"

section \<open>The main loop\<close>

definition REAP_INTERVAL_SECONDS :: int where "REAP_INTERVAL_SECONDS = 60"

text \<open>
  BLPOP on the wake-up list: it answers (with nothing after its timeout), it fails, or it removes
  an entry and the answer is lost.
\<close>

datatype blpop = Blpop_answers | Blpop_fails | Blpop_loses

definition blpop_queue :: "blpop \<Rightarrow> api_state \<Rightarrow> api_state \<times> string option" where
  "blpop_queue b s =
     (case b of
        Blpop_fails \<Rightarrow> (s, None)
      | Blpop_loses \<Rightarrow> (s\<lparr>wake_queue := tl (wake_queue s)\<rparr>, None)
      | Blpop_answers \<Rightarrow>
          (case wake_queue s of [] \<Rightarrow> (s, None) | j # q \<Rightarrow> (s\<lparr>wake_queue := q\<rparr>, Some j)))"

text \<open>
  The surroundings of one iteration: the shutdown flag at its head, the monotonic clock, the
  network and clocks of the reap and of the listing, and for each listed job the flag read before
  it and its cycle (the last pair repeated when the list is shorter).
\<close>

record iteration =
  it_shutdown :: bool
  it_mono :: datetime
  it_reap_net :: net
  it_reap_now :: datetime
  it_reap_py :: datetime
  it_blpop :: blpop
  it_list_net :: net
  it_list_now :: datetime
  it_cycle :: "nat \<Rightarrow> bool \<times> cycle"

text \<open>The fallback loop over the eligible jobs: it stops at a shutdown and at a \<open>JobsApiError\<close>.\<close>

fun process_eligible ::
  "tokens \<Rightarrow> (nat \<Rightarrow> bool \<times> cycle) \<Rightarrow> nat \<Rightarrow> call_job list \<Rightarrow> world \<Rightarrow> world" where
  "process_eligible cfg cyc k [] w = w"
| "process_eligible cfg cyc k (eligible # rest) w =
     (if fst (cyc k) then w
      else case process_one cfg (snd (cyc k)) (job_id eligible) w of
        (w', Inl e) \<Rightarrow> w'
      | (w', Inr _) \<Rightarrow> process_eligible cfg cyc (Suc k) rest w')"

definition loop_iteration :: "tokens \<Rightarrow> iteration \<Rightarrow> datetime \<times> world \<Rightarrow> datetime \<times> world" where
  "loop_iteration cfg it lw =
     (case lw of (last_reap, w) \<Rightarrow>
       let due = seconds REAP_INTERVAL_SECONDS \<le> it_mono it - last_reap;
           w1 = (if due then fst (on_api (jobs_reap cfg (it_reap_net it) (it_reap_now it)
                                            (it_reap_py it)) w) else w);
           last' = (if due then it_mono it else last_reap)
       in case on_api (blpop_queue (it_blpop it)) w1 of
            (w2, Some jid) \<Rightarrow> (last', fst (process_one cfg (snd (it_cycle it 0)) jid w2))
          | (w2, None) \<Rightarrow>
              (case on_api (jobs_list_eligible cfg (it_list_net it) (it_list_now it)
                              [''queued'', ''retrying''] 10) w2 of
                 (w3, Inl e) \<Rightarrow> (last', w3)
               | (w3, Inr jobs) \<Rightarrow> (last', process_eligible cfg (it_cycle it) 0 jobs w3)))"

fun run_loop :: "tokens \<Rightarrow> iteration list \<Rightarrow> datetime \<times> world \<Rightarrow> datetime \<times> world" where
  "run_loop cfg [] lw = lw"
| "run_loop cfg (it # its) lw =
     (if it_shutdown it then lw else run_loop cfg its (loop_iteration cfg it lw))"

section \<open>Start and stop\<close>

text \<open>A signal sets the flag the loop reads; the start-up checks only log (\<open>True\<close> for a warning).\<close>

definition handle_signal :: "int \<Rightarrow> bool \<Rightarrow> bool" where
  "handle_signal signum shutdown = True"

definition startup_checks :: "bool \<Rightarrow> bool \<Rightarrow> bool list" where
  "startup_checks ping_ok api_ok = [\<not> ping_ok, \<not> api_ok]"

text \<open>\<open>main\<close>: the exit status and what is left; the loop starts with \<open>last_reap = 0.0\<close>.\<close>

definition worker_main ::
  "tokens \<Rightarrow> string \<Rightarrow> bool \<Rightarrow> net \<Rightarrow> bool \<Rightarrow> iteration list \<Rightarrow> world \<Rightarrow> nat \<times> bool list \<times> world" where
  "worker_main cfg redis_url ping_ok n api_up its w =
     (if redis_url = [] then (1, [], w)
      else (0, startup_checks ping_ok (jobs_health n api_up), snd (run_loop cfg its (0, w))))"

text \<open>After a signal the job in hand is finished and no further one is begun.\<close>

lemma signal_finishes_current_job:
  assumes "\<forall>i \<ge> m. fst (cyc (k + i))"
  shows "process_eligible cfg cyc k js w = process_eligible cfg cyc k (take m js) w"
  using assms
proof (induction js arbitrary: k m w)
  case (Cons j js)
  show ?case
  proof (cases m)
    case 0
    then have "fst (cyc k)" using Cons.prems by (metis add_0_right le0)
    with 0 show ?thesis by simp
  next
    case (Suc m')
    then have "\<forall>i \<ge> m'. fst (cyc (Suc k + i))" using Cons.prems by (metis Suc_le_mono add_Suc_shift)
    from Cons.IH [OF this] Suc show ?thesis by (simp split: prod.split sum.split)
  qed
qed simp

lemma signalled_worker_stops: "it_shutdown it \<Longrightarrow> redis_url \<noteq> [] \<Longrightarrow> worker_main cfg redis_url p n up (its @ it # rest) w =
    worker_main cfg redis_url p n up its w"
proof -
  assume it: "it_shutdown it" and url: "redis_url \<noteq> []"
  have "run_loop cfg (its @ it # rest) lw = run_loop cfg its lw" for lw
    by (induction its arbitrary: lw) (simp_all add: it)
  with url show ?thesis by (simp add: worker_main_def)
qed

section \<open>What the clients do to the API's state\<close>

text \<open>
  Every client call either leaves the API alone (refused, or lost on the way) or is one step of the
  job queue, and an answer that arrives is the handler's answer.
\<close>

definition trusted :: "tokens \<Rightarrow> bool" where
  "trusted cfg =
     (worker_token cfg \<noteq> [] \<and> is_ascii (worker_token cfg)
      \<and> api_secret cfg = worker_token cfg \<and> integration_secret cfg = worker_token cfg)"

lemma jobs_request_state:
  "fst (jobs_request cfg n m p h s) = s \<or> fst (jobs_request cfg n m p h s) = fst (h s)"
  using guarded_state [of "api_secret cfg" "with_internal_auth (worker_token cfg)" h s]
  by (cases n)
    (auto simp: jobs_request_def split: prod.splits reply.splits)

lemma jobs_request_answer:
  "jobs_request cfg n m p h s = (s', Inr (Inr x)) \<Longrightarrow> h s = (s', Inr x)"
  by (cases n)
    (auto simp: jobs_request_def guarded_cases split: prod.splits reply.splits if_splits)

lemma jobs_request_delivered:
  "trusted cfg \<Longrightarrow> jobs_request cfg Delivered m p h s = (case h s of (s', r) \<Rightarrow> (s', Inr r))"
  by (auto simp: jobs_request_def trusted_def split: prod.splits)

lemma jobs_request_lost: "fst (jobs_request cfg RequestLost m p h s) = s"
  by (simp add: jobs_request_def)

lemma on_db_job_step:
  "fst (on_db (claim_event now jid) s) = job_step s (Op_claim now jid)"
  "fst (on_db (complete_event now jid) s) = job_step s (Op_complete now jid)"
  "fst (on_db (fail_event now pynow jid b) s) = job_step s (Op_fail now pynow jid b)"
  "fst (on_db (\<lambda>d. apsnd Inr (reap_stale_jobs now pynow d)) s) = job_step s (Op_reap now pynow)"
  by simp_all

lemma jobs_claim_state:
  "fst (jobs_claim cfg n now jid s) \<in> {s, job_step s (Op_claim now jid)}"
  using jobs_request_state [of cfg n "''POST''" "event_path jid ''claim''" "on_db (claim_event now jid)" s]
  by (auto simp: jobs_claim_def split: prod.splits sum.splits)

lemma jobs_complete_state:
  "fst (jobs_complete cfg n now jid s) \<in> {s, job_step s (Op_complete now jid)}"
  using jobs_request_state [of cfg n "''POST''" "event_path jid ''complete''"
      "on_db (complete_event now jid)" s]
  by (auto simp: jobs_complete_def split: prod.splits sum.splits)

lemma jobs_fail_state:
  "fst (jobs_fail cfg n now pynow jid e r s)
     \<in> {s, job_step s (Op_fail now pynow jid \<lparr>ef_error = e, ef_retry = r\<rparr>)}"
  using jobs_request_state [of cfg n "''POST''" "event_path jid ''fail''"
      "on_db (fail_event now pynow jid \<lparr>ef_error = e, ef_retry = r\<rparr>)" s]
  by (auto simp: jobs_fail_def split: prod.splits sum.splits)

lemma jobs_reap_state:
  "fst (jobs_reap cfg n now pynow s) \<in> {s, job_step s (Op_reap now pynow)}"
  using jobs_request_state [of cfg n "''POST''" "''/internal/v1/events/reap''"
      "on_db (\<lambda>d. apsnd Inr (reap_stale_jobs now pynow d))" s]
  by (auto simp: jobs_reap_def split: prod.splits sum.splits)

text \<open>A claim that the client sees succeed is a claim of the queue.\<close>

lemma jobs_claim_Some:
  assumes "jobs_inv s" "jobs_claim cfg n now jid s = (s', Inr (Some j))"
  shows "\<exists>i. job_at s jid = Some i \<and> claimable now i \<and> j = claim_row now i
    \<and> s' = job_step s (Op_claim now jid)"
proof -
  have h: "on_db (claim_event now jid) s = (s', Inr j)"
    using assms(2) by (auto simp: jobs_claim_def split: prod.splits sum.splits if_splits
        dest: jobs_request_answer)
  then have "claim_event now jid (db s) = (db s', Inr j)"
    by (auto simp: on_db_def split: prod.splits)
  from claim_event_Inr [OF jobs_inv_distinct [OF assms(1)] this] h show ?thesis
    using on_db_job_step(1) [of now jid s] by auto
qed

lemma integration_call_log:
  "fst (integration_call cfg n b log) = log \<or> fst (integration_call cfg n b log) = log @ [b]"
  by (cases n)
    (auto simp: integration_call_def integration_process_def verify_copies guarded_cases
      process_event_def split: prod.splits reply.splits sum.splits if_splits)

lemma integration_call_ok:
  "integration_call cfg n b log = (log', Inr r) \<Longrightarrow> log' = log @ [b]"
  by (cases n)
    (auto simp: integration_call_def integration_process_def verify_copies guarded_cases
      process_event_def split: prod.splits reply.splits sum.splits if_splits)

lemma integration_call_error:
  "integration_call cfg n b log = (log', Inl e) \<Longrightarrow> exc_str e \<noteq> []"
  by (cases n)
    (auto simp: integration_call_def split: prod.splits reply.splits sum.splits if_splits)

text \<open>An event the integration service performs.\<close>

definition acceptable :: "process_event_request \<Rightarrow> bool" where
  "acceptable b = (\<not> force_failure b \<and> py_strip (pe_event_type b) \<noteq> [])"

lemma integration_call_delivered:
  assumes "trusted cfg"
  shows "acceptable b \<Longrightarrow> \<exists>r. integration_call cfg Delivered b log = (log @ [b], Inr r)"
    and "\<not> acceptable b \<Longrightarrow>
      \<exists>m. integration_call cfg Delivered b log = (log, Inl (IntegrationError m)) \<and> m \<noteq> []"
  using assms
  by (auto simp: acceptable_def integration_call_def integration_process_def verify_copies
      trusted_def process_event_def split: prod.splits)

lemma job_request_row [simp]: "job_request (row_step j op) = job_request j"
  by (cases op)
    (auto simp: job_request_def claim_row_def complete_row_def fail_row_def reap_row_def)

lemma job_request_claim [simp]: "job_request (claim_row now j) = job_request j"
  by (simp add: job_request_def claim_row_def)

lemma pe_job_id_request [simp]: "pe_job_id (job_request j) = job_id j"
  by (simp add: job_request_def)

section \<open>Workers interleaved\<close>

text \<open>
  Where a worker stands inside \<open>process_one\<close>, and its three phases as separate steps. The system is
  the world and any number of workers; its events are the phases of the workers, in any order, and
  the requests of everybody else.
\<close>

datatype worker_pc =
    Idle
  | Claimed call_job
  | Reporting call_job "worker_exc + process_event_response"

datatype phase = Ph_claim net datetime string | Ph_process net | Ph_report net datetime datetime

fun worker_phase :: "tokens \<Rightarrow> phase \<Rightarrow> worker_pc \<Rightarrow> world \<Rightarrow> worker_pc \<times> world" where
  "worker_phase cfg (Ph_claim n now jid) Idle w =
     (case on_api (jobs_claim cfg n now jid) w of
        (w', Inr (Some j)) \<Rightarrow> (Claimed j, w')
      | (w', _) \<Rightarrow> (Idle, w'))"
| "worker_phase cfg (Ph_process n) (Claimed j) w =
     (case on_log (integration_call cfg n (job_request j)) w of (w', out) \<Rightarrow> (Reporting j out, w'))"
| "worker_phase cfg (Ph_report n now pynow) (Reporting j out) w =
     (Idle, report_outcome cfg n now pynow j out w)"
| "worker_phase cfg ph pc w = (pc, w)"

lemma process_one_phases:
  "process_one cfg c jid w = (w', r) \<Longrightarrow>
     (case worker_phase cfg (Ph_claim (net_claim c) (at_claim c) jid) Idle w of (pc1, w1) \<Rightarrow>
      case worker_phase cfg (Ph_process (net_process c)) pc1 w1 of (pc2, w2) \<Rightarrow>
      worker_phase cfg (Ph_report (net_report c) (at_report c) (py_report c)) pc2 w2) = (Idle, w')"
  by (auto simp: process_one_def split: prod.splits sum.splits option.splits)

record system =
  sys_world :: world
  sys_workers :: "worker_pc list"

datatype sys_event =
    Ev_create redis_mode datetime string event_create_request
  | Ev_reap net datetime datetime
  | Ev_worker nat phase

fun sys_step :: "tokens \<Rightarrow> system \<Rightarrow> sys_event \<Rightarrow> system" where
  "sys_step cfg s (Ev_create redis now uuid b) =
     s\<lparr>sys_world := fst (on_api (create_event redis now uuid b) (sys_world s))\<rparr>"
| "sys_step cfg s (Ev_reap n now pynow) =
     s\<lparr>sys_world := fst (on_api (jobs_reap cfg n now pynow) (sys_world s))\<rparr>"
| "sys_step cfg s (Ev_worker i ph) =
     (if i < length (sys_workers s)
      then case worker_phase cfg ph (sys_workers s ! i) (sys_world s) of
        (pc, w) \<Rightarrow> s\<lparr>sys_world := w, sys_workers := (sys_workers s)[i := pc]\<rparr>
      else s)"

text \<open>How often a job's event was performed, and how many workers hold it claimed.\<close>

definition executions :: "process_event_request list \<Rightarrow> string \<Rightarrow> nat" where
  "executions log jid = length (filter (\<lambda>b. pe_job_id b = jid) log)"

fun holds :: "string \<Rightarrow> worker_pc \<Rightarrow> bool" where
  "holds jid (Claimed j) = (job_id j = jid)"
| "holds jid _ = False"

definition holders :: "worker_pc list \<Rightarrow> string \<Rightarrow> nat" where
  "holders pcs jid = length (filter (holds jid) pcs)"

text \<open>
  The invariant of the system: a completed job's event has been performed; each performance was
  paid for by a claim, and each worker about to perform one has paid too; workers know jobs that
  exist, with the event the table has; and a worker about to report success has performed it.
\<close>

definition job_account :: "world \<Rightarrow> worker_pc list \<Rightarrow> call_job \<Rightarrow> bool" where
  "job_account w pcs r =
     ((job_status r = Completed \<longrightarrow> job_request r \<in> set (processed w))
      \<and> int (executions (processed w) (job_id r) + holders pcs (job_id r)) \<le> job_attempts r)"

definition tracks :: "world \<Rightarrow> call_job \<Rightarrow> bool" where
  "tracks w j = (\<exists>r. job_at (api w) (job_id j) = Some r \<and> job_request r = job_request j)"

fun pc_ok :: "world \<Rightarrow> worker_pc \<Rightarrow> bool" where
  "pc_ok w Idle = True"
| "pc_ok w (Claimed j) = tracks w j"
| "pc_ok w (Reporting j (Inl e)) = tracks w j"
| "pc_ok w (Reporting j (Inr r)) = (tracks w j \<and> job_request j \<in> set (processed w))"

definition sys_inv :: "system \<Rightarrow> bool" where
  "sys_inv s =
     (jobs_inv (api (sys_world s))
      \<and> (\<forall>jid r. job_at (api (sys_world s)) jid = Some r \<longrightarrow>
            job_account (sys_world s) (sys_workers s) r)
      \<and> (\<forall>b \<in> set (processed (sys_world s)). job_at (api (sys_world s)) (pe_job_id b) \<noteq> None)
      \<and> (\<forall>pc \<in> set (sys_workers s). pc_ok (sys_world s) pc))"

lemma holders_update:
  assumes "i < length pcs"
  shows "holders (pcs[i := pc]) jid + (if holds jid (pcs ! i) then 1 else 0)
    = holders pcs jid + (if holds jid pc then 1 else 0)"
  using assms
proof (induction pcs arbitrary: i)
  case (Cons x pcs)
  then show ?case by (cases i) (auto simp: holders_def)
qed simp

lemma executions_append [simp]:
  "executions (log @ [b]) jid = executions log jid + (if pe_job_id b = jid then 1 else 0)"
  by (simp add: executions_def)

lemma executions_zero: "\<forall>b \<in> set log. pe_job_id b \<noteq> jid \<Longrightarrow> executions log jid = 0"
  by (auto simp: executions_def filter_empty_conv)

lemma holders_zero: "\<forall>pc \<in> set pcs. \<not> holds jid pc \<Longrightarrow> holders pcs jid = 0"
  by (simp add: holders_def filter_empty_conv)

lemma row_step_attempts: "job_attempts j \<le> job_attempts (row_step j op)"
  by (cases op) (auto simp: claim_row_def complete_row_def fail_row_def reap_row_def)

lemma row_step_completed:
  "job_status (row_step j op) = Completed \<Longrightarrow>
     job_status j = Completed \<or> (\<exists>now. op = Op_complete now (job_id j))"
  by (cases op) (auto simp: claim_row_def fail_row_def reap_row_def split: if_splits)

lemma non_create_ids:
  assumes "job_at s jid = None" "\<not> (\<exists>redis now uuid b. op = Op_create redis now uuid b)"
  shows "job_at (job_step s op) jid = None"
proof (cases op)
  case (Op_fail now pynow i b)
  then show ?thesis
    using assms
    by (auto simp: fail_event_def fail_event_racing_def Let_def fail_upd.get_update
        split: option.splits list.splits)
qed (use assms in \<open>auto simp: claim_event_def complete_event_def complete_event_racing_def
      reap_stale_jobs_def Let_def claim_upd.get_update complete_upd.get_update reap_upd.get_update
      split: option.splits list.splits\<close>)

lemma job_step_back:
  assumes "jobs_inv s" "job_at (job_step s op) jid = Some r"
  shows "(\<exists>j. job_at s jid = Some j \<and> r = row_step j op)
    \<or> job_at s jid = None \<and> job_attempts r = 0 \<and> job_status r = Queued"
proof (cases "job_at s jid")
  case (Some j)
  with job_step_row [OF assms(1) Some, of op] assms(2) show ?thesis by auto
next
  case None
  with assms(2) obtain redis now uuid b where op: "op = Op_create redis now uuid b"
    using non_create_ids [OF None, of op] by fastforce
  with None assms(2) show ?thesis
    by (auto simp: create_event_def Let_def new_job_def split: if_splits)
qed

lemma tracks_step: "jobs_inv (api w) \<Longrightarrow> tracks w j \<Longrightarrow> tracks (w\<lparr>api := job_step (api w) op\<rparr>) j"
  using job_step_row [of "api w" "job_id j" _ op] by (auto simp: tracks_def)

lemma pc_ok_step:
  "jobs_inv (api w) \<Longrightarrow> pc_ok w pc \<Longrightarrow> pc_ok (w\<lparr>api := job_step (api w) op\<rparr>) pc"
  by (cases "(w, pc)" rule: pc_ok.cases) (auto intro: tracks_step)

lemma account_row:
  assumes "job_account w pcs r"
    and "\<And>now. op = Op_complete now (job_id r) \<Longrightarrow> job_request r \<in> set (processed w)"
  shows "job_account (w\<lparr>api := s\<rparr>) pcs (row_step r op)"
  using assms row_step_attempts [of r op] row_step_completed [of r op]
  by (auto simp: job_account_def)

text \<open>A step of the queue keeps the invariant, as long as only performed events are completed.\<close>

lemma sys_inv_api_step:
  assumes inv: "sys_inv s"
    and fin: "\<And>now jid r. op = Op_complete now jid \<Longrightarrow> job_at (api (sys_world s)) jid = Some r \<Longrightarrow>
      job_request r \<in> set (processed (sys_world s))"
  shows "sys_inv (s\<lparr>sys_world := (sys_world s)\<lparr>api := job_step (api (sys_world s)) op\<rparr>\<rparr>)"
proof -
  let ?w = "sys_world s"
  note jinv = inv [unfolded sys_inv_def, THEN conjunct1]
  have acc: "job_account (?w\<lparr>api := job_step (api ?w) op\<rparr>) (sys_workers s) r"
    if at: "job_at (job_step (api ?w) op) jid = Some r" for jid r
    using job_step_back [OF jinv at]
  proof
    assume "\<exists>j. job_at (api ?w) jid = Some j \<and> r = row_step j op"
    then obtain j where j: "job_at (api ?w) jid = Some j" "r = row_step j op" by blast
    have a: "job_account ?w (sys_workers s) j" using inv j by (auto simp: sys_inv_def)
    have d: "job_request j \<in> set (processed ?w)" if "op = Op_complete now (job_id j)" for now
      using fin [OF that] j tbl_get_SomeD [OF j(1)] by auto
    show ?thesis using account_row [OF a d] j by simp
  next
    assume new: "job_at (api ?w) jid = None \<and> job_attempts r = 0 \<and> job_status r = Queued"
    have rid: "job_id r = jid" using at by (auto dest: tbl_get_SomeD)
    have "executions (processed ?w) jid = 0"
      using inv new by (intro executions_zero) (auto simp: sys_inv_def)
    moreover have "holders (sys_workers s) jid = 0"
    proof (rule holders_zero, rule ballI, rule notI)
      fix pc assume "pc \<in> set (sys_workers s)" "holds jid pc"
      with inv new show False by (cases pc) (auto simp: sys_inv_def tracks_def)
    qed
    ultimately show ?thesis using new rid by (simp add: job_account_def)
  qed
  have kept: "job_at (job_step (api ?w) op) (pe_job_id b) \<noteq> None" if "b \<in> set (processed ?w)" for b
    using inv that job_step_row [OF jinv] by (force simp: sys_inv_def)
  show ?thesis
    using acc kept inv job_step_inv [OF jinv] pc_ok_step [OF jinv]
    by (auto simp: sys_inv_def)
qed

lemma fst_on_api [simp]: "fst (on_api f w) = w\<lparr>api := fst (f (api w))\<rparr>"
  by (simp add: on_api_def split: prod.splits)

lemma fst_on_log [simp]: "fst (on_log f w) = w\<lparr>processed := fst (f (processed w))\<rparr>"
  by (simp add: on_log_def split: prod.splits)

lemma sys_inv_pc:
  assumes "sys_inv s" "i < length (sys_workers s)" "pc_ok (sys_world s) pc"
    and "\<And>jid. \<not> holds jid pc"
  shows "sys_inv (s\<lparr>sys_workers := (sys_workers s)[i := pc]\<rparr>)"
proof -
  have le: "holders ((sys_workers s)[i := pc]) jid \<le> holders (sys_workers s) jid" for jid
    using holders_update [OF assms(2), of pc jid] assms(4) by (auto split: if_splits)
  have "job_account (sys_world s) ((sys_workers s)[i := pc]) r"
    if "job_account (sys_world s) (sys_workers s) r" for r
    using that le [of "job_id r"] by (auto simp: job_account_def)
  with assms show ?thesis by (auto simp: sys_inv_def dest: set_update_subset_insert [THEN subsetD])
qed

lemma sys_inv_claim:
  assumes inv: "sys_inv s" and i: "i < length (sys_workers s)" "sys_workers s ! i = Idle"
    and at: "job_at (api (sys_world s)) jid = Some r" "claimable now r"
  shows "sys_inv (s\<lparr>sys_world := (sys_world s)\<lparr>api := job_step (api (sys_world s)) (Op_claim now jid)\<rparr>,
    sys_workers := (sys_workers s)[i := Claimed (claim_row now r)]\<rparr>)"
proof -
  let ?w = "sys_world s" and ?op = "Op_claim now jid" and ?pcs = "(sys_workers s)[i := Claimed (claim_row now r)]"
  let ?w' = "?w\<lparr>api := job_step (api ?w) ?op\<rparr>"
  note jinv = inv [unfolded sys_inv_def, THEN conjunct1]
  have rid: "job_id r = jid" "job_id (claim_row now r) = jid"
    using at by (auto dest: tbl_get_SomeD simp: claim_upd.key_kept)
  have base: "sys_inv (s\<lparr>sys_world := ?w'\<rparr>)" by (rule sys_inv_api_step [OF inv]) simp
  have hold: "holders ?pcs q = holders (sys_workers s) q + (if q = jid then 1 else 0)" for q
    using holders_update [OF i(1), of "Claimed (claim_row now r)" q] i(2) rid by auto
  have row: "job_at (job_step (api ?w) ?op) jid = Some (claim_row now r)"
    using job_step_row [OF jinv at(1), of ?op] at(2) rid by simp
  have acc: "job_account ?w' ?pcs x" if x: "job_at (job_step (api ?w) ?op) q = Some x" for q x
  proof (cases "q = jid")
    case True
    with x row have xr: "x = claim_row now r" by simp
    have "job_account ?w (sys_workers s) r" using inv at by (auto simp: sys_inv_def)
    moreover have "job_status (claim_row now r) = Processing"
      "job_attempts (claim_row now r) = job_attempts r + 1" by (simp_all add: claim_row_def)
    ultimately show ?thesis by (auto simp: job_account_def xr hold rid)
  next
    case False
    moreover have "job_account ?w' (sys_workers s) x" using base x by (auto simp: sys_inv_def)
    moreover have "job_id x = q" using x by (auto dest: tbl_get_SomeD)
    ultimately show ?thesis by (simp add: job_account_def hold)
  qed
  have "tracks ?w' (claim_row now r)" using row rid by (simp add: tracks_def)
  with acc base show ?thesis
    by (auto simp: sys_inv_def dest!: set_update_subset_insert [THEN subsetD])
qed

lemma sys_inv_process:
  assumes inv: "sys_inv s" and i: "i < length (sys_workers s)" "sys_workers s ! i = Claimed j"
    and out: "integration_call cfg n (job_request j) (processed (sys_world s)) = (log, out)"
  shows "sys_inv (s\<lparr>sys_world := (sys_world s)\<lparr>processed := log\<rparr>,
    sys_workers := (sys_workers s)[i := Reporting j out]\<rparr>)"
proof -
  let ?w = "sys_world s" and ?pcs = "(sys_workers s)[i := Reporting j out]"
  let ?w' = "?w\<lparr>processed := log\<rparr>"
  have pcj: "tracks ?w j" using inv i by (force simp: sys_inv_def dest: nth_mem)
  have log: "log = processed ?w \<or> log = processed ?w @ [job_request j]"
    using integration_call_log [of cfg n "job_request j" "processed ?w"] out by auto
  have hold: "holders (sys_workers s) q = holders ?pcs q + (if q = job_id j then 1 else 0)" for q
    using holders_update [OF i(1), of "Reporting j out" q] i(2) by auto
  have "job_account ?w' ?pcs r" if "job_account ?w (sys_workers s) r" for r
    using that log hold [of "job_id r"] by (auto simp: job_account_def split: if_splits)
  moreover have "pc_ok ?w' pc" if "pc_ok ?w pc" for pc
    using that log by (cases "(?w, pc)" rule: pc_ok.cases) (auto simp: tracks_def)
  moreover have "pc_ok ?w' (Reporting j out)"
    using pcj integration_call_ok [of cfg n "job_request j" "processed ?w" log] out
    by (cases out) (auto simp: tracks_def)
  moreover have "job_at (api ?w) (pe_job_id b) \<noteq> None" if "b \<in> set log" for b
    using that log inv pcj by (auto simp: sys_inv_def tracks_def)
  ultimately show ?thesis
    using inv by (auto simp: sys_inv_def dest!: set_update_subset_insert [THEN subsetD])
qed

lemma sys_inv_report:
  assumes inv: "sys_inv s" and i: "i < length (sys_workers s)" "sys_workers s ! i = Reporting j out"
  shows "sys_inv (s\<lparr>sys_world := report_outcome cfg n now pynow j out (sys_world s),
    sys_workers := (sys_workers s)[i := Idle]\<rparr>)"
proof -
  let ?w = "sys_world s"
  have pcj: "pc_ok ?w (Reporting j out)" using inv i by (metis nth_mem sys_inv_def)
  have "sys_inv (s\<lparr>sys_world := report_outcome cfg n now pynow j out ?w\<rparr>)"
  proof (cases out)
    case (Inl e)
    have "sys_inv (s\<lparr>sys_world := ?w\<lparr>api := job_step (api ?w)
        (Op_fail now pynow (job_id j) \<lparr>ef_error = exc_str e, ef_retry = True\<rparr>)\<rparr>\<rparr>)"
      by (rule sys_inv_api_step [OF inv]) simp
    with Inl inv jobs_fail_state [of cfg n now pynow "job_id j" "exc_str e" True "api ?w"]
    show ?thesis by (auto simp: report_outcome_def)
  next
    case (Inr x)
    have "sys_inv (s\<lparr>sys_world := ?w\<lparr>api := job_step (api ?w) (Op_complete now (job_id j))\<rparr>\<rparr>)"
      by (rule sys_inv_api_step [OF inv]) (use pcj Inr in \<open>auto simp: tracks_def\<close>)
    with Inr inv jobs_complete_state [of cfg n now "job_id j" "api ?w"]
    show ?thesis by (auto simp: report_outcome_def)
  qed
  from sys_inv_pc [OF this, of i Idle] i show ?thesis by simp
qed

lemma on_api_eq: "on_api f w = (w', r) \<Longrightarrow> \<exists>s. f (api w) = (s, r) \<and> w' = w\<lparr>api := s\<rparr>"
  by (auto simp: on_api_def split: prod.splits)

lemma on_log_eq: "on_log f w = (w', r) \<Longrightarrow> \<exists>l. f (processed w) = (l, r) \<and> w' = w\<lparr>processed := l\<rparr>"
  by (auto simp: on_log_def split: prod.splits)

lemma sys_inv_worker:
  assumes inv: "sys_inv s" and i: "i < length (sys_workers s)"
    and step: "worker_phase cfg ph (sys_workers s ! i) (sys_world s) = (pc, w)"
  shows "sys_inv (s\<lparr>sys_world := w, sys_workers := (sys_workers s)[i := pc]\<rparr>)"
proof -
  have same: "sys_inv (s\<lparr>sys_workers := (sys_workers s)[i := sys_workers s ! i]\<rparr>)"
    using inv by simp
  show ?thesis
  proof (cases "(cfg, ph, sys_workers s ! i, sys_world s)" rule: worker_phase.cases)
    case (1 cfg n now jid w0)
    note jinv = inv [unfolded sys_inv_def, THEN conjunct1]
    obtain w' r where r: "on_api (jobs_claim cfg n now jid) (sys_world s) = (w', r)" by force
    then obtain s' where s': "jobs_claim cfg n now jid (api (sys_world s)) = (s', r)"
      "w' = (sys_world s)\<lparr>api := s'\<rparr>" by (auto dest: on_api_eq)
    have claim: "sys_inv (s\<lparr>sys_world := w'\<rparr>)"
      using jobs_claim_state [of cfg n now jid "api (sys_world s)"] s' inv
        sys_inv_api_step [OF inv, of "Op_claim now jid"] by auto
    show ?thesis
    proof (cases "\<exists>j. r = Inr (Some j)")
      case True
      then obtain j where "r = Inr (Some j)" by blast
      then show ?thesis
        using jobs_claim_Some [OF jinv, of cfg n now jid s' j] s' step 1 r
          sys_inv_claim [OF inv i] by auto
    next
      case False
      then have "pc = Idle" "w = w'" using step 1 r by (auto split: sum.splits option.splits)
      then show ?thesis using sys_inv_pc [OF claim, of i Idle] i by simp
    qed
  next
    case (2 cfg n j w0)
    then show ?thesis
      using step sys_inv_process [OF inv i, of j cfg n] by (auto split: prod.splits dest!: on_log_eq)
  next
    case (3 cfg n now pynow j out w0)
    then show ?thesis using step sys_inv_report [OF inv i, of j out cfg n now pynow] by simp
  qed (use step same in auto)
qed

lemma sys_step_inv: "sys_inv s \<Longrightarrow> sys_inv (sys_step cfg s ev)"
proof (cases ev)
  case (Ev_create redis now uuid b)
  assume "sys_inv s"
  from sys_inv_api_step [OF this, of "Op_create redis now uuid b"] Ev_create show ?thesis by simp
next
  case (Ev_reap n now pynow)
  assume inv: "sys_inv s"
  from sys_inv_api_step [OF this, of "Op_reap now pynow"] Ev_reap inv
    jobs_reap_state [of cfg n now pynow "api (sys_world s)"] show ?thesis by auto
next
  case (Ev_worker i ph)
  assume "sys_inv s"
  with Ev_worker show ?thesis by (auto intro: sys_inv_worker split: prod.splits)
qed

interpretation worker_system: machine "sys_step cfg" sys_inv for cfg
  by unfold_locales (rule sys_step_inv)

section \<open>One cycle with a working network\<close>

definition delivered :: "cycle \<Rightarrow> bool" where
  "delivered c = (net_claim c = Delivered \<and> net_process c = Delivered \<and> net_report c = Delivered)"

lemma jobs_claim_delivered:
  assumes "trusted cfg" "jobs_inv s" "job_at s jid = Some j" "claimable now j"
  shows "jobs_claim cfg Delivered now jid s = (job_step s (Op_claim now jid), Inr (Some (claim_row now j)))"
  using assms claim_event_hit [OF jobs_inv_distinct [OF assms(2)] assms(3,4)]
  by (simp add: jobs_claim_def jobs_request_delivered on_db_def)

lemma jobs_complete_delivered:
  "trusted cfg \<Longrightarrow> fst (jobs_complete cfg Delivered now jid s) = job_step s (Op_complete now jid)"
  by (auto simp: jobs_complete_def jobs_request_delivered on_db_def split: prod.splits)

lemma jobs_fail_delivered:
  "trusted cfg \<Longrightarrow> fst (jobs_fail cfg Delivered now pynow jid e r s) =
     job_step s (Op_fail now pynow jid \<lparr>ef_error = e, ef_retry = r\<rparr>)"
  by (auto simp: jobs_fail_def jobs_request_delivered on_db_def split: prod.splits)

lemma jobs_reap_delivered:
  "trusted cfg \<Longrightarrow> fst (jobs_reap cfg Delivered now pynow s) = job_step s (Op_reap now pynow)"
  by (simp add: jobs_reap_def jobs_request_delivered on_db_def reap_stale_jobs_def)

lemma process_one_claimed:
  assumes "trusted cfg" "jobs_inv (api w)" "net_claim c = Delivered"
    and "job_at (api w) jid = Some j" "claimable (at_claim c) j"
  shows "process_one cfg c jid w =
    (case on_log (integration_call cfg (net_process c) (job_request j))
            (w\<lparr>api := job_step (api w) (Op_claim (at_claim c) jid)\<rparr>) of
       (w2, out) \<Rightarrow> (report_outcome cfg (net_report c) (at_report c) (py_report c)
                      (claim_row (at_claim c) j) out w2, Inr ()))"
  using jobs_claim_delivered [OF assms(1,2,4,5)] assms(3)
  by (simp add: process_one_def on_api_def split: prod.splits)

lemma process_one_acceptable:
  assumes "trusted cfg" "jobs_inv (api w)" "delivered c"
    and at: "job_at (api w) jid = Some j" "claimable (at_claim c) j" and "acceptable (job_request j)"
  shows "process_one cfg c jid w =
    (w\<lparr>api := run job_step (api w) [Op_claim (at_claim c) jid, Op_complete (at_report c) jid],
       processed := processed w @ [job_request j]\<rparr>, Inr ())"
proof -
  have "job_id (claim_row (at_claim c) j) = jid"
    using at(1) by (auto dest: tbl_get_SomeD simp: claim_upd.key_kept)
  moreover obtain r where "integration_call cfg Delivered (job_request j) (processed w) =
      (processed w @ [job_request j], Inr r)"
    using integration_call_delivered(1) [OF assms(1,6)] by blast
  ultimately show ?thesis
    using process_one_claimed [OF assms(1,2) _ at] assms(1,3)
    by (simp add: delivered_def on_log_def report_outcome_def jobs_complete_delivered)
qed

lemma process_one_rejected:
  assumes "trusted cfg" "jobs_inv (api w)" "delivered c"
    and at: "job_at (api w) jid = Some j" "claimable (at_claim c) j" and "\<not> acceptable (job_request j)"
  shows "\<exists>e. e \<noteq> [] \<and> process_one cfg c jid w =
    (w\<lparr>api := run job_step (api w) [Op_claim (at_claim c) jid,
         Op_fail (at_report c) (py_report c) jid \<lparr>ef_error = e, ef_retry = True\<rparr>]\<rparr>, Inr ())"
proof -
  have id: "job_id (claim_row (at_claim c) j) = jid"
    using at(1) by (auto dest: tbl_get_SomeD simp: claim_upd.key_kept)
  obtain m where "integration_call cfg Delivered (job_request j) (processed w) =
      (processed w, Inl (IntegrationError m))" "m \<noteq> []"
    using integration_call_delivered(2) [OF assms(1,6)] by blast
  with id show ?thesis
    using process_one_claimed [OF assms(1,2) _ at] assms(1,3)
    by (auto simp: delivered_def on_log_def report_outcome_def jobs_fail_delivered)
qed

text \<open>What one such cycle makes of the job's row, and that it leaves the others alone.\<close>

definition finished_row :: "cycle \<Rightarrow> call_job \<Rightarrow> call_job" where
  "finished_row c j = complete_row (at_report c) (claim_row (at_claim c) j)"

lemma row_step_other: "job_id j \<noteq> jid \<Longrightarrow>
    row_step j (Op_claim now jid) = j \<and> row_step j (Op_complete now jid) = j
    \<and> row_step j (Op_fail now pynow jid b) = j"
  by simp

lemma claim_status [simp]:
  "job_status (claim_row now j) = Processing" "job_id (claim_row now j) = job_id j"
  "job_attempts (claim_row now j) = job_attempts j + 1"
  "job_max_attempts (claim_row now j) = job_max_attempts j"
  by (simp_all add: claim_row_def)

lemma process_one_rows:
  assumes "trusted cfg" "jobs_inv (api w)" "delivered c"
    and at: "job_at (api w) jid = Some j" "claimable (at_claim c) j"
    and r: "process_one cfg c jid w = (w', r)"
  shows "r = Inr () \<and> jobs_inv (api w')"
    and "q \<noteq> jid \<Longrightarrow> job_at (api w) q = Some x \<Longrightarrow> job_at (api w') q = Some x"
    and "acceptable (job_request j) \<Longrightarrow> job_at (api w') jid = Some (finished_row c j)
      \<and> processed w' = processed w @ [job_request j]"
    and "\<not> acceptable (job_request j) \<Longrightarrow> processed w' = processed w \<and>
      (\<exists>e. e \<noteq> [] \<and> job_at (api w') jid = Some (fail_row (at_report c) (py_report c)
          \<lparr>ef_error = e, ef_retry = True\<rparr> (claim_row (at_claim c) j) (claim_row (at_claim c) j)))"
proof -
  have jid: "job_id j = jid" using at(1) by (auto dest: tbl_get_SomeD)
  obtain op where w': "api w' = run job_step (api w) [Op_claim (at_claim c) jid, op]" "r = Inr ()"
    and op: "acceptable (job_request j) \<and> op = Op_complete (at_report c) jid
        \<and> processed w' = processed w @ [job_request j]
      \<or> \<not> acceptable (job_request j) \<and> processed w' = processed w \<and> (\<exists>e. e \<noteq> [] \<and>
          op = Op_fail (at_report c) (py_report c) jid \<lparr>ef_error = e, ef_retry = True\<rparr>)"
    using process_one_acceptable [OF assms(1-5)] process_one_rejected [OF assms(1-5)] r
    by (cases "acceptable (job_request j)") (auto simp del: run_Cons)
  show "r = Inr () \<and> jobs_inv (api w')"
    using w' job_queue.run_inv [OF assms(2)] by metis
  show "q \<noteq> jid \<Longrightarrow> job_at (api w) q = Some x \<Longrightarrow> job_at (api w') q = Some x"
    using w' op run_row [OF assms(2), of q x "[Op_claim (at_claim c) jid, op]"]
    by (auto dest: tbl_get_SomeD)
  show "acceptable (job_request j) \<Longrightarrow> job_at (api w') jid = Some (finished_row c j)
      \<and> processed w' = processed w @ [job_request j]"
    using w' op run_row [OF assms(2) at(1), of "[Op_claim (at_claim c) jid, op]"] at(2) jid
    by (auto simp: finished_row_def)
  show "\<not> acceptable (job_request j) \<Longrightarrow> processed w' = processed w \<and>
      (\<exists>e. e \<noteq> [] \<and> job_at (api w') jid = Some (fail_row (at_report c) (py_report c)
          \<lparr>ef_error = e, ef_retry = True\<rparr> (claim_row (at_claim c) j) (claim_row (at_claim c) j)))"
    using w' op run_row [OF assms(2) at(1), of "[Op_claim (at_claim c) jid, op]"] at(2) jid
    by (auto simp: valid_event_fail_def)
qed

section \<open>Repeated failure and the polling fallback\<close>

text \<open>Cycles over one job, one after the other.\<close>

fun process_times :: "tokens \<Rightarrow> string \<Rightarrow> cycle list \<Rightarrow> world \<Rightarrow> world" where
  "process_times cfg jid [] w = w"
| "process_times cfg jid (c # cs) w = process_times cfg jid cs (fst (process_one cfg c jid w))"

text \<open>Each cycle starts no earlier than the longest backoff after the report before it.\<close>

fun spaced :: "datetime \<Rightarrow> cycle list \<Rightarrow> bool" where
  "spaced t [] = True"
| "spaced t (c # cs) =
     (delivered c \<and> t \<le> at_claim c \<and> spaced (py_report c + seconds MAX_BACKOFF_SECONDS) cs)"

lemma backoff_le: "backoff_seconds n \<le> MAX_BACKOFF_SECONDS"
  by (simp add: backoff_seconds_def)

lemma hopeless_run:
  assumes "trusted cfg" "jobs_inv (api w)" "job_at (api w) jid = Some j"
    and "\<not> acceptable (job_request j)" "job_status j \<in> CLAIMABLE_STATUSES"
    and "spaced (job_available_at j) cs" "length cs = attempts_left j"
  shows "(\<exists>r. job_at (api (process_times cfg jid cs w)) jid = Some r \<and> job_status r = Failed
      \<and> job_attempts r = job_max_attempts r)
    \<and> processed (process_times cfg jid cs w) = processed w"
  using assms(2-)
proof (induction cs arbitrary: w j)
  case Nil
  then show ?case using job_at_ok [of "api w" jid j] by (auto simp: attempts_left_def job_ok_def)
next
  case (Cons c cs)
  let ?j = "claim_row (at_claim c) j"
  obtain w' r where r: "process_one cfg c jid w = (w', r)" by force
  have cl: "claimable (at_claim c) j" "delivered c" using Cons.prems by (auto simp: claimable_def)
  note rows = process_one_rows [OF assms(1) Cons.prems(1) cl(2) Cons.prems(2) cl(1) r]
  obtain e where p: "processed w' = processed w" and at: "job_at (api w') jid =
      Some (fail_row (at_report c) (py_report c) \<lparr>ef_error = e, ef_retry = True\<rparr> ?j ?j)"
    using rows(4) Cons.prems(3) by blast
  have left: "attempts_left ?j = length cs" and lim: "job_attempts j < job_max_attempts j"
    using Cons.prems(6) by (auto simp: attempts_left_def)
  show ?case
  proof (cases "can_retry \<lparr>ef_error = e, ef_retry = True\<rparr> ?j")
    case True
    let ?r = "fail_row (at_report c) (py_report c) \<lparr>ef_error = e, ef_retry = True\<rparr> ?j ?j"
    have "job_status ?r \<in> CLAIMABLE_STATUSES" "attempts_left ?r = length cs"
      "job_request ?r = job_request j" "job_available_at ?r = py_report c + seconds (backoff_seconds (job_attempts j + 1))"
      using True left by (simp_all add: fail_row_def status_defs attempts_left_def job_request_def claim_row_def)
    moreover have "spaced (job_available_at ?r) cs"
    proof -
      have "job_available_at ?r \<le> py_report c + seconds MAX_BACKOFF_SECONDS"
        using calculation(4) backoff_le [of "job_attempts j + 1"] by simp
      then show ?thesis using Cons.prems(5) by (cases cs) auto
    qed
    ultimately show ?thesis
      using Cons.IH [OF _ at] rows(1) r p Cons.prems(3) by simp
  next
    case False
    then have "attempts_left ?j = 0" by (auto simp: can_retry_def attempts_left_def)
    with left have "cs = []" by simp
    moreover have "job_status (fail_row (at_report c) (py_report c) \<lparr>ef_error = e, ef_retry = True\<rparr> ?j ?j) = Failed"
      "job_attempts (fail_row (at_report c) (py_report c) \<lparr>ef_error = e, ef_retry = True\<rparr> ?j ?j) = job_attempts j + 1"
      "job_max_attempts (fail_row (at_report c) (py_report c) \<lparr>ef_error = e, ef_retry = True\<rparr> ?j ?j) = job_max_attempts j"
      using False by (simp_all add: fail_row_def)
    ultimately show ?thesis using at r p False lim by (auto simp: can_retry_def)
  qed
qed

text \<open>Listed jobs with nobody in the way: each is in the table as listed, and can be claimed.\<close>

definition waiting :: "datetime \<Rightarrow> world \<Rightarrow> call_job list \<Rightarrow> bool" where
  "waiting now w js =
     (jobs_inv (api w) \<and> distinct (map job_id js)
      \<and> (\<forall>j \<in> set js. job_at (api w) (job_id j) = Some j \<and> claimable now j))"

definition calm :: "datetime \<Rightarrow> (nat \<Rightarrow> bool \<times> cycle) \<Rightarrow> bool" where
  "calm now cyc = (\<forall>k. \<not> fst (cyc k) \<and> delivered (snd (cyc k)) \<and> now \<le> at_claim (snd (cyc k)))"

lemma process_eligible_step:
  assumes "trusted cfg" "calm now cyc" "waiting now w (a # js)"
  obtains w' where "process_one cfg (snd (cyc k)) (job_id a) w = (w', Inr ())" "waiting now w' js"
    "process_eligible cfg cyc k (a # js) w = process_eligible cfg cyc (Suc k) js w'"
    "\<And>q x. q \<noteq> job_id a \<Longrightarrow> job_at (api w) q = Some x \<Longrightarrow> job_at (api w') q = Some x"
    "acceptable (job_request a) \<Longrightarrow> job_at (api w') (job_id a) = Some (finished_row (snd (cyc k)) a)
      \<and> job_request a \<in> set (processed w')"
    "set (processed w) \<subseteq> set (processed w')"
proof -
  obtain w' r where r: "process_one cfg (snd (cyc k)) (job_id a) w = (w', r)" by force
  have a: "jobs_inv (api w)" "delivered (snd (cyc k))" "job_at (api w) (job_id a) = Some a"
    "claimable (at_claim (snd (cyc k))) a"
    using assms(2,3) by (auto simp: calm_def waiting_def claimable_def intro: order_trans)
  note rows = process_one_rows [OF assms(1) a r]
  have "waiting now w' js"
    using assms(3) rows(1,2) by (auto simp: waiting_def image_iff)
  moreover have "process_eligible cfg cyc k (a # js) w = process_eligible cfg cyc (Suc k) js w'"
    using assms(2) r rows(1) by (simp add: calm_def)
  moreover have "set (processed w) \<subseteq> set (processed w')"
    using rows(3,4) by (cases "acceptable (job_request a)") auto
  moreover have "job_request a \<in> set (processed w')" if "acceptable (job_request a)"
    using rows(3) [OF that] by simp
  ultimately show thesis using that r rows by blast
qed

lemma process_eligible_frame:
  assumes "trusted cfg" "calm now cyc" "waiting now w js"
    and "q \<notin> job_id ` set js" "job_at (api w) q = Some x"
  shows "job_at (api (process_eligible cfg cyc k js w)) q = Some x"
  using assms(3-)
proof (induction js arbitrary: w k)
  case (Cons a js)
  from process_eligible_step [OF assms(1,2) Cons.prems(1), of k] obtain w' where
    "waiting now w' js" "process_eligible cfg cyc k (a # js) w = process_eligible cfg cyc (Suc k) js w'"
    "\<And>q x. q \<noteq> job_id a \<Longrightarrow> job_at (api w) q = Some x \<Longrightarrow> job_at (api w') q = Some x" by metis
  with Cons show ?case by simp
qed simp

lemma process_eligible_log:
  assumes "trusted cfg" "calm now cyc" "waiting now w js"
  shows "set (processed w) \<subseteq> set (processed (process_eligible cfg cyc k js w))"
  using assms(3)
proof (induction js arbitrary: w k)
  case (Cons a js)
  from process_eligible_step [OF assms(1,2) Cons.prems(1), of k] obtain w' where
    "waiting now w' js" "process_eligible cfg cyc k (a # js) w = process_eligible cfg cyc (Suc k) js w'"
    "set (processed w) \<subseteq> set (processed w')" by metis
  with Cons.IH [of w' "Suc k"] show ?case by auto
qed simp

lemma process_eligible_completes:
  assumes "trusted cfg" "calm now cyc" "waiting now w js" "j \<in> set js" "acceptable (job_request j)"
  shows "\<exists>r. job_at (api (process_eligible cfg cyc k js w)) (job_id j) = Some r
    \<and> job_status r = Completed \<and> job_request r = job_request j
    \<and> job_request j \<in> set (processed (process_eligible cfg cyc k js w))"
  using assms(3,4)
proof (induction js arbitrary: w k)
  case (Cons a js)
  from process_eligible_step [OF assms(1,2) Cons.prems(1), of k] obtain w' where w':
    "waiting now w' js" "process_eligible cfg cyc k (a # js) w = process_eligible cfg cyc (Suc k) js w'"
    "acceptable (job_request a) \<Longrightarrow> job_at (api w') (job_id a) = Some (finished_row (snd (cyc k)) a)
      \<and> job_request a \<in> set (processed w')"
    by metis
  show ?case
  proof (cases "j = a")
    case True
    have "job_id a \<notin> job_id ` set js" using Cons.prems(1) by (auto simp: waiting_def)
    from process_eligible_frame [OF assms(1,2) w'(1) this] process_eligible_log [OF assms(1,2) w'(1), of "Suc k"]
      True assms(5) w'
    show ?thesis by (auto simp: finished_row_def complete_row_def job_request_def claim_row_def)
  next
    case False
    with Cons w' show ?thesis by simp
  qed
qed simp

lemma poll_list:
  assumes "jobs_inv (api w)" "length (filter (claimable now) (jobs_of (api w))) \<le> 10"
  obtains js where "list_eligible_events now [''queued'', ''retrying''] 10 (db (api w)) = Inr js"
    "waiting now w js" "set js = set (filter (claimable now) (jobs_of (api w)))"
proof -
  let ?js = "sort_key job_available_at (filter (claimable now) (jobs_of (api w)))"
  have "list_eligible_events now [''queued'', ''retrying''] 10 (db (api w)) = Inr ?js"
    using assms(2) by (simp add: list_eligible_jobs)
  moreover have "distinct (map job_id ?js)"
    using jobs_inv_distinct [OF assms(1)] by (auto simp: distinct_map intro: inj_on_subset)
  then have "waiting now w ?js"
    using assms(1) by (auto simp: waiting_def jobs_inv_def tbl_get_eq_Some_iff)
  ultimately show thesis using that by simp
qed

text \<open>The jobs that are not finished, of which reaping makes no more.\<close>

definition unfinished :: "call_job list \<Rightarrow> call_job list" where
  "unfinished js = filter (\<lambda>j. job_status j \<notin> TERMINAL_STATUSES) js"

lemma claimable_unfinished: "length (filter (claimable now) js) \<le> length (unfinished js)"
  by (induction js) (auto simp: unfinished_def claimable_def status_defs)

lemma reap_unfinished:
  "length (filter (claimable now) (tbl_update (stale pynow) (reap_row t) js)) \<le> length (unfinished js)"
  by (induction js) (auto simp: unfinished_def claimable_def status_defs stale_def)

section \<open>One iteration of the loop\<close>

text \<open>The world after the reap an iteration may begin with.\<close>

definition after_reap :: "tokens \<Rightarrow> iteration \<Rightarrow> datetime \<Rightarrow> world \<Rightarrow> world" where
  "after_reap cfg it t w =
     (if seconds REAP_INTERVAL_SECONDS \<le> it_mono it - t
      then fst (on_api (jobs_reap cfg (it_reap_net it) (it_reap_now it) (it_reap_py it)) w) else w)"

lemma loop_iteration_after:
  "snd (loop_iteration cfg it (t, w)) =
     (case on_api (blpop_queue (it_blpop it)) (after_reap cfg it t w) of
        (w2, Some jid) \<Rightarrow> fst (process_one cfg (snd (it_cycle it 0)) jid w2)
      | (w2, None) \<Rightarrow>
          (case on_api (jobs_list_eligible cfg (it_list_net it) (it_list_now it) [''queued'', ''retrying''] 10) w2 of
             (w3, Inl e) \<Rightarrow> w3
           | (w3, Inr jobs) \<Rightarrow> process_eligible cfg (it_cycle it) 0 jobs w3))"
  by (simp add: loop_iteration_def Let_def after_reap_def split: prod.split option.split sum.split)

text \<open>Reaping loses nothing that waits, and makes no more jobs claimable than were unfinished.\<close>

lemma iteration_reap:
  assumes "jobs_inv (api w)"
  shows "jobs_inv (api (after_reap cfg it t w))"
    and "wake_queue (api (after_reap cfg it t w)) = wake_queue (api w)"
    and "processed (after_reap cfg it t w) = processed w"
    and "job_at (api w) jid = Some j \<Longrightarrow> claimable now j \<Longrightarrow> job_at (api (after_reap cfg it t w)) jid = Some j"
    and "length (filter (claimable now) (jobs_of (api (after_reap cfg it t w)))) \<le> length (unfinished (jobs_of (api w)))"
proof -
  let ?op = "Op_reap (it_reap_now it) (it_reap_py it)" and ?w = "after_reap cfg it t w"
  have w1: "api ?w = api w \<or> api ?w = job_step (api w) ?op"
    using jobs_reap_state [of cfg "it_reap_net it" "it_reap_now it" "it_reap_py it" "api w"]
    by (auto simp: after_reap_def)
  show "jobs_inv (api ?w)" using w1 assms job_step_inv [OF assms, of ?op] by metis
  show "wake_queue (api ?w) = wake_queue (api w)" using w1 by auto
  show "processed ?w = processed w" by (simp add: after_reap_def)
  show "job_at (api ?w) jid = Some j" if "job_at (api w) jid = Some j" "claimable now j"
    using w1 that job_step_row [OF assms that(1), of ?op] by (auto simp: claimable_def status_defs stale_def)
  show "length (filter (claimable now) (jobs_of (api ?w))) \<le> length (unfinished (jobs_of (api w)))"
    using w1 claimable_unfinished [of now "jobs_of (api w)"]
      reap_unfinished [of now "it_reap_py it" "it_reap_now it" "jobs_of (api w)"]
    by (auto simp: reap_stale_jobs_def)
qed

text \<open>A job is done: completed, with its request performed by the integration service.\<close>

definition job_done :: "world \<Rightarrow> string \<Rightarrow> process_event_request \<Rightarrow> bool" where
  "job_done w jid b =
     (\<exists>r. job_at (api w) jid = Some r \<and> job_status r = Completed \<and> job_request r = b \<and> b \<in> set (processed w))"

section \<open>Properties\<close>

definition demo_tokens :: tokens where
  "demo_tokens = \<lparr>api_secret = ''t0ken'', integration_secret = ''t0ken'', worker_token = ''t0ken''\<rparr>"

definition demo_world :: world where
  "demo_world = \<lparr>api = demo_state, processed = []\<rparr>"

definition demo_cycle :: "net \<Rightarrow> datetime \<Rightarrow> cycle" where
  "demo_cycle n t = \<lparr>net_claim = Delivered, at_claim = t, net_process = Delivered, net_report = n,
     at_report = t, py_report = t\<rparr>"

lemma demo_trusted: "trusted demo_tokens"
  by (simp add: trusted_def demo_tokens_def is_ascii_def)

text \<open>A new deployment: no jobs, nothing performed, every worker idle.\<close>

definition sys_start :: "nat \<Rightarrow> system" where
  "sys_start n =
     \<lparr>sys_world = \<lparr>api = \<lparr>db = empty_database, wake_queue = []\<rparr>, processed = []\<rparr>,
      sys_workers = replicate n Idle\<rparr>"

lemma sys_start_inv: "sys_inv (sys_start n)"
  by (auto simp: sys_inv_def sys_start_def jobs_inv_def empty_database_def unique_event_def
      List.map_filter_simps)

text \<open>C13. No premature acknowledgement: with any number of workers, in any interleaving of their
  phases with job creation, reaping and lost requests or answers, a job is marked completed only
  after the integration service has performed its event.\<close>

theorem completed_jobs_were_processed:
  assumes "sys_inv s"
    and "job_at (api (sys_world (run (sys_step cfg) s evs))) jid = Some j" "job_status j = Completed"
  shows "job_request j \<in> set (processed (sys_world (run (sys_step cfg) s evs)))"
  using worker_system.run_inv [OF assms(1), of cfg evs] assms(2,3)
  by (auto simp: sys_inv_def job_account_def)

definition demo_events :: "sys_event list" where
  "demo_events =
     [Ev_create Redis_up 1 ''j1'' \<lparr>ec_event_type = ''answered'', ec_provider_call_id = Some ''P1'',
        ec_tenant_id = None, ec_call_id = None, ec_payload = None, ec_max_attempts = None\<rparr>,
      Ev_worker 0 (Ph_claim Delivered 2 ''j1''), Ev_worker 1 (Ph_claim Delivered 3 ''j1''),
      Ev_worker 0 (Ph_process Delivered), Ev_worker 0 (Ph_report Delivered 4 4)]"

lemma demo_events_complete:
  "map_option job_status
     (job_at (api (sys_world (run (sys_step demo_tokens) (sys_start 2) demo_events))) ''j1'')
   = Some Completed"
  by code_simp

theorem completed_jobs_were_processed_witness:
  "\<exists>j. job_at (api (sys_world (run (sys_step demo_tokens) (sys_start 2) demo_events))) ''j1'' = Some j
     \<and> job_status j = Completed
     \<and> job_request j \<in> set (processed (sys_world (run (sys_step demo_tokens) (sys_start 2) demo_events)))"
  using demo_events_complete completed_jobs_were_processed [OF sys_start_inv] by blast

text \<open>Duplicated side effects are bounded: in every such run, the integration service performs the
  event of a job at most as often as the job was claimed, hence at most \<open>max_attempts\<close>, which is at
  most twenty, times.\<close>

lemma executions_are_bounded:
  assumes "sys_inv s"
    and "job_at (api (sys_world (run (sys_step cfg) s evs))) jid = Some j"
  shows "int (executions (processed (sys_world (run (sys_step cfg) s evs))) jid) \<le> job_attempts j
    \<and> job_attempts j \<le> job_max_attempts j \<and> job_max_attempts j \<le> 20"
proof -
  have inv: "sys_inv (run (sys_step cfg) s evs)" by (rule worker_system.run_inv [OF assms(1)])
  have "job_ok j" using inv assms(2) by (auto simp: sys_inv_def intro: job_at_ok)
  then have "job_attempts j \<le> job_max_attempts j" "job_max_attempts j \<le> 20"
    by (simp_all add: job_ok_def)
  moreover have "job_id j = jid" using assms(2) by (auto dest: tbl_get_SomeD)
  moreover have "job_account (sys_world (run (sys_step cfg) s evs)) (sys_workers (run (sys_step cfg) s evs)) j"
    using inv assms(2) by (auto simp: sys_inv_def)
  ultimately show ?thesis by (simp add: job_account_def)
qed

lemma executions_are_bounded_example:
  "\<exists>j. job_at (api (sys_world (run (sys_step demo_tokens) (sys_start 2) demo_events))) ''j1'' = Some j
     \<and> int (executions (processed (sys_world (run (sys_step demo_tokens) (sys_start 2) demo_events))) ''j1'')
         \<le> job_attempts j"
  using demo_events_complete executions_are_bounded [OF sys_start_inv] by blast

text \<open>With a working network and the shared token, \<open>process_one\<close> on a claimable job performs an
  acceptable event once and completes the job; for an event the integration service refuses it
  performs nothing and reports a retryable failure, which sends the job back with a backoff or, on
  its last attempt, to \<open>failed\<close>. Every other job keeps its row.\<close>

lemma process_one_outcome:
  assumes "trusted cfg" "jobs_inv (api w)" "delivered c"
    and "job_at (api w) jid = Some j" "claimable (at_claim c) j"
    and "process_one cfg c jid w = (w', r)"
  shows "r = Inr () \<and> jobs_inv (api w')
    \<and> (acceptable (job_request j) \<longrightarrow> job_at (api w') jid = Some (finished_row c j)
         \<and> processed w' = processed w @ [job_request j])
    \<and> (\<not> acceptable (job_request j) \<longrightarrow> processed w' = processed w
         \<and> (\<exists>e. e \<noteq> [] \<and> job_at (api w') jid = Some (fail_row (at_report c) (py_report c)
               \<lparr>ef_error = e, ef_retry = True\<rparr> (claim_row (at_claim c) j) (claim_row (at_claim c) j))))
    \<and> (\<forall>q x. q \<noteq> jid \<longrightarrow> job_at (api w) q = Some x \<longrightarrow> job_at (api w') q = Some x)"
  using process_one_rows [OF assms] by blast

lemma process_one_outcome_example:
  "map pe_event_type (processed (fst (process_one demo_tokens (demo_cycle Delivered 7) ''a'' demo_world)))
     = [''answered'']
   \<and> map_option job_status
       (job_at (api (fst (process_one demo_tokens (demo_cycle Delivered 7) ''a'' demo_world))) ''a'')
     = Some Completed"
proof -
  obtain w' r where r: "process_one demo_tokens (demo_cycle Delivered 7) ''a'' demo_world = (w', r)" by force
  have at: "job_at (api demo_world) ''a'' = Some (demo_job ''a'' ''answered'' Queued 0)"
    by (simp add: demo_world_def demo_defs)
  have cl: "claimable (at_claim (demo_cycle Delivered 7)) (demo_job ''a'' ''answered'' Queued 0)"
    and acc: "acceptable (job_request (demo_job ''a'' ''answered'' Queued 0))"
    and dl: "delivered (demo_cycle Delivered 7)" by code_simp+
  have inv: "jobs_inv (api demo_world)" using demo_inv by (simp add: demo_world_def)
  from process_one_outcome [OF demo_trusted inv dl at cl r] acc r show ?thesis
    by (simp add: finished_row_def complete_row_def demo_world_def job_request_def demo_job_def)
qed

text \<open>A job whose event can never be performed does not circulate forever: processed again after
  each backoff, it is \<open>failed\<close> after exactly the attempts it had left, and nothing was performed.\<close>

lemma hopeless_job_ends_failed:
  assumes "trusted cfg" "jobs_inv (api w)" "job_at (api w) jid = Some j"
    and "\<not> acceptable (job_request j)" "job_status j \<in> CLAIMABLE_STATUSES"
    and "spaced (job_available_at j) cs" "length cs = attempts_left j"
  shows "(\<exists>r. job_at (api (process_times cfg jid cs w)) jid = Some r \<and> job_status r = Failed
      \<and> job_attempts r = job_max_attempts r)
    \<and> processed (process_times cfg jid cs w) = processed w"
  using assms by (rule hopeless_run)

definition hopeless_world :: world where
  "hopeless_world =
     \<lparr>api = \<lparr>db = empty_database\<lparr>t_call_jobs := [(demo_job ''x'' ''answered'' Queued 0)
          \<lparr>job_payload := Some [(''_test_force_failure'', JBool True)]\<rparr>]\<rparr>, wake_queue = []\<rparr>,
      processed = []\<rparr>"

lemma hopeless_job_ends_failed_example:
  "\<exists>r. job_at (api (process_times demo_tokens ''x''
      [demo_cycle Delivered 7, demo_cycle Delivered (seconds 400)] hopeless_world)) ''x'' = Some r
    \<and> job_status r = Failed"
proof -
  let ?j = "(demo_job ''x'' ''answered'' Queued 0)\<lparr>job_payload := Some [(''_test_force_failure'', JBool True)]\<rparr>"
  have at: "job_at (api hopeless_world) ''x'' = Some ?j" by (simp add: hopeless_world_def demo_job_def)
  have inv: "jobs_inv (api hopeless_world)"
    by (simp add: hopeless_world_def jobs_inv_def demo_defs unique_event_def List.map_filter_simps
        job_event_key_def job_ok_def status_defs)
  have acc: "\<not> acceptable (job_request ?j)" "job_status ?j \<in> CLAIMABLE_STATUSES"
    "spaced (job_available_at ?j) [demo_cycle Delivered 7, demo_cycle Delivered (seconds 400)]"
    "length [demo_cycle Delivered 7, demo_cycle Delivered (seconds 400)] = attempts_left ?j"
    by code_simp+
  from hopeless_job_ends_failed [OF demo_trusted inv at acc] show ?thesis by blast
qed

text \<open>Redis is only a hint: in an iteration where no wake-up arrives (the list is empty, Redis
  fails, or an entry is lost), and with at most ten unfinished jobs, every claimable job with an
  acceptable event is performed and completed through the polling fallback.\<close>

lemma poll_completes_jobs_without_wakeup:
  assumes "trusted cfg" "jobs_inv (api w)" "length (unfinished (jobs_of (api w))) \<le> 10"
    and "it_blpop it \<noteq> Blpop_answers \<or> wake_queue (api w) = []"
    and "it_list_net it = Delivered" "calm (it_list_now it) (it_cycle it)"
    and "job_at (api w) jid = Some j" "claimable (it_list_now it) j" "acceptable (job_request j)"
  shows "job_done (snd (loop_iteration cfg it (t, w))) jid (job_request j)"
proof -
  note w1 = iteration_reap [OF assms(2), where cfg = cfg and it = it and t = t]
  let ?w1 = "after_reap cfg it t w"
  have few: "length (filter (claimable (it_list_now it)) (jobs_of (api ?w1))) \<le> 10"
    using w1(5) [of "it_list_now it"] assms(3) by simp
  obtain w2 where w2: "on_api (blpop_queue (it_blpop it)) ?w1 = (w2, None)"
    and same: "db (api w2) = db (api ?w1)"
    using assms(4) w1(2) by (cases "it_blpop it") (auto simp: on_api_def blpop_queue_def)
  have inv: "jobs_inv (api w2)" using w1(1) same by (simp add: jobs_inv_def)
  from poll_list [OF inv, of "it_list_now it"] few same obtain js where
    js: "list_eligible_events (it_list_now it) [''queued'', ''retrying''] 10 (db (api w2)) = Inr js"
      "waiting (it_list_now it) w2 js" "set js = set (filter (claimable (it_list_now it)) (jobs_of (api ?w1)))"
    by metis
  have "on_api (jobs_list_eligible cfg Delivered (it_list_now it) [''queued'', ''retrying''] 10) w2 = (w2, Inr js)"
    using js(1) assms(1) by (simp add: on_api_def jobs_list_eligible_def jobs_request_delivered raise_for_status_def)
  then have "snd (loop_iteration cfg it (t, w)) = process_eligible cfg (it_cycle it) 0 js w2"
    using w2 assms(5) by (simp add: loop_iteration_after)
  moreover have "j \<in> set js" "job_id j = jid"
    using js(3) w1(4) [OF assms(7,8)] assms(8) by (auto dest: tbl_get_SomeD)
  ultimately show ?thesis
    using process_eligible_completes [OF assms(1,6) js(2) _ assms(9), of 0] by (auto simp: job_done_def)
qed

text \<open>With a wake-up for it at the head of the list, an acceptable job is performed at once.\<close>

lemma wakeup_completes_job:
  assumes "trusted cfg" "jobs_inv (api w)" "it_blpop it = Blpop_answers" "wake_queue (api w) = jid # rest"
    and "calm now (it_cycle it)" "job_at (api w) jid = Some j" "claimable now j" "acceptable (job_request j)"
  shows "job_done (snd (loop_iteration cfg it (t, w))) jid (job_request j)"
proof -
  note w1 = iteration_reap [OF assms(2), where cfg = cfg and it = it and t = t]
  let ?c = "snd (it_cycle it 0)" and ?w1 = "after_reap cfg it t w"
  let ?w2 = "?w1\<lparr>api := (api ?w1)\<lparr>wake_queue := rest\<rparr>\<rparr>"
  have pop: "on_api (blpop_queue (it_blpop it)) ?w1 = (?w2, Some jid)"
    using assms(3,4) w1(2) by (simp add: on_api_def blpop_queue_def)
  obtain w3 r where w3: "process_one cfg ?c jid ?w2 = (w3, r)" by force
  have c: "delivered ?c" "claimable (at_claim ?c) j"
    using assms(5,7) by (auto simp: calm_def claimable_def intro: order_trans)
  have inv: "jobs_inv (api ?w2)" and at: "job_at (api ?w2) jid = Some j"
    using w1(1) w1(4) [OF assms(6,7)] by (simp_all add: jobs_inv_def)
  have "snd (loop_iteration cfg it (t, w)) = w3"
    using pop w3 by (simp add: loop_iteration_after)
  then show ?thesis
    using process_one_rows(3) [OF assms(1) inv c(1) at c(2) w3 assms(8)]
    by (simp add: job_done_def finished_row_def complete_row_def job_request_def claim_row_def)
qed

definition demo_iteration :: iteration where
  "demo_iteration =
     \<lparr>it_shutdown = False, it_mono = seconds 5, it_reap_net = Delivered, it_reap_now = 5, it_reap_py = 5,
      it_blpop = Blpop_fails, it_list_net = Delivered, it_list_now = 6,
      it_cycle = (\<lambda>k. (False, demo_cycle Delivered 7))\<rparr>"

lemma poll_completes_jobs_without_wakeup_example:
  "\<exists>r. job_at (api (snd (loop_iteration demo_tokens demo_iteration (0, demo_world)))) ''a'' = Some r
     \<and> job_status r = Completed"
proof -
  let ?j = "demo_job ''a'' ''answered'' Queued 0"
  have at: "job_at (api demo_world) ''a'' = Some ?j" by (simp add: demo_world_def demo_defs)
  have inv: "jobs_inv (api demo_world)" using demo_inv by (simp add: demo_world_def)
  have "length (unfinished (jobs_of (api demo_world))) \<le> 10"
    "it_blpop demo_iteration \<noteq> Blpop_answers \<or> wake_queue (api demo_world) = []"
    "it_list_net demo_iteration = Delivered"
    "claimable (it_list_now demo_iteration) ?j" "acceptable (job_request ?j)"
    by code_simp+
  moreover have "calm (it_list_now demo_iteration) (it_cycle demo_iteration)"
    by (simp add: calm_def demo_iteration_def demo_cycle_def delivered_def)
  ultimately show ?thesis
    using poll_completes_jobs_without_wakeup [OF demo_trusted inv _ _ _ _ at, of demo_iteration 0]
    by (auto simp: job_done_def)
qed



end
