(* ===== verification/Calls.thy ===== *)
theory Calls
  imports Models Interfaces
begin

text \<open>
  The internal call life cycle API (\<^verbatim>\<open>services/api/src/routers/internal.py\<close>): creating a call record,
  reading it, finalizing it, and resolving a phone number to its tenant and agent. The routes sit
  behind the shared-secret guard of \<open>InternalAuth\<close>.
\<close>

section \<open>How an end reason is recorded\<close>

definition END_REASON_MAP :: "string \<rightharpoonup> call_status \<times> connection_status" where
  "END_REASON_MAP = map_of
     [(''caller_hangup'', (Call_completed, Connected)),
      (''agent_finished'', (Call_completed, Connected)),
      (''no_answer'', (No_answer, Attempted)),
      (''voicemail'', (Voicemail, Attempted)),
      (''invalid_number'', (Call_failed, Failed_pre_connect)),
      (''network_error'', (Call_failed, Failed_pre_connect)),
      (''provider_failure'', (Call_failed, Failed_pre_connect)),
      (''cancelled'', (Cancelled, Not_attempted)),
      (''simulation_complete'', (Call_completed, Connected)),
      (''simulation_cancelled'', (Cancelled, Not_attempted)),
      (''simulation_no_answer'', (No_answer, Attempted))]"

text \<open>The lookup with the fallback for a reason the table does not know.\<close>

definition end_state :: "string \<Rightarrow> call_status \<times> connection_status" where
  "end_state reason =
     (case END_REASON_MAP reason of
        None \<Rightarrow> (Call_failed, Failed_pre_connect)
      | Some p \<Rightarrow> p)"

section \<open>Requests and responses\<close>

record call_create_request =
  cc_call_id :: string
  cc_tenant_id :: string
  cc_agent_id :: string
  cc_started_at :: datetime
  cc_provider_call_id :: "string option"
  cc_is_simulation :: bool

record call_create_response =
  co_call_id :: string
  co_tenant_id :: string
  co_agent_id :: string
  co_status :: call_status
  co_is_simulation :: bool
  co_started_at :: datetime

record call_state_response =
  cz_call_id :: string
  cz_tenant_id :: string
  cz_agent_id :: string
  cz_provider_call_id :: "string option"
  cz_status :: call_status
  cz_is_simulation :: bool
  cz_connection_status :: connection_status
  cz_started_at :: datetime
  cz_ended_at :: "datetime option"
  cz_end_reason :: "string option"

record finalize_request =
  fr_ended_at :: datetime
  fr_end_reason :: string

record finalize_response =
  fo_call_id :: string
  fo_status :: call_status
  fo_connection_status :: connection_status
  fo_is_simulation :: bool
  fo_ended_at :: datetime
  fo_end_reason :: string

record phone_route_response =
  po_tenant_id :: string
  po_agent_id :: string
  po_provider :: string

section \<open>Handlers\<close>

definition new_call :: "datetime \<Rightarrow> call_create_request \<Rightarrow> call" where
  "new_call now b =
     \<lparr>call_id = cc_call_id b, call_tenant_id = cc_tenant_id b, call_agent_id = cc_agent_id b,
      call_provider_call_id = cc_provider_call_id b, call_state = Active,
      call_started_at = cc_started_at b, call_ended_at = None, call_end_reason = None,
      call_created_at = now, call_is_simulation = cc_is_simulation b, call_connection = Connected,
      call_call_request_id = None\<rparr>"

text \<open>What \<open>from_attributes\<close> takes of a row.\<close>

definition call_create_response_of :: "call \<Rightarrow> call_create_response" where
  "call_create_response_of c =
     \<lparr>co_call_id = call_id c, co_tenant_id = call_tenant_id c, co_agent_id = call_agent_id c,
      co_status = call_state c, co_is_simulation = call_is_simulation c, co_started_at = call_started_at c\<rparr>"

definition call_state_response_of :: "call \<Rightarrow> call_state_response" where
  "call_state_response_of c =
     \<lparr>cz_call_id = call_id c, cz_tenant_id = call_tenant_id c, cz_agent_id = call_agent_id c,
      cz_provider_call_id = call_provider_call_id c, cz_status = call_state c,
      cz_is_simulation = call_is_simulation c, cz_connection_status = call_connection c,
      cz_started_at = call_started_at c, cz_ended_at = call_ended_at c, cz_end_reason = call_end_reason c\<rparr>"

text \<open>
  \<open>d0\<close> is the database at the existence check, \<open>d1\<close> at the commit: a request that slips in between
  makes the INSERT raise on the primary key.
\<close>

definition create_call_racing ::
  "datetime \<Rightarrow> call_create_request \<Rightarrow> database \<Rightarrow> database \<Rightarrow> database \<times> call_create_response http" where
  "create_call_racing now b d0 d1 =
     (case tbl_get call_id (t_calls d0) (cc_call_id b) of
        Some existing \<Rightarrow>
          (d1, Inl (HTTPException 409 (''Call '' @ cc_call_id b @ '' already exists'')))
      | None \<Rightarrow>
          let call = new_call now b in
          if \<not> call_widths call then (d1, Inl (Unhandled ''DataError''))
          else if tbl_get call_id (t_calls d1) (cc_call_id b) \<noteq> None
          then (d1, Inl (Unhandled ''IntegrityError''))
          else (d1\<lparr>t_calls := t_calls d1 @ [call]\<rparr>, Inr (call_create_response_of call)))"

definition create_call ::
  "datetime \<Rightarrow> call_create_request \<Rightarrow> database \<Rightarrow> database \<times> call_create_response http" where
  "create_call now b d = create_call_racing now b d d"

definition get_call :: "string \<Rightarrow> database \<Rightarrow> call_state_response http" where
  "get_call cid d =
     (case tbl_get call_id (t_calls d) cid of
        None \<Rightarrow> Inl (HTTPException 404 ''Call not found'')
      | Some call \<Rightarrow> Inr (call_state_response_of call))"

text \<open>The row an UPDATE of the four dirty columns leaves, and the response built from a row.\<close>

definition finalize_row :: "finalize_request \<Rightarrow> call \<Rightarrow> call" where
  "finalize_row b c =
     c\<lparr>call_ended_at := Some (fr_ended_at b), call_end_reason := Some (fr_end_reason b),
       call_state := fst (end_state (fr_end_reason b)),
       call_connection := snd (end_state (fr_end_reason b))\<rparr>"

definition finalize_result :: "call \<Rightarrow> datetime \<Rightarrow> finalize_response" where
  "finalize_result c ended =
     \<lparr>fo_call_id = call_id c, fo_status = call_state c, fo_connection_status = call_connection c,
      fo_is_simulation = call_is_simulation c, fo_ended_at = ended,
      fo_end_reason = (case call_end_reason c of None \<Rightarrow> [] | Some r \<Rightarrow> r)\<rparr>"

text \<open>
  The ORM writes the attributes that differ from the row it read: all four, except that a call read
  as connected whose reason also stands for a connected call keeps its connection column.
\<close>

definition finalize_write :: "finalize_request \<Rightarrow> call \<Rightarrow> call \<Rightarrow> call" where
  "finalize_write b loaded c =
     (finalize_row b c)\<lparr>call_connection :=
        (if snd (end_state (fr_end_reason b)) = call_connection loaded then call_connection c
         else snd (end_state (fr_end_reason b)))\<rparr>"

text \<open>
  As above, \<open>d0\<close> is read and \<open>d1\<close> is updated. The UPDATE is by primary key with no other guard; the
  response is built from the row as refreshed after the commit.
\<close>

definition finalize_call_racing ::
  "string \<Rightarrow> finalize_request \<Rightarrow> database \<Rightarrow> database \<Rightarrow> database \<times> finalize_response http" where
  "finalize_call_racing cid b d0 d1 =
     (case tbl_get call_id (t_calls d0) cid of
        None \<Rightarrow> (d1, Inl (HTTPException 404 ''Call not found''))
      | Some loaded \<Rightarrow>
          (case call_ended_at loaded of
             Some ended \<Rightarrow> (d1, Inr (finalize_result loaded ended))
           | None \<Rightarrow>
               (case tbl_get call_id (t_calls d1) cid of
                  None \<Rightarrow> (d1, Inl (Unhandled ''StaleDataError''))
                | Some cur \<Rightarrow>
                    if \<not> call_widths (finalize_write b loaded cur)
                    then (d1, Inl (Unhandled ''DataError''))
                    else (d1\<lparr>t_calls := tbl_update (\<lambda>c. call_id c = cid)
                                (finalize_write b loaded) (t_calls d1)\<rparr>,
                          Inr (finalize_result (finalize_write b loaded cur) (fr_ended_at b))))))"

definition finalize_call ::
  "string \<Rightarrow> finalize_request \<Rightarrow> database \<Rightarrow> database \<times> finalize_response http" where
  "finalize_call cid b d = finalize_call_racing cid b d d"

definition get_phone_route :: "string \<Rightarrow> database \<Rightarrow> phone_route_response http" where
  "get_phone_route number d =
     (case tbl_get pr_number (t_phone_number_routes d) number of
        None \<Rightarrow> Inl (HTTPException 404 ''Phone number route not found'')
      | Some route \<Rightarrow>
          Inr \<lparr>po_tenant_id = pr_tenant_id route, po_agent_id = pr_agent_id route,
               po_provider = the (py_or (pr_provider route) (Some ''exotel''))\<rparr>)"

section \<open>The life of a call record\<close>

interpretation finalize_upd: keyed_update call_id "finalize_write b loaded" for b loaded
  by unfold_locales (simp add: finalize_write_def finalize_row_def)

lemma finalize_write_same [simp]: "finalize_write b c c = finalize_row b c"
  by (simp add: finalize_write_def finalize_row_def)

text \<open>
  The invariant: one row per call; a call is active exactly as long as it has not ended, and an
  ended one carries a reason and the statuses that reason stands for.
\<close>

definition call_ok :: "call \<Rightarrow> bool" where
  "call_ok c =
     (case call_ended_at c of
        None \<Rightarrow> call_state c = Active \<and> call_connection c = Connected \<and> call_end_reason c = None
      | Some _ \<Rightarrow> (case call_end_reason c of None \<Rightarrow> False
          | Some r \<Rightarrow> (call_state c, call_connection c) = end_state r))"

definition calls_inv :: "database \<Rightarrow> bool" where
  "calls_inv d =
     (distinct (map call_id (t_calls d)) \<and> (\<forall>c \<in> set (t_calls d). call_ok c \<and> call_widths c))"

datatype call_op =
    Op_create_call datetime call_create_request
  | Op_finalize_call string finalize_request

fun call_step :: "database \<Rightarrow> call_op \<Rightarrow> database" where
  "call_step d (Op_create_call now b) = fst (create_call now b d)"
| "call_step d (Op_finalize_call cid b) = fst (finalize_call cid b d)"

lemma end_state_not_active: "fst (end_state r) \<noteq> Active"
  by (auto simp: end_state_def END_REASON_MAP_def split: option.splits if_splits)

lemma call_ok_new: "call_ok (new_call now b)"
  by (simp add: call_ok_def new_call_def)

lemma call_ok_finalize: "call_ok (finalize_row b c)"
  by (simp add: call_ok_def finalize_row_def)

lemma finalize_call_absent:
  "tbl_get call_id (t_calls d) cid = None \<Longrightarrow>
     finalize_call cid b d = (d, Inl (HTTPException 404 ''Call not found''))"
  by (simp add: finalize_call_def finalize_call_racing_def)

lemma finalize_call_ended:
  "tbl_get call_id (t_calls d) cid = Some c \<Longrightarrow> call_ended_at c = Some t \<Longrightarrow>
     finalize_call cid b d = (d, Inr (finalize_result c t))"
  by (simp add: finalize_call_def finalize_call_racing_def)

lemma finalize_call_live:
  assumes "tbl_get call_id (t_calls d) cid = Some c" "call_ended_at c = None"
  shows "finalize_call cid b d =
    (if call_widths (finalize_row b c)
     then (d\<lparr>t_calls := tbl_update (\<lambda>c. call_id c = cid) (finalize_write b c) (t_calls d)\<rparr>,
           Inr (finalize_result (finalize_row b c) (fr_ended_at b)))
     else (d, Inl (Unhandled ''DataError'')))"
  using assms by (simp add: finalize_call_def finalize_call_racing_def)

lemma calls_inv_at:
  "calls_inv d \<Longrightarrow> tbl_get call_id (t_calls d) cid = Some c \<Longrightarrow> call_ok c \<and> call_widths c"
  by (auto simp: calls_inv_def dest: tbl_get_SomeD)

lemma call_step_inv: "calls_inv d \<Longrightarrow> calls_inv (call_step d op)"
proof (cases op)
  case (Op_create_call now b)
  assume "calls_inv d"
  with Op_create_call show ?thesis
    by (auto simp: create_call_def create_call_racing_def Let_def calls_inv_def call_ok_new
        tbl_get_None_iff split: option.splits) (auto simp: new_call_def)
next
  case (Op_finalize_call cid b)
  assume inv: "calls_inv d"
  show ?thesis
  proof (cases "tbl_get call_id (t_calls d) cid")
    case None
    with Op_finalize_call inv show ?thesis by (simp add: finalize_call_absent)
  next
    case (Some c)
    show ?thesis
    proof (cases "call_ended_at c")
      case None
      have "c' = c" if "c' \<in> set (t_calls d)" "call_id c' = cid" for c'
        using that Some inv tbl_get_eq_Some_iff [of call_id "t_calls d" cid c']
        by (auto simp: calls_inv_def)
      then show ?thesis
        using inv Op_finalize_call finalize_call_live [OF Some None, of b]
        by (auto simp: calls_inv_def finalize_upd.distinct_update set_tbl_update call_ok_finalize)
    next
      case (Some t)
      with Op_finalize_call inv \<open>tbl_get call_id (t_calls d) cid = Some c\<close> show ?thesis
        by (simp add: finalize_call_ended)
    qed
  qed
qed

interpretation call_records: machine call_step calls_inv
  by unfold_locales (rule call_step_inv)

section \<open>What a run does to one call\<close>

text \<open>The fields no operation touches.\<close>

definition call_identity :: "call \<Rightarrow> string \<times> string \<times> string \<times> string option \<times> bool \<times> datetime" where
  "call_identity c =
     (call_id c, call_tenant_id c, call_agent_id c, call_provider_call_id c, call_is_simulation c,
      call_started_at c)"

lemma call_identity_finalize [simp]: "call_identity (finalize_row b c) = call_identity c"
  by (simp add: call_identity_def finalize_row_def)

lemma call_step_at:
  assumes "tbl_get call_id (t_calls d) cid = Some c"
  shows "\<exists>c'. tbl_get call_id (t_calls (call_step d op)) cid = Some c' \<and> call_identity c' = call_identity c
    \<and> (call_ended_at c \<noteq> None \<longrightarrow> c' = c)"
proof (cases op)
  case (Op_create_call now b)
  with assms show ?thesis
    by (auto simp: create_call_def create_call_racing_def Let_def split: option.splits)
next
  case (Op_finalize_call q b)
  show ?thesis
  proof (cases "q = cid")
    case True
    with Op_finalize_call assms show ?thesis
      by (cases "call_ended_at c")
        (auto simp: finalize_call_live finalize_call_ended finalize_upd.get_update dest: tbl_get_SomeD)
  next
    case False
    have "call_id c = cid" using assms by (auto dest: tbl_get_SomeD)
    with False Op_finalize_call assms show ?thesis
      by (auto simp: finalize_call_def finalize_call_racing_def finalize_upd.get_update
          split: option.splits)
  qed
qed

lemma call_run_at:
  assumes "tbl_get call_id (t_calls d) cid = Some c"
  shows "\<exists>c'. tbl_get call_id (t_calls (run call_step d ops)) cid = Some c'
    \<and> call_identity c' = call_identity c \<and> (call_ended_at c \<noteq> None \<longrightarrow> c' = c)"
  using assms
proof (induction ops arbitrary: d c)
  case (Cons op ops)
  obtain c1 where c1: "tbl_get call_id (t_calls (call_step d op)) cid = Some c1"
    "call_identity c1 = call_identity c" "call_ended_at c \<noteq> None \<longrightarrow> c1 = c"
    using call_step_at [OF Cons.prems] by blast
  from Cons.IH [OF c1(1)] c1(2,3) show ?case by auto
qed simp

text \<open>
  Two finalizations that both read the call before either commits: the second overwrites the first,
  and may leave a connection column that belongs to the other reason.
\<close>

lemma concurrent_finalize_overwrites:
  assumes "tbl_get call_id (t_calls d) cid = Some c" "call_ended_at c = None" "call_connection c = Connected"
    and "call_widths (finalize_row \<lparr>fr_ended_at = t1, fr_end_reason = ''provider_failure''\<rparr> c)"
  shows "\<exists>c'. tbl_get call_id (t_calls (fst (finalize_call_racing cid
      \<lparr>fr_ended_at = t2, fr_end_reason = ''caller_hangup''\<rparr> d
      (fst (finalize_call cid \<lparr>fr_ended_at = t1, fr_end_reason = ''provider_failure''\<rparr> d))))) cid = Some c'
    \<and> call_state c' = Call_completed \<and> call_connection c' = Failed_pre_connect"
proof -
  have "call_id c = cid" using assms(1) by (auto dest: tbl_get_SomeD)
  moreover have "call_widths (finalize_write \<lparr>fr_ended_at = t2, fr_end_reason = ''caller_hangup''\<rparr> c
      (finalize_row \<lparr>fr_ended_at = t1, fr_end_reason = ''provider_failure''\<rparr> c))"
    using assms(4) by (simp add: call_widths_def finalize_write_def finalize_row_def varchar_null_def varchar_def)
  ultimately show ?thesis
    using assms finalize_call_live [OF assms(1,2), of "\<lparr>fr_ended_at = t1, fr_end_reason = ''provider_failure''\<rparr>"]
    by (simp add: finalize_call_racing_def finalize_upd.get_update)
      (simp add: finalize_write_def finalize_row_def end_state_def END_REASON_MAP_def)
qed

section \<open>Properties\<close>

definition demo_call_request :: call_create_request where
  "demo_call_request =
     \<lparr>cc_call_id = ''c1'', cc_tenant_id = ''7'', cc_agent_id = ''bot'', cc_started_at = 10,
      cc_provider_call_id = Some ''P1'', cc_is_simulation = True\<rparr>"

definition demo_calls :: database where
  "demo_calls = empty_database\<lparr>t_calls := [new_call 11 demo_call_request]\<rparr>"

lemma demo_calls_at: "tbl_get call_id (t_calls demo_calls) ''c1'' = Some (new_call 11 demo_call_request)"
  by (simp add: demo_calls_def new_call_def demo_call_request_def)

lemma demo_calls_inv: "calls_inv demo_calls"
  by (simp add: calls_inv_def demo_calls_def call_ok_new)
    (simp add: new_call_def demo_call_request_def call_widths_def varchar_def varchar_null_def)

text \<open>The call table keeps its invariant over every run of creations and finalizations: one row
  per call identifier; a call without an end is active and connected; an ended call carries a
  reason and exactly the status pair the reason map (or its fallback) assigns to it, never
  \<open>active\<close>.\<close>

lemma call_records_stay_consistent:
  "calls_inv d \<Longrightarrow> calls_inv (run call_step d ops)
     \<and> (\<forall>c \<in> set (t_calls (run call_step d ops)). call_ended_at c = None \<longleftrightarrow> call_state c = Active)"
proof -
  assume "calls_inv d"
  then have inv: "calls_inv (run call_step d ops)" by (rule call_records.run_inv)
  have "call_ended_at c = None \<longleftrightarrow> call_state c = Active" if "call_ok c" for c
    using that end_state_not_active by (auto simp: call_ok_def split: option.splits) (metis fst_conv)
  with inv show ?thesis by (auto simp: calls_inv_def)
qed

lemma call_records_stay_consistent_example:
  "calls_inv (run call_step demo_calls
     [Op_finalize_call ''c1'' \<lparr>fr_ended_at = 20, fr_end_reason = ''voicemail''\<rparr>,
      Op_create_call 30 demo_call_request])"
  using call_records_stay_consistent [OF demo_calls_inv] by blast

text \<open>C17. Finalizing is idempotent and decides once: the first finalization of a live call records
  its end time, its reason and the reason's status pair; after it, whatever requests follow, the
  row does not change any more and every further finalization, with any body, is answered with the
  recorded outcome. The identity of the call, its simulation flag included, is never changed.\<close>

theorem finalize_decides_once:
  assumes "tbl_get call_id (t_calls d) cid = Some c" "call_ended_at c = None"
    and "finalize_call cid b d = (d1, Inr r)"
  shows "\<exists>c'. tbl_get call_id (t_calls (run call_step d1 ops)) cid = Some c'
      \<and> call_ended_at c' = Some (fr_ended_at b) \<and> call_end_reason c' = Some (fr_end_reason b)
      \<and> (call_state c', call_connection c') = end_state (fr_end_reason b)
      \<and> call_identity c' = call_identity c
      \<and> finalize_call cid b' (run call_step d1 ops) = (run call_step d1 ops, Inr r)"
proof -
  let ?c = "finalize_row b c"
  have d1: "d1 = d\<lparr>t_calls := tbl_update (\<lambda>c. call_id c = cid) (finalize_write b c) (t_calls d)\<rparr>"
    and r: "r = finalize_result ?c (fr_ended_at b)"
    using assms(3) finalize_call_live [OF assms(1,2), of b] by (auto split: if_splits)
  have "tbl_get call_id (t_calls d1) cid = Some ?c"
    using assms(1) by (auto simp: d1 finalize_upd.get_update dest: tbl_get_SomeD)
  from call_run_at [OF this, of ops]
  have at: "tbl_get call_id (t_calls (run call_step d1 ops)) cid = Some ?c"
    by (auto simp: finalize_row_def)
  have ended: "call_ended_at ?c = Some (fr_ended_at b)" by (simp add: finalize_row_def)
  have "finalize_call cid b' (run call_step d1 ops) = (run call_step d1 ops, Inr r)"
    using finalize_call_ended [OF at ended] r by simp
  with at ended show ?thesis by (auto simp: finalize_row_def call_identity_def)
qed

theorem finalize_decides_once_witness:
  "\<exists>d1. finalize_call ''c1'' \<lparr>fr_ended_at = 20, fr_end_reason = ''no_answer''\<rparr> demo_calls = (d1,
       Inr \<lparr>fo_call_id = ''c1'', fo_status = No_answer, fo_connection_status = Attempted,
            fo_is_simulation = True, fo_ended_at = 20, fo_end_reason = ''no_answer''\<rparr>)
   \<and> finalize_call ''c1'' \<lparr>fr_ended_at = 99, fr_end_reason = ''caller_hangup''\<rparr> d1 = (d1,
       Inr \<lparr>fo_call_id = ''c1'', fo_status = No_answer, fo_connection_status = Attempted,
            fo_is_simulation = True, fo_ended_at = 20, fo_end_reason = ''no_answer''\<rparr>)"
proof -
  let ?b = "\<lparr>fr_ended_at = 20, fr_end_reason = ''no_answer''\<rparr>"
  let ?r = "\<lparr>fo_call_id = ''c1'', fo_status = No_answer, fo_connection_status = Attempted,
            fo_is_simulation = True, fo_ended_at = 20, fo_end_reason = ''no_answer''\<rparr>"
  have live: "call_ended_at (new_call 11 demo_call_request) = None" by (simp add: new_call_def)
  have "snd (finalize_call ''c1'' ?b demo_calls) = Inr ?r" by code_simp
  then obtain d1 where d1: "finalize_call ''c1'' ?b demo_calls = (d1, Inr ?r)"
    by (metis prod.collapse)
  from finalize_decides_once [OF demo_calls_at live d1, of "[]"] d1 show ?thesis by auto
qed

end
