(* ===== verification/Sessions.thy ===== *)
theory Sessions
  imports Interfaces
begin

text \<open>
  The gateway's live state: \<open>_GatewaySessionManager\<close> and \<open>_RedisCallStore\<close> of
  \<^verbatim>\<open>services/voice-gateway/src/main.py\<close>, \<open>_DictCallStore\<close> and \<open>_InMemoryEventRecorder\<close> of
  \<^verbatim>\<open>exotel_routes.py\<close>.

  Redis is one key space of values with an expiry time; each command carries the outcome of its
  round trip, and \<open>now\<close> is the time it runs. A JSON text is represented by the value it encodes. The
  process memory is a separate map, which a restart empties.
\<close>

section \<open>Redis\<close>

record turn =
  tu_role :: string
  tu_text :: string
  tu_at :: datetime

text \<open>A call session: the dictionary \<open>create\<close> builds; no \<open>turns\<close> entry is an empty list.\<close>

record session =
  se_call_id :: string
  se_tenant_id :: string
  se_agent_id :: string
  se_started_at :: datetime
  se_status :: string
  se_turns :: "turn list"

datatype redis_value = RJson session | RText string

type_synonym 'v store = "string \<rightharpoonup> 'v \<times> datetime"

type_synonym redis = "redis_value store"

definition redis_get :: "datetime \<Rightarrow> string \<Rightarrow> 'v store \<Rightarrow> 'v option" where
  "redis_get now k r =
     (case r k of None \<Rightarrow> None | Some (v, e) \<Rightarrow> if now < e then Some v else None)"

definition redis_set :: "datetime \<Rightarrow> string \<Rightarrow> 'v \<Rightarrow> int \<Rightarrow> 'v store \<Rightarrow> 'v store" where
  "redis_set now k v ttl r = r(k \<mapsto> (v, now + seconds ttl))"

definition redis_delete :: "string \<Rightarrow> 'v store \<Rightarrow> 'v store" where
  "redis_delete k r = r(k := None)"

text \<open>A write whose \<open>RedisError\<close> is suppressed, and a read that raises when its answer is lost.\<close>

definition redis_write :: "net \<Rightarrow> ('v store \<Rightarrow> 'v store) \<Rightarrow> 'v store \<Rightarrow> 'v store" where
  "redis_write n f r = (if n = RequestLost then r else f r)"

definition redis_read :: "net \<Rightarrow> datetime \<Rightarrow> string \<Rightarrow> 'v store \<Rightarrow> 'v option" where
  "redis_read n now k r = (if n = Delivered then redis_get now k r else None)"

text \<open>The time of a group of commands, and what becomes of its reads, writes and deletions.\<close>

record ws_env =
  we_now :: datetime
  we_get :: net
  we_set :: net
  we_del :: net

section \<open>The session manager\<close>

text \<open>The process memory and the Redis client, \<open>None\<close> when \<open>REDIS_URL\<close> is not set.\<close>

record session_state =
  ss_mem :: "string \<rightharpoonup> session"
  ss_redis :: "redis option"

definition SESSION_TTL :: int where "SESSION_TTL = 3600"

definition session_key :: "string \<Rightarrow> string" where
  "session_key cid = ''call_session:'' @ cid"

definition new_session :: "datetime \<Rightarrow> string \<Rightarrow> string \<Rightarrow> string \<Rightarrow> session" where
  "new_session now cid tid aid =
     \<lparr>se_call_id = cid, se_tenant_id = tid, se_agent_id = aid, se_started_at = now,
      se_status = ''active'', se_turns = []\<rparr>"

definition save_session :: "net \<Rightarrow> datetime \<Rightarrow> string \<Rightarrow> session \<Rightarrow> redis \<Rightarrow> redis" where
  "save_session n now cid d = redis_write n (redis_set now (session_key cid) (RJson d) SESSION_TTL)"

definition session_create ::
  "net \<Rightarrow> datetime \<Rightarrow> string \<Rightarrow> string \<Rightarrow> string \<Rightarrow> session_state \<Rightarrow> session_state" where
  "session_create n now cid tid aid s =
     (let d = new_session now cid tid aid in
      s\<lparr>ss_mem := (ss_mem s)(cid \<mapsto> d), ss_redis := map_option (save_session n now cid d) (ss_redis s)\<rparr>)"

text \<open>What Redis holds for a call.\<close>

definition stored_session :: "net \<Rightarrow> datetime \<Rightarrow> string \<Rightarrow> session_state \<Rightarrow> session option" where
  "stored_session n now cid s =
     (case ss_redis s of None \<Rightarrow> None
      | Some r \<Rightarrow> (case redis_read n now (session_key cid) r of Some (RJson d) \<Rightarrow> Some d | _ \<Rightarrow> None))"

definition session_get ::
  "net \<Rightarrow> datetime \<Rightarrow> string \<Rightarrow> session_state \<Rightarrow> session_state \<times> session option" where
  "session_get n now cid s =
     (case ss_mem s cid of
        Some d \<Rightarrow> (s, Some d)
      | None \<Rightarrow>
          (case stored_session n now cid s of
             None \<Rightarrow> (s, None)
           | Some d \<Rightarrow> (s\<lparr>ss_mem := (ss_mem s)(cid \<mapsto> d)\<rparr>, Some d)))"

definition session_end :: "net \<Rightarrow> net \<Rightarrow> datetime \<Rightarrow> string \<Rightarrow> session_state \<Rightarrow> session_state" where
  "session_end n n' now cid s =
     (let s1 = s\<lparr>ss_mem := (ss_mem s)(cid := map_option (\<lambda>d. d\<lparr>se_status := ''ended''\<rparr>) (ss_mem s cid))\<rparr> in
      case stored_session n now cid s1 of
        None \<Rightarrow> s1
      | Some d \<Rightarrow>
          s1\<lparr>ss_redis := map_option (save_session n' now cid (d\<lparr>se_status := ''ended''\<rparr>)) (ss_redis s1)\<rparr>)"

definition session_remove :: "net \<Rightarrow> string \<Rightarrow> session_state \<Rightarrow> session_state" where
  "session_remove n cid s =
     s\<lparr>ss_mem := (ss_mem s)(cid := None),
       ss_redis := map_option (redis_write n (redis_delete (session_key cid))) (ss_redis s)\<rparr>"

definition session_add_turn ::
  "net \<Rightarrow> net \<Rightarrow> datetime \<Rightarrow> string \<Rightarrow> string \<Rightarrow> string \<Rightarrow> session_state \<Rightarrow> session_state" where
  "session_add_turn n n' now cid role text s =
     (case session_get n now cid s of
        (s1, None) \<Rightarrow> s1
      | (s1, Some d) \<Rightarrow>
          let d' = d\<lparr>se_turns := se_turns d @ [\<lparr>tu_role = role, tu_text = text, tu_at = now\<rparr>]\<rparr> in
          s1\<lparr>ss_mem := (ss_mem s1)(cid \<mapsto> d'),
             ss_redis := map_option (save_session n' now cid d') (ss_redis s1)\<rparr>)"

text \<open>A restart of the gateway process.\<close>

definition restart :: "session_state \<Rightarrow> session_state" where
  "restart s = s\<lparr>ss_mem := Map.empty\<rparr>"

section \<open>Call stores\<close>

definition PROVIDER_CALL_KEY_PREFIX :: string where
  "PROVIDER_CALL_KEY_PREFIX = ''voice_gateway:provider_call:''"

definition PROVIDER_CALL_TTL :: int where "PROVIDER_CALL_TTL = 86400"

definition provider_key :: "string \<Rightarrow> string" where
  "provider_key p = PROVIDER_CALL_KEY_PREFIX @ p"

text \<open>The Redis store, indexed by the round trip's outcome and its time.\<close>

definition redis_store_set :: "net \<times> datetime \<Rightarrow> string \<Rightarrow> string \<Rightarrow> redis \<Rightarrow> redis" where
  "redis_store_set u p cid =
     redis_write (fst u) (redis_set (snd u) (provider_key p) (RText cid) PROVIDER_CALL_TTL)"

definition redis_store_get :: "net \<times> datetime \<Rightarrow> string \<Rightarrow> redis \<Rightarrow> string option" where
  "redis_store_get u p r =
     (case redis_read (fst u) (snd u) (provider_key p) r of
        Some (RText v) \<Rightarrow> if v \<noteq> [] then Some v else None
      | _ \<Rightarrow> None)"

definition redis_store_delete :: "net \<times> datetime \<Rightarrow> string \<Rightarrow> redis \<Rightarrow> redis" where
  "redis_store_delete u p = redis_write (fst u) (redis_delete (provider_key p))"

text \<open>The dictionary store.\<close>

definition dict_store_set :: "string \<Rightarrow> string \<Rightarrow> (string \<rightharpoonup> string) \<Rightarrow> (string \<rightharpoonup> string)" where
  "dict_store_set p cid m = m(p \<mapsto> cid)"

definition dict_store_get :: "string \<Rightarrow> (string \<rightharpoonup> string) \<Rightarrow> string option" where
  "dict_store_get p m = m p"

definition dict_store_delete :: "string \<Rightarrow> (string \<rightharpoonup> string) \<Rightarrow> (string \<rightharpoonup> string)" where
  "dict_store_delete p m = m(p := None)"

text \<open>The in-memory event recorder.\<close>

definition memory_record :: "string \<times> string \<Rightarrow> (string \<times> string) set \<Rightarrow> (string \<times> string) set \<times> bool option" where
  "memory_record key seen = (if key \<in> seen then (seen, Some True) else (insert key seen, Some False))"

section \<open>The stores keep their contracts\<close>

lemma redis_get_set [simp]:
  "redis_get now' k' (redis_set now k v ttl r) =
     (if k' = k then (if now' < now + seconds ttl then Some v else None) else redis_get now' k' r)"
  by (simp add: redis_get_def redis_set_def)

lemma redis_get_delete [simp]:
  "redis_get now k' (redis_delete k r) = (if k' = k then None else redis_get now k' r)"
  by (simp add: redis_get_def redis_delete_def)

lemma redis_read_write [simp]:
  "redis_read n now k' (redis_write n' (redis_set t k v ttl) r) =
     (if k' = k \<and> n' \<noteq> RequestLost
      then (if n = Delivered \<and> now < t + seconds ttl then Some v else None)
      else redis_read n now k' r)"
  "redis_read n now k' (redis_write n' (redis_delete k) r) =
     (if k' = k \<and> n' \<noteq> RequestLost then None else redis_read n now k' r)"
  by (simp_all add: redis_read_def redis_write_def)

lemma keys_inj [simp]:
  "provider_key p = provider_key q \<longleftrightarrow> p = q" "session_key a = session_key b \<longleftrightarrow> a = b"
  "provider_key p \<noteq> session_key a" "session_key a \<noteq> provider_key p"
  by (simp_all add: provider_key_def session_key_def PROVIDER_CALL_KEY_PREFIX_def)

definition redis_fresh :: "net \<times> datetime \<Rightarrow> net \<times> datetime \<Rightarrow> bool" where
  "redis_fresh u v = (snd v < snd u + seconds PROVIDER_CALL_TTL)"

interpretation redis_calls: call_store redis_store_set redis_store_get redis_store_delete
  "\<lambda>u. fst u = Delivered" redis_fresh
  by unfold_locales
    (auto simp: redis_store_set_def redis_store_get_def redis_store_delete_def redis_fresh_def
      split: option.splits redis_value.splits if_splits)

interpretation dict_calls: call_store "\<lambda>_::unit. dict_store_set" "\<lambda>_. dict_store_get" "\<lambda>_. dict_store_delete"
  "\<lambda>_. True" "\<lambda>_ _. True"
  by unfold_locales (auto simp: dict_store_set_def dict_store_get_def dict_store_delete_def)

interpretation memory_recorder: event_recorder "\<lambda>_::unit. memory_record" "\<lambda>s. s" "\<lambda>_. True"
  by unfold_locales (auto simp: memory_record_def split: if_splits)

section \<open>What the session manager keeps\<close>

lemma stored_session_save [simp]:
  "stored_session n now q (s\<lparr>ss_redis := map_option (save_session n' t cid d) (ss_redis s)\<rparr>) =
     (if q = cid \<and> n' \<noteq> RequestLost \<and> ss_redis s \<noteq> None
      then (if n = Delivered \<and> now < t + seconds SESSION_TTL then Some d else None)
      else stored_session n now q s)"
  by (cases "ss_redis s") (auto simp: stored_session_def save_session_def)

lemma stored_session_mem [simp]: "stored_session n now q (s\<lparr>ss_mem := m\<rparr>) = stored_session n now q s"
  by (simp add: stored_session_def)

lemma stored_session_remove [simp]:
  "stored_session n now q (s\<lparr>ss_redis := map_option (redis_write n' (redis_delete (session_key cid))) (ss_redis s)\<rparr>) =
     (if q = cid \<and> n' \<noteq> RequestLost then None else stored_session n now q s)"
  by (cases "ss_redis s") (auto simp: stored_session_def)

text \<open>The state of another call: its memory entry and its Redis entry.\<close>

definition call_view :: "string \<Rightarrow> session_state \<Rightarrow> session option \<times> (net \<Rightarrow> datetime \<Rightarrow> session option)" where
  "call_view q s = (ss_mem s q, \<lambda>n now. stored_session n now q s)"

lemma mem_redis_commute: "s\<lparr>ss_redis := r, ss_mem := m\<rparr> = s\<lparr>ss_mem := m, ss_redis := r\<rparr>"
  by simp

lemma stored_session_both [simp]:
  "stored_session n now q (s\<lparr>ss_mem := m, ss_redis := map_option (save_session n' t cid d) (ss_redis s)\<rparr>) =
     (if q = cid \<and> n' \<noteq> RequestLost \<and> ss_redis s \<noteq> None
      then (if n = Delivered \<and> now < t + seconds SESSION_TTL then Some d else None)
      else stored_session n now q s)"
  "stored_session n now q (s\<lparr>ss_mem := m, ss_redis := map_option (redis_write n' (redis_delete (session_key cid))) (ss_redis s)\<rparr>) =
     (if q = cid \<and> n' \<noteq> RequestLost then None else stored_session n now q s)"
  by (simp_all flip: mem_redis_commute)

lemma session_frame:
  assumes "q \<noteq> cid"
  shows "call_view q (session_create n now cid tid aid s) = call_view q s"
    and "call_view q (fst (session_get n now cid s)) = call_view q s"
    and "call_view q (session_end n n' now cid s) = call_view q s"
    and "call_view q (session_remove n cid s) = call_view q s"
    and "call_view q (session_add_turn n n' now cid role text s) = call_view q s"
  using assms
  by (auto simp: call_view_def session_create_def session_get_def session_end_def session_remove_def
      session_add_turn_def Let_def split: option.splits prod.splits)

text \<open>One remembered turn: the outcomes of the two commands, the time, the role and the text.\<close>

type_synonym turn_event = "net \<times> net \<times> datetime \<times> string \<times> string"

fun add_turn_step :: "string \<Rightarrow> session_state \<Rightarrow> turn_event \<Rightarrow> session_state" where
  "add_turn_step cid s (n, n', now, role, text) = session_add_turn n n' now cid role text s"

fun turn_of :: "turn_event \<Rightarrow> turn" where
  "turn_of (n, n', now, role, text) = \<lparr>tu_role = role, tu_text = text, tu_at = now\<rparr>"

lemma add_turn_known:
  assumes "ss_mem s cid = Some d"
  shows "ss_mem (add_turn_step cid s e) cid = Some (d\<lparr>se_turns := se_turns d @ [turn_of e]\<rparr>)"
    and "ss_redis (add_turn_step cid s e) = None \<longleftrightarrow> ss_redis s = None"
  using assms by (cases e; simp add: session_add_turn_def session_get_def Let_def)+

lemma add_turns_mem:
  assumes "ss_mem s cid = Some d"
  shows "ss_mem (run (add_turn_step cid) s es) cid = Some (d\<lparr>se_turns := se_turns d @ map turn_of es\<rparr>)"
    and "ss_redis (run (add_turn_step cid) s es) = None \<longleftrightarrow> ss_redis s = None"
  using assms
proof (induction es arbitrary: s d)
  case (Cons e es)
  case 1
  from Cons(1) [OF add_turn_known(1) [OF 1, of e]] show ?case by simp
next
  case (Cons e es)
  case 2
  from Cons(2) [OF add_turn_known(1) [OF 2, of e]] add_turn_known(2) [OF 2, of e] show ?case by simp
qed simp_all

section \<open>Properties\<close>

definition demo_sessions :: session_state where
  "demo_sessions = session_create Delivered 0 ''c1'' ''7'' ''bot'' \<lparr>ss_mem = Map.empty, ss_redis = Some Map.empty\<rparr>"

text \<open>C23. A conversation is remembered in order and survives a restart: the turns added to a session
  the process holds are appended one after the other whatever Redis does; and when the last write
  reached Redis, the restarted process reads the same session, all turns included, for an hour
  after that write.\<close>

theorem conversation_survives_restart:
  assumes "ss_mem s cid = Some d"
  shows "ss_mem (run (add_turn_step cid) s (es @ [e])) cid =
      Some (d\<lparr>se_turns := se_turns d @ map turn_of (es @ [e])\<rparr>)
    \<and> (ss_redis s \<noteq> None \<longrightarrow> fst (snd e) \<noteq> RequestLost \<longrightarrow> t < fst (snd (snd e)) + seconds SESSION_TTL \<longrightarrow>
        snd (session_get Delivered t cid (restart (run (add_turn_step cid) s (es @ [e])))) =
          Some (d\<lparr>se_turns := se_turns d @ map turn_of (es @ [e])\<rparr>))"
proof -
  let ?s = "run (add_turn_step cid) s es"
  obtain n n' now role said where e: "e = (n, n', now, role, said)" by (cases e)
  have m: "ss_mem ?s cid = Some (d\<lparr>se_turns := se_turns d @ map turn_of es\<rparr>)"
    using assms by (rule add_turns_mem)
  have "stored_session Delivered t cid (add_turn_step cid ?s e) =
      Some (d\<lparr>se_turns := se_turns d @ map turn_of (es @ [e])\<rparr>)"
    if "ss_redis s \<noteq> None" "n' \<noteq> RequestLost" "t < now + seconds SESSION_TTL"
    using that m add_turns_mem(2) [OF assms, of es]
    by (simp add: e session_add_turn_def session_get_def Let_def)
  then show ?thesis
    using add_turns_mem(1) [OF assms, of "es @ [e]"]
    by (simp add: run_append restart_def session_get_def e)
qed

theorem conversation_survives_restart_witness:
  "map_option (\<lambda>d. map tu_text (se_turns d)) (snd (session_get Delivered (seconds 60) ''c1'' (restart
      (run (add_turn_step ''c1'') demo_sessions
        [(Delivered, RequestLost, 5, ''user'', ''hello''), (Delivered, Delivered, 6, ''assistant'', ''hi'')]))))
    = Some [''hello'', ''hi'']"
proof -
  have m: "ss_mem demo_sessions ''c1'' = Some (new_session 0 ''c1'' ''7'' ''bot'')"
    and r: "ss_redis demo_sessions \<noteq> None"
    by (simp_all add: demo_sessions_def session_create_def Let_def)
  from conversation_survives_restart [OF m, of "[(Delivered, RequestLost, 5, ''user'', ''hello'')]"
      "(Delivered, Delivered, 6, ''assistant'', ''hi'')" "seconds 60"] r
  show ?thesis by (simp add: new_session_def seconds_def SESSION_TTL_def)
qed

text \<open>Removing a session whose Redis delete arrives leaves nothing of it, in memory or after a
  restart; a delete that is lost leaves the Redis copy, which a restarted process reads again until
  it expires. Every operation on one call leaves the memory and Redis entries of all other calls as
  they were.\<close>

lemma session_removal_and_isolation:
  "snd (session_get m t cid (session_remove n cid s)) =
     (if n = RequestLost then stored_session m t cid s else None)
   \<and> snd (session_get m t cid (restart (session_remove n cid s))) =
     (if n = RequestLost then stored_session m t cid s else None)
   \<and> (q \<noteq> cid \<longrightarrow>
        call_view q (session_create n now cid tid aid s) = call_view q s
      \<and> call_view q (fst (session_get n now cid s)) = call_view q s
      \<and> call_view q (session_end n n' now cid s) = call_view q s
      \<and> call_view q (session_remove n cid s) = call_view q s
      \<and> call_view q (session_add_turn n n' now cid role text s) = call_view q s)"
proof -
  have "snd (session_get m t cid (session_remove n cid s)) =
      (if n = RequestLost then stored_session m t cid s else None)"
    "snd (session_get m t cid (restart (session_remove n cid s))) =
      (if n = RequestLost then stored_session m t cid s else None)"
    by (auto simp: session_get_def session_remove_def restart_def split: option.splits)
  then show ?thesis by (simp add: session_frame)
qed

lemma session_removal_and_isolation_example:
  "ss_mem (session_remove Delivered ''c2'' demo_sessions) ''c1'' = ss_mem demo_sessions ''c1''"
  using session_removal_and_isolation [of Delivered 0 "''c2''" Delivered demo_sessions "''c1''"]
  by (simp add: call_view_def)

end
