(* ===== verification/Gateway.thy ===== *)
theory Gateway
  imports Jobs Calls Sessions InternalAuth
begin

text \<open>
  The telephony boundary of the voice gateway: the clients of the internal API
  (\<^verbatim>\<open>services/voice-gateway/internal_calls.py\<close>), the development routing stub (\<^verbatim>\<open>dev_routing.py\<close>) and
  the Exotel callback (\<^verbatim>\<open>exotel_routes.py\<close>), with the wiring of \<^verbatim>\<open>src/main.py\<close>.

  The router receives its collaborators as arguments, and so does the model: \<open>router_deps\<close> holds the
  operations \<open>build_exotel_router\<close> is given, over any state; \<open>production_deps\<close> is what
  \<open>_register_exotel_router\<close> passes. Each HTTP request and Redis command has a network outcome. The
  parsers of form and JSON bodies belong to the web framework: a request carries what they return. A
  dialed number or call identifier is one segment of a URL path.
\<close>

section \<open>Clients of the internal API\<close>

record gateway_tokens =
  gt_api_secret :: string
  gt_token :: string
  gt_webhook_token :: string

text \<open>\<open>InternalApiError\<close> is its message; \<open>_request\<close> is the same in the three clients but for it.\<close>

definition internal_request ::
  "gateway_tokens \<Rightarrow> net \<Rightarrow> string \<Rightarrow> (api_state \<Rightarrow> api_state \<times> 'a http) \<Rightarrow> api_state
     \<Rightarrow> api_state \<times> (string + 'a http)" where
  "internal_request cfg n message h s =
     (case over_http n (guarded verify_internal_token (gt_api_secret cfg)
                          (gateway_with_internal_auth (gt_token cfg)) h) s of
        (s', TransportError) \<Rightarrow> (s', Inl message)
      | (s', Reply r) \<Rightarrow> (s', Inr r))"

definition calls_error :: string where
  "calls_error = ''Internal calls API request failed''"

record call_creation =
  cr_call_id :: string
  cr_tenant_id :: string
  cr_agent_id :: string
  cr_started_at :: datetime
  cr_provider_call_id :: "string option"

text \<open>The body \<open>model_dump\<close> sends, as the API reads it: there is no \<open>is_simulation\<close> field to send.\<close>

definition creation_body :: "call_creation \<Rightarrow> call_create_request" where
  "creation_body c =
     \<lparr>cc_call_id = cr_call_id c, cc_tenant_id = cr_tenant_id c, cc_agent_id = cr_agent_id c,
      cc_started_at = cr_started_at c, cc_provider_call_id = cr_provider_call_id c,
      cc_is_simulation = False\<rparr>"

definition calls_create ::
  "gateway_tokens \<Rightarrow> net \<Rightarrow> datetime \<Rightarrow> call_creation \<Rightarrow> api_state \<Rightarrow> api_state \<times> (string + unit)" where
  "calls_create cfg n now c s =
     (case internal_request cfg n calls_error (on_db (create_call now (creation_body c))) s of
        (s', Inl e) \<Rightarrow> (s', Inl e)
      | (s', Inr (Inl _)) \<Rightarrow> (s', Inl calls_error)
      | (s', Inr (Inr _)) \<Rightarrow> (s', Inr ()))"

text \<open>\<open>CallState\<close> reads eight of the fields the API sends.\<close>

record gateway_call =
  gs_call_id :: string
  gs_tenant_id :: string
  gs_agent_id :: string
  gs_provider_call_id :: "string option"
  gs_status :: call_status
  gs_started_at :: datetime
  gs_ended_at :: "datetime option"
  gs_end_reason :: "string option"

definition gateway_call_of :: "call_state_response \<Rightarrow> gateway_call" where
  "gateway_call_of r =
     \<lparr>gs_call_id = cz_call_id r, gs_tenant_id = cz_tenant_id r, gs_agent_id = cz_agent_id r,
      gs_provider_call_id = cz_provider_call_id r, gs_status = cz_status r, gs_started_at = cz_started_at r,
      gs_ended_at = cz_ended_at r, gs_end_reason = cz_end_reason r\<rparr>"

definition calls_get ::
  "gateway_tokens \<Rightarrow> net \<Rightarrow> string \<Rightarrow> api_state \<Rightarrow> api_state \<times> (string + gateway_call option)" where
  "calls_get cfg n cid s =
     (case internal_request cfg n calls_error (\<lambda>s. (s, get_call cid (db s))) s of
        (s', Inl e) \<Rightarrow> (s', Inl e)
      | (s', Inr (Inl e)) \<Rightarrow> (s', if status_code e = 404 then Inr None else Inl calls_error)
      | (s', Inr (Inr r)) \<Rightarrow> (s', Inr (Some (gateway_call_of r))))"

text \<open>\<open>CallFinalization\<close> has the fields of the API's request.\<close>

type_synonym call_finalization = finalize_request

definition calls_finalize ::
  "gateway_tokens \<Rightarrow> net \<Rightarrow> string \<Rightarrow> call_finalization \<Rightarrow> api_state \<Rightarrow> api_state \<times> (string + unit)" where
  "calls_finalize cfg n cid b s =
     (case internal_request cfg n calls_error (on_db (finalize_call cid b)) s of
        (s', Inl e) \<Rightarrow> (s', Inl e)
      | (s', Inr (Inl _)) \<Rightarrow> (s', Inl calls_error)
      | (s', Inr (Inr _)) \<Rightarrow> (s', Inr ()))"

definition routing_error :: string where
  "routing_error = ''Internal phone routing API request failed''"

definition routing_resolve ::
  "gateway_tokens \<Rightarrow> net \<Rightarrow> string \<Rightarrow> api_state \<Rightarrow> string + string \<times> string" where
  "routing_resolve cfg n number s =
     (case snd (internal_request cfg n routing_error (\<lambda>s. (s, get_phone_route number (db s))) s) of
        Inl e \<Rightarrow> Inl e
      | Inr (Inl e) \<Rightarrow>
          Inl (if status_code e = 404 then ''Phone number route not found'' else routing_error)
      | Inr (Inr route) \<Rightarrow> Inr (po_tenant_id route, po_agent_id route))"

text \<open>The development stub.\<close>

definition dev_resolve :: "string \<Rightarrow> string + string \<times> string" where
  "dev_resolve number =
     (if number \<noteq> ''+917314623519'' then Inl ''Test phone-number route not found''
      else Inr (''test-tenant'', ''test-agent''))"

definition events_error :: string where
  "events_error = ''Internal events API request failed''"

definition event_creation :: "string \<Rightarrow> string \<Rightarrow> json_object \<Rightarrow> event_create_request" where
  "event_creation p e payload =
     \<lparr>ec_event_type = e, ec_provider_call_id = Some p, ec_tenant_id = None, ec_call_id = None,
      ec_payload = Some payload, ec_max_attempts = None\<rparr>"

definition events_record ::
  "gateway_tokens \<Rightarrow> net \<Rightarrow> redis_mode \<Rightarrow> datetime \<Rightarrow> string \<Rightarrow> string \<Rightarrow> string \<Rightarrow> json_object \<Rightarrow> api_state
     \<Rightarrow> api_state \<times> (string + bool)" where
  "events_record cfg n redis now uuid p e payload s =
     (case internal_request cfg n events_error
             (create_event redis now uuid (event_creation p e payload)) s of
        (s', Inl err) \<Rightarrow> (s', Inl err)
      | (s', Inr (Inl _)) \<Rightarrow> (s', Inl events_error)
      | (s', Inr (Inr r)) \<Rightarrow> (s', Inr (er_duplicate r)))"

section \<open>The callback's payload\<close>

text \<open>
  A request to the callback route, which takes \<open>GET\<close> and \<open>POST\<close>: \<open>cq_form\<close> is what the form parser makes of the body, \<open>cq_json\<close> what
  the JSON parser does (\<open>None\<close> when it raises).
\<close>

record callback_request =
  cq_method :: http_method
  cq_header :: "string option"
  cq_query :: "(string \<times> string) list"
  cq_content_type :: string
  cq_form :: "(string \<times> string) list"
  cq_json :: "json option"

record exotel_callback =
  xc_provider_call_id :: string
  xc_event :: string
  xc_dialed_number :: "string option"
  xc_call_status :: "string option"

text \<open>\<open>query_params.get\<close> and \<open>dict(query_params)\<close>: the last value of a key.\<close>

definition query_get :: "(string \<times> string) list \<Rightarrow> string \<Rightarrow> string option" where
  "query_get q k = map_of (rev q) k"

definition dict_update :: "(string \<rightharpoonup> json) \<Rightarrow> (string \<times> json) list \<Rightarrow> (string \<rightharpoonup> json)" where
  "dict_update d kvs = foldl (\<lambda>d (k, v). d(k \<mapsto> v)) d kvs"

definition present :: "string \<times> json \<Rightarrow> bool" where
  "present kv = (snd kv \<noteq> JNull \<and> snd kv \<noteq> JStr [])"

definition raw_fields :: "callback_request \<Rightarrow> (string \<rightharpoonup> json) option" where
  "raw_fields q =
     (let raw = (\<lambda>k. map_option JStr (query_get (cq_query q) k))(''token'' := None) in
      if cq_method q = POST then
        if py_in ''application/x-www-form-urlencoded'' (cq_content_type q) then
          Some (dict_update raw (filter present (map (\<lambda>(k, v). (k, JStr v)) (cq_form q))))
        else if py_startswith (cq_content_type q) ''application/json'' then
          (case cq_json q of
             None \<Rightarrow> None
           | Some (JObj kvs) \<Rightarrow> Some (dict_update raw (filter present kvs))
           | Some _ \<Rightarrow> Some raw)
        else Some raw
      else Some raw)"

definition json_or :: "json option \<Rightarrow> json option \<Rightarrow> json option" where
  "json_or x y = (case x of None \<Rightarrow> y | Some v \<Rightarrow> if json_truthy v then x else y)"

text \<open>The two field types of \<open>ExotelCallback\<close>: a non-empty string, and a string or nothing.\<close>

definition required_str :: "json option \<Rightarrow> string option" where
  "required_str x = (case x of Some (JStr s) \<Rightarrow> if s \<noteq> [] then Some s else None | _ \<Rightarrow> None)"

definition optional_str :: "json option \<Rightarrow> string option option" where
  "optional_str x =
     (case x of None \<Rightarrow> Some None | Some JNull \<Rightarrow> Some None | Some (JStr s) \<Rightarrow> Some (Some s)
      | Some _ \<Rightarrow> None)"

definition translate_exotel_fields :: "(string \<rightharpoonup> json) \<Rightarrow> exotel_callback option" where
  "translate_exotel_fields raw =
     (case (required_str (raw ''CallSid''), required_str (raw ''EventType''),
            optional_str (json_or (raw ''To'') (json_or (raw ''to'') (raw ''Called''))),
            optional_str (json_or (raw ''Status'') (raw ''status''))) of
        (Some p, Some e, Some d, Some c) \<Rightarrow>
          Some \<lparr>xc_provider_call_id = p, xc_event = e, xc_dialed_number = d, xc_call_status = c\<rparr>
      | _ \<Rightarrow> None)"

definition parse_callback :: "callback_request \<Rightarrow> exotel_callback option" where
  "parse_callback q = Option.bind (raw_fields q) translate_exotel_fields"

section \<open>The callback\<close>

record 'w router_deps =
  rd_record :: "string \<Rightarrow> string \<Rightarrow> json_object \<Rightarrow> 'w \<Rightarrow> 'w \<times> (string + bool)"
  rd_routing :: "(string \<Rightarrow> 'w \<Rightarrow> string + string \<times> string) option"
  rd_create :: "call_creation \<Rightarrow> 'w \<Rightarrow> 'w \<times> (string + unit)"
  rd_finalize :: "string \<Rightarrow> call_finalization \<Rightarrow> 'w \<Rightarrow> 'w \<times> (string + unit)"
  rd_session_create :: "string \<Rightarrow> string \<Rightarrow> string \<Rightarrow> 'w \<Rightarrow> 'w"
  rd_session_get :: "string \<Rightarrow> 'w \<Rightarrow> 'w \<times> session option"
  rd_session_end :: "string \<Rightarrow> 'w \<Rightarrow> 'w"
  rd_session_remove :: "string \<Rightarrow> 'w \<Rightarrow> 'w"
  rd_store_set :: "string \<Rightarrow> string \<Rightarrow> 'w \<Rightarrow> 'w"
  rd_store_get :: "string \<Rightarrow> 'w \<Rightarrow> string option"
  rd_store_delete :: "string \<Rightarrow> 'w \<Rightarrow> 'w"

record callback_reply =
  cy_status :: string
  cy_call_id :: string

definition reply :: "string \<Rightarrow> string \<Rightarrow> callback_reply http" where
  "reply st cid = Inr \<lparr>cy_status = st, cy_call_id = cid\<rparr>"

definition START_EVENTS :: "string list" where
  "START_EVENTS = [''connected'', ''start'', ''answered'', ''started'']"

definition END_EVENTS :: "string list" where
  "END_EVENTS = [''completed'', ''failed'', ''disconnected'', ''terminal'']"

definition start_event ::
  "'w router_deps \<Rightarrow> string \<Rightarrow> datetime \<Rightarrow> exotel_callback \<Rightarrow> 'w \<Rightarrow> 'w \<times> callback_reply http" where
  "start_event deps uuid pynow p w =
     (case rd_routing deps of
        None \<Rightarrow> (w, Inl (HTTPException 503 ''phone-number routing API dependency is unavailable''))
      | Some resolve \<Rightarrow>
          if \<not> truthy (xc_dialed_number p)
          then (w, Inl (HTTPException 422 ''Exotel callback is missing dialed number''))
          else case resolve (the (xc_dialed_number p)) w of
            Inl _ \<Rightarrow> (w, Inl (HTTPException 404 ''phone-number route not found''))
          | Inr (tenant_id, agent_id) \<Rightarrow>
              (case rd_create deps
                      \<lparr>cr_call_id = uuid, cr_tenant_id = tenant_id, cr_agent_id = agent_id,
                       cr_started_at = pynow, cr_provider_call_id = Some (xc_provider_call_id p)\<rparr> w of
                 (w1, Inl _) \<Rightarrow> (w1, Inl (HTTPException 503 ''internal call creation unavailable''))
               | (w1, Inr _) \<Rightarrow>
                   (rd_store_set deps (xc_provider_call_id p) uuid
                      (rd_session_create deps uuid tenant_id agent_id w1),
                    reply ''session_started'' uuid)))"

definition is_failure :: "exotel_callback \<Rightarrow> bool" where
  "is_failure p =
     (py_lower (xc_event p) = ''failed''
      \<or> py_lower (the (py_or (xc_call_status p) (Some []))) \<in> set [''failed'', ''busy'', ''no-answer''])"

definition end_event ::
  "'w router_deps \<Rightarrow> datetime \<Rightarrow> exotel_callback \<Rightarrow> 'w \<Rightarrow> 'w \<times> callback_reply http" where
  "end_event deps pynow p w =
     (let stored = rd_store_get deps (xc_provider_call_id p) w in
      if \<not> truthy stored then (w, reply ''ignored'' [])
      else
        let cid = the stored;
            end_reason = (if is_failure p then ''provider_failure'' else ''caller_hangup'')
        in case rd_finalize deps cid \<lparr>fr_ended_at = pynow, fr_end_reason = end_reason\<rparr> w of
          (w1, Inl _) \<Rightarrow> (w1, Inl (HTTPException 503 ''internal call finalization unavailable''))
        | (w1, Inr _) \<Rightarrow>
            (case rd_session_get deps cid w1 of
               (w2, session) \<Rightarrow>
                 let w3 = (case session of None \<Rightarrow> w2
                           | Some _ \<Rightarrow> rd_session_remove deps cid (rd_session_end deps cid w2))
                 in (rd_store_delete deps (xc_provider_call_id p) w3, reply ''session_cleaned'' cid)))"

definition event_payload :: "exotel_callback \<Rightarrow> json_object" where
  "event_payload p =
     [(''dialed_number'', case xc_dialed_number p of None \<Rightarrow> JNull | Some s \<Rightarrow> JStr s),
      (''call_status'', case xc_call_status p of None \<Rightarrow> JNull | Some s \<Rightarrow> JStr s)]"

definition dispatch_event ::
  "'w router_deps \<Rightarrow> string \<Rightarrow> datetime \<Rightarrow> exotel_callback \<Rightarrow> 'w \<Rightarrow> 'w \<times> callback_reply http" where
  "dispatch_event deps uuid pynow p w =
     (if py_lower (xc_event p) \<in> set START_EVENTS then start_event deps uuid pynow p w
      else if py_lower (xc_event p) \<in> set END_EVENTS then end_event deps pynow p w
      else (w, reply ''ignored'' []))"

definition invalid_callback_token :: http_error where
  "invalid_callback_token = HTTPException 401 ''invalid Exotel callback authentication''"

definition verify_webhook_token :: "string \<Rightarrow> callback_request \<Rightarrow> unit http" where
  "verify_webhook_token secret q =
     (let token = py_or (cq_header q) (query_get (cq_query q) ''token'') in
      if \<not> truthy token then Inl invalid_callback_token
      else case compare_digest (the token) secret of
        Inl e \<Rightarrow> Inl e
      | Inr same \<Rightarrow> if same then Inr () else Inl invalid_callback_token)"

definition callback ::
  "'w router_deps \<Rightarrow> string \<Rightarrow> string \<Rightarrow> datetime \<Rightarrow> callback_request \<Rightarrow> 'w
     \<Rightarrow> 'w \<times> callback_reply http" where
  "callback deps secret uuid pynow q w =
     (case verify_webhook_token secret q of
        Inl e \<Rightarrow> (w, Inl e)
      | Inr _ \<Rightarrow>
          (case parse_callback q of
             None \<Rightarrow> (w, Inl (HTTPException 422 ''Invalid request body''))
           | Some p \<Rightarrow>
               (case rd_record deps (xc_provider_call_id p) (py_lower (xc_event p)) (event_payload p) w of
                  (w1, Inl _) \<Rightarrow> (w1, Inl (HTTPException 503 ''durable event recording unavailable''))
                | (w1, Inr is_duplicate) \<Rightarrow>
                    if is_duplicate
                    then (w1, reply ''duplicate''
                            (the (py_or (rd_store_get deps (xc_provider_call_id p) w1) (Some []))))
                    else dispatch_event deps uuid pynow p w1)))"

section \<open>The production wiring\<close>

record gw_world =
  gw_api :: api_state
  gw_sessions :: session_state
  gw_dict :: "string \<rightharpoonup> string"

text \<open>The outcomes, clocks and fresh identifiers of one request.\<close>

record callback_env =
  ce_dev_routing :: bool
  ce_net_record :: net
  ce_net_resolve :: net
  ce_net_create :: net
  ce_net_finalize :: net
  ce_net_session :: net
  ce_net_session_get :: net
  ce_net_end_get :: net
  ce_net_end_set :: net
  ce_net_remove :: net
  ce_net_store_get :: net
  ce_net_store_write :: net
  ce_wake :: redis_mode
  ce_now :: datetime
  ce_py :: datetime
  ce_job_uuid :: string
  ce_call_uuid :: string

definition on_gw_api :: "(api_state \<Rightarrow> api_state \<times> 'a) \<Rightarrow> gw_world \<Rightarrow> gw_world \<times> 'a" where
  "on_gw_api f w = (case f (gw_api w) of (s, r) \<Rightarrow> (w\<lparr>gw_api := s\<rparr>, r))"

definition on_gw_sessions :: "(session_state \<Rightarrow> session_state) \<Rightarrow> gw_world \<Rightarrow> gw_world" where
  "on_gw_sessions f w = w\<lparr>gw_sessions := f (gw_sessions w)\<rparr>"

text \<open>The call store: in Redis when it is configured, in the process otherwise.\<close>

definition gw_store_write ::
  "(redis \<Rightarrow> redis) \<Rightarrow> ((string \<rightharpoonup> string) \<Rightarrow> (string \<rightharpoonup> string)) \<Rightarrow> gw_world \<Rightarrow> gw_world" where
  "gw_store_write f g w =
     (case ss_redis (gw_sessions w) of
        Some r \<Rightarrow> w\<lparr>gw_sessions := (gw_sessions w)\<lparr>ss_redis := Some (f r)\<rparr>\<rparr>
      | None \<Rightarrow> w\<lparr>gw_dict := g (gw_dict w)\<rparr>)"

definition gw_store_get :: "net \<times> datetime \<Rightarrow> string \<Rightarrow> gw_world \<Rightarrow> string option" where
  "gw_store_get u p w =
     (case ss_redis (gw_sessions w) of
        Some r \<Rightarrow> redis_store_get u p r
      | None \<Rightarrow> dict_store_get p (gw_dict w))"

definition production_deps :: "gateway_tokens \<Rightarrow> callback_env \<Rightarrow> gw_world router_deps" where
  "production_deps cfg env =
     \<lparr>rd_record = (\<lambda>p e payload. on_gw_api
        (events_record cfg (ce_net_record env) (ce_wake env) (ce_now env) (ce_job_uuid env) p e payload)),
      rd_routing = Some (\<lambda>number w.
        if ce_dev_routing env then dev_resolve number
        else routing_resolve cfg (ce_net_resolve env) number (gw_api w)),
      rd_create = (\<lambda>c. on_gw_api (calls_create cfg (ce_net_create env) (ce_now env) c)),
      rd_finalize = (\<lambda>cid b. on_gw_api (calls_finalize cfg (ce_net_finalize env) cid b)),
      rd_session_create = (\<lambda>cid t a. on_gw_sessions
        (session_create (ce_net_session env) (ce_py env) cid t a)),
      rd_session_get = (\<lambda>cid w. case session_get (ce_net_session_get env) (ce_py env) cid (gw_sessions w) of
        (s, d) \<Rightarrow> (w\<lparr>gw_sessions := s\<rparr>, d)),
      rd_session_end = (\<lambda>cid. on_gw_sessions
        (session_end (ce_net_end_get env) (ce_net_end_set env) (ce_py env) cid)),
      rd_session_remove = (\<lambda>cid. on_gw_sessions (session_remove (ce_net_remove env) cid)),
      rd_store_set = (\<lambda>p cid. gw_store_write
        (redis_store_set (ce_net_store_write env, ce_py env) p cid) (dict_store_set p cid)),
      rd_store_get = gw_store_get (ce_net_store_get env, ce_py env),
      rd_store_delete = (\<lambda>p. gw_store_write
        (redis_store_delete (ce_net_store_write env, ce_py env) p) (dict_store_delete p))\<rparr>"

text \<open>
  \<open>_register_exotel_router\<close>: the token of the environment without surrounding blanks; without one the
  route does not exist.
\<close>

definition exotel_config :: "string \<Rightarrow> string option" where
  "exotel_config token = (let t = py_strip token in if t = [] then None else Some t)"

definition gateway_callback ::
  "gateway_tokens \<Rightarrow> callback_env \<Rightarrow> callback_request \<Rightarrow> gw_world \<Rightarrow> gw_world \<times> callback_reply http" where
  "gateway_callback cfg env q w =
     callback (production_deps cfg env) (gt_webhook_token cfg) (ce_call_uuid env) (ce_py env) q w"

section \<open>The HTTP-backed recorder keeps the contract\<close>

definition gw_trusted :: "gateway_tokens \<Rightarrow> bool" where
  "gw_trusted cfg = (gt_token cfg \<noteq> [] \<and> is_ascii (gt_token cfg) \<and> gt_api_secret cfg = gt_token cfg)"

lemma internal_request_range:
  "internal_request cfg n m h s \<in>
     {(s, Inl m),
      (s, Inr (Inl (projl (verify_internal_token (gt_api_secret cfg) (with_internal_auth (gt_token cfg)))))),
      (fst (h s), Inl m), (fst (h s), Inr (snd (h s)))}"
  by (cases n; cases "h s";
      cases "gt_api_secret cfg \<noteq> [] \<and> is_ascii (gt_api_secret cfg)
        \<and> with_internal_auth (gt_token cfg) = Some (gt_api_secret cfg)")
    (simp_all only: internal_request_def header_copies guarded_cases over_http.simps if_True if_False, auto)

lemma internal_request_cases:
  obtains "internal_request cfg n m h s = (s, Inl m)"
  | e where "internal_request cfg n m h s = (s, Inr (Inl e))"
  | "internal_request cfg n m h s = (fst (h s), Inl m)"
  | "internal_request cfg n m h s = (fst (h s), Inr (snd (h s)))"
  using internal_request_range [of cfg n m h s] that by blast

lemma internal_request_delivered:
  "gw_trusted cfg \<Longrightarrow> internal_request cfg Delivered m h s = (case h s of (s', r) \<Rightarrow> (s', Inr r))"
  by (auto simp: internal_request_def header_copies gw_trusted_def split: prod.splits)

text \<open>The recorder of the production wiring, in the shape of the contract.\<close>

type_synonym record_env = "gateway_tokens \<times> net \<times> redis_mode \<times> datetime \<times> string \<times> json_object"

fun http_record :: "record_env \<Rightarrow> string \<times> string \<Rightarrow> api_state \<Rightarrow> api_state \<times> bool option" where
  "http_record (cfg, n, redis, now, uuid, payload) (p, e) s =
     (case events_record cfg n redis now uuid p e payload s of
        (s', Inl _) \<Rightarrow> (s', None)
      | (s', Inr dup) \<Rightarrow> (s', Some dup))"

definition http_job :: "record_env \<Rightarrow> redis_mode \<times> datetime \<times> string \<times> event_create_request" where
  "http_job a = (case a of (cfg, n, redis, now, uuid, payload) \<Rightarrow>
     (redis, now, uuid, event_creation [] [] payload))"

lemma event_request_creation: "event_request (event_creation [] [] payload) (p, e) = event_creation p e payload"
  by (simp add: event_request_def event_creation_def)

text \<open>Over HTTP the recorder does nothing and fails, or records and fails, or records and answers.\<close>

lemma http_record_cases:
  obtains "http_record a k s = (s, None)"
  | "http_record a k s = (fst (record_job (http_job a) k s), None)"
  | "http_record a k s = record_job (http_job a) k s"
proof -
  obtain cfg n redis now uuid payload where a: "a = (cfg, n, redis, now, uuid, payload)" by (cases a)
  obtain p e where k: "k = (p, e)" by (cases k)
  let ?h = "create_event redis now uuid (event_creation p e payload)"
  show thesis
  proof (rule internal_request_cases [of cfg n events_error ?h s])
  qed (use that in \<open>auto simp: a k events_record_def http_job_def event_request_creation
        split: prod.splits sum.splits\<close>)
qed

interpretation http_recorder: event_recorder http_record recorded_events jobs_inv
proof
  fix s s' :: api_state and a k b
  assume ok: "jobs_inv s"
  show "jobs_inv (fst (http_record a k s))"
    by (rule http_record_cases [of a k s]) (use ok record_job_inv [OF ok] in auto)
  show "b = (k \<in> recorded_events s) \<and> recorded_events s' = insert k (recorded_events s)"
    if "http_record a k s = (s', Some b)"
    by (rule http_record_cases [of a k s])
      (use that ok job_recorder.record_answer [OF ok, of "http_job a" k s' b] in auto)
  show "s' = s \<or> recorded_events s' = insert k (recorded_events s)"
    if "http_record a k s = (s', None)"
  proof (rule http_record_cases [of a k s])
    assume "http_record a k s = (fst (record_job (http_job a) k s), None)"
    with that show ?thesis
      using job_recorder.record_answer [OF ok, of "http_job a" k s']
        job_recorder.record_failure [OF ok, of "http_job a" k s']
      by (cases "record_job (http_job a) k s"; cases "snd (record_job (http_job a) k s)") auto
  qed (use that job_recorder.record_failure [OF ok, of "http_job a" k s'] in auto)
  show "fst (http_record a k s) = s" if "k \<in> recorded_events s"
    by (rule http_record_cases [of a k s]) (use job_recorder.record_known [OF ok that] in auto)
qed

section \<open>What a callback can change\<close>

definition event_key :: "exotel_callback \<Rightarrow> string \<times> string" where
  "event_key p = (xc_provider_call_id p, py_lower (xc_event p))"

lemma fst_on_gw_api [simp]: "fst (on_gw_api f w) = w\<lparr>gw_api := fst (f (gw_api w))\<rparr>"
  by (simp add: on_gw_api_def split: prod.splits)

lemma create_call_jobs: "t_call_jobs (fst (create_call now b d)) = t_call_jobs d"
  by (simp add: create_call_def create_call_racing_def Let_def split: option.splits)

lemma finalize_call_jobs: "t_call_jobs (fst (finalize_call cid b d)) = t_call_jobs d"
  by (simp add: finalize_call_def finalize_call_racing_def split: option.splits)

lemma calls_client_jobs:
  "jobs_of (fst (calls_create cfg n now c s)) = jobs_of s"
  "jobs_of (fst (calls_finalize cfg n cid b s)) = jobs_of s"
proof -
  show "jobs_of (fst (calls_create cfg n now c s)) = jobs_of s"
    by (rule internal_request_cases [of cfg n calls_error "on_db (create_call now (creation_body c))" s])
      (auto simp: calls_create_def create_call_jobs split: sum.splits)
  show "jobs_of (fst (calls_finalize cfg n cid b s)) = jobs_of s"
    by (rule internal_request_cases [of cfg n calls_error "on_db (finalize_call cid b)" s])
      (auto simp: calls_finalize_def finalize_call_jobs split: sum.splits)
qed

text \<open>The job table after each of the router's operations.\<close>

abbreviation gw_jobs :: "gw_world \<Rightarrow> call_job list" where
  "gw_jobs w \<equiv> jobs_of (gw_api w)"

lemma store_write_api [simp]: "gw_api (gw_store_write f g w) = gw_api w"
  by (simp add: gw_store_write_def split: option.splits)

lemma on_sessions_api [simp]: "gw_api (on_gw_sessions f w) = gw_api w"
  by (simp add: on_gw_sessions_def)

text \<open>What the operations the router is given preserve, its work preserves.\<close>

lemma start_event_preserves:
  assumes "\<And>c w. P w \<Longrightarrow> P (fst (rd_create deps c w))"
    and "\<And>a b c w. P w \<Longrightarrow> P (rd_session_create deps a b c w)" "\<And>a b w. P w \<Longrightarrow> P (rd_store_set deps a b w)"
    and "P w"
  shows "P (fst (start_event deps uuid pynow p w))"
proof -
  have "P w1" if "rd_create deps c w = (w1, r)" for c w1 r
    using assms(1) [OF assms(4), of c] that by simp
  then show ?thesis
    unfolding start_event_def
    by (simp add: assms(2-4) split: option.split sum.split prod.split)
qed

lemma end_event_preserves:
  assumes "\<And>c b w. P w \<Longrightarrow> P (fst (rd_finalize deps c b w))" "\<And>c w. P w \<Longrightarrow> P (fst (rd_session_get deps c w))"
    and "\<And>a w. P w \<Longrightarrow> P (rd_session_end deps a w)" "\<And>a w. P w \<Longrightarrow> P (rd_session_remove deps a w)"
    and "\<And>a w. P w \<Longrightarrow> P (rd_store_delete deps a w)" "P w"
  shows "P (fst (end_event deps pynow p w))"
proof -
  obtain w1 r where fin: "rd_finalize deps (the (rd_store_get deps (xc_provider_call_id p) w))
      \<lparr>fr_ended_at = pynow, fr_end_reason = if is_failure p then ''provider_failure'' else ''caller_hangup''\<rparr> w = (w1, r)"
    by force
  obtain w2 x where get: "rd_session_get deps (the (rd_store_get deps (xc_provider_call_id p) w)) w1 = (w2, x)"
    by force
  have "P w1" "P w2" using assms(1) [OF assms(6)] assms(2) fin get by (metis fst_conv)+
  with fin get show ?thesis
    by (simp add: end_event_def Let_def assms(3-6) split: sum.split option.split)
qed

lemma dispatch_preserves:
  assumes "\<And>s n now c. P s \<Longrightarrow> P (fst (calls_create cfg n now c s))"
    and "\<And>s n cid b. P s \<Longrightarrow> P (fst (calls_finalize cfg n cid b s))" "P (gw_api w)"
  shows "P (gw_api (fst (dispatch_event (production_deps cfg env) uuid pynow p w)))"
proof -
  have "P (gw_api (fst (start_event (production_deps cfg env) uuid pynow p w)))"
    by (rule start_event_preserves [where P = "\<lambda>w. P (gw_api w)"])
      (simp_all add: production_deps_def assms)
  moreover have "P (gw_api (fst (end_event (production_deps cfg env) pynow p w)))"
    by (rule end_event_preserves [where P = "\<lambda>w. P (gw_api w)"])
      (simp_all add: production_deps_def assms split: prod.split)
  ultimately show ?thesis using assms(3) by (simp add: dispatch_event_def)
qed

lemma calls_client_queue:
  "wake_queue (fst (calls_create cfg n now c s)) = wake_queue s"
  "wake_queue (fst (calls_finalize cfg n cid b s)) = wake_queue s"
proof -
  show "wake_queue (fst (calls_create cfg n now c s)) = wake_queue s"
    by (rule internal_request_cases [of cfg n calls_error "on_db (create_call now (creation_body c))" s])
      (auto simp: calls_create_def split: sum.splits)
  show "wake_queue (fst (calls_finalize cfg n cid b s)) = wake_queue s"
    by (rule internal_request_cases [of cfg n calls_error "on_db (finalize_call cid b)" s])
      (auto simp: calls_finalize_def split: sum.splits)
qed

lemma dispatch_jobs: "gw_jobs (fst (dispatch_event (production_deps cfg env) uuid pynow p w)) = gw_jobs w"
  by (rule dispatch_preserves) (simp_all add: calls_client_jobs)

lemma dispatch_queue:
  "wake_queue (gw_api (fst (dispatch_event (production_deps cfg env) uuid pynow p w))) = wake_queue (gw_api w)"
  by (rule dispatch_preserves) (simp_all add: calls_client_queue)

text \<open>What creating and finalizing calls preserves of the database, the gateway's clients preserve.\<close>

lemma calls_client_db:
  assumes "\<And>now b d. P d \<Longrightarrow> P (fst (create_call now b d))" "\<And>cid b d. P d \<Longrightarrow> P (fst (finalize_call cid b d))"
    and "P (db s)"
  shows "P (db (fst (calls_create cfg n now c s)))" "P (db (fst (calls_finalize cfg n cid b s)))"
proof -
  show "P (db (fst (calls_create cfg n now c s)))"
    by (rule internal_request_cases [of cfg n calls_error "on_db (create_call now (creation_body c))" s])
      (auto simp: calls_create_def assms split: sum.splits)
  show "P (db (fst (calls_finalize cfg n cid b s)))"
    by (rule internal_request_cases [of cfg n calls_error "on_db (finalize_call cid b)" s])
      (auto simp: calls_finalize_def assms split: sum.splits)
qed

lemma recorded_cong: "jobs_of s = jobs_of s' \<Longrightarrow> recorded_events s = recorded_events s'"
  by (simp add: recorded_events_def)

lemma jobs_inv_cong: "jobs_of s = jobs_of s' \<Longrightarrow> jobs_inv s = jobs_inv s'"
  by (simp add: jobs_inv_def)

text \<open>The recording step of a callback, through the contract.\<close>

definition record_env_of :: "gateway_tokens \<Rightarrow> callback_env \<Rightarrow> exotel_callback \<Rightarrow> record_env" where
  "record_env_of cfg env p =
     (cfg, ce_net_record env, ce_wake env, ce_now env, ce_job_uuid env, event_payload p)"

lemma callback_record:
  assumes "rd_record (production_deps cfg env) (xc_provider_call_id p) (py_lower (xc_event p))
    (event_payload p) w = (w', r)"
  shows "\<exists>s. w' = w\<lparr>gw_api := s\<rparr> \<and> http_record (record_env_of cfg env p) (event_key p) (gw_api w) =
    (s, case r of Inl _ \<Rightarrow> None | Inr dup \<Rightarrow> Some dup)"
  using assms
  by (auto simp: production_deps_def on_gw_api_def record_env_of_def event_key_def
      split: prod.splits sum.splits)

text \<open>A callback either ends before the router's work, or has recorded its event as new.\<close>

lemma gateway_callback_cases:
  assumes "gateway_callback cfg env q w = (w', r)"
  obtains (refused) "w' = w"
  | (recorded) p s where "parse_callback q = Some p" "w' = w\<lparr>gw_api := s\<rparr>"
      "fst (http_record (record_env_of cfg env p) (event_key p) (gw_api w)) = s"
  | (fresh) p s where "parse_callback q = Some p"
      "http_record (record_env_of cfg env p) (event_key p) (gw_api w) = (s, Some False)"
      "dispatch_event (production_deps cfg env) (ce_call_uuid env) (ce_py env) p (w\<lparr>gw_api := s\<rparr>) = (w', r)"
proof (cases "verify_webhook_token (gt_webhook_token cfg) q")
  case (Inl e)
  with assms refused show ?thesis by (simp add: gateway_callback_def callback_def)
next
  case token: (Inr u)
  show ?thesis
  proof (cases "parse_callback q")
    case None
    with token assms refused show ?thesis by (simp add: gateway_callback_def callback_def)
  next
    case (Some p)
    obtain w1 a where rec: "rd_record (production_deps cfg env) (xc_provider_call_id p)
        (py_lower (xc_event p)) (event_payload p) w = (w1, a)" by force
    from callback_record [OF rec] obtain s where s: "w1 = w\<lparr>gw_api := s\<rparr>"
      "http_record (record_env_of cfg env p) (event_key p) (gw_api w) =
        (s, case a of Inl _ \<Rightarrow> None | Inr dup \<Rightarrow> Some dup)" by blast
    have "a = Inr False \<Longrightarrow>
        dispatch_event (production_deps cfg env) (ce_call_uuid env) (ce_py env) p w1 = (w', r)"
      and "a \<noteq> Inr False \<Longrightarrow> w' = w1"
      using assms token Some rec
      by (auto simp: gateway_callback_def callback_def split: sum.splits if_splits)
    with Some s recorded fresh show ?thesis by (cases "a = Inr False") auto
  qed
qed

lemma callback_changed_recorded:
  assumes "jobs_inv (gw_api w)" "gateway_callback cfg env q w = (w', r)" "w' \<noteq> w"
  shows "\<exists>p. parse_callback q = Some p \<and> event_key p \<in> recorded_events (gw_api w')"
  using assms(2)
proof (cases rule: gateway_callback_cases)
  case (recorded p s)
  obtain b where "http_record (record_env_of cfg env p) (event_key p) (gw_api w) = (s, b)"
    using recorded(3) by (metis prod.collapse)
  with http_recorder.changed_recorded [OF assms(1) this] recorded assms(3) show ?thesis by auto
next
  case (fresh p s)
  have "event_key p \<in> recorded_events s"
    using http_recorder.record_answer [OF assms(1) fresh(2)] by blast
  moreover have "recorded_events (gw_api w') = recorded_events s"
    using dispatch_jobs [of cfg env "ce_call_uuid env" "ce_py env" p "w\<lparr>gw_api := s\<rparr>"] fresh(3)
    by (intro recorded_cong) simp
  ultimately show ?thesis using fresh(1) by auto
qed (use assms(3) in simp)

lemma callback_known:
  assumes "jobs_inv (gw_api w)" "parse_callback q = Some p" "event_key p \<in> recorded_events (gw_api w)"
  shows "fst (gateway_callback cfg env q w) = w"
proof -
  obtain w' r where r: "gateway_callback cfg env q w = (w', r)" by force
  from r show ?thesis
  proof (cases rule: gateway_callback_cases)
    case (recorded p' s)
    with assms http_recorder.record_known [OF assms(1,3)] r show ?thesis by simp
  next
    case (fresh p' s)
    with assms http_recorder.record_known_answer [OF assms(1,3), of "record_env_of cfg env p"]
    show ?thesis by simp
  qed (use r in simp)
qed

section \<open>Runs of the gateway\<close>

text \<open>Callbacks, requests of other clients to the job queue, and restarts of the gateway process.\<close>

datatype gw_event = Gw_callback callback_env callback_request | Gw_job job_op | Gw_restart

fun gw_step :: "gateway_tokens \<Rightarrow> gw_world \<Rightarrow> gw_event \<Rightarrow> gw_world" where
  "gw_step cfg w (Gw_callback env q) = fst (gateway_callback cfg env q w)"
| "gw_step cfg w (Gw_job op) = w\<lparr>gw_api := job_step (gw_api w) op\<rparr>"
| "gw_step cfg w Gw_restart = w\<lparr>gw_sessions := restart (gw_sessions w), gw_dict := Map.empty\<rparr>"

lemma callback_inv:
  assumes "jobs_inv (gw_api w)"
  shows "jobs_inv (gw_api (fst (gateway_callback cfg env q w)))
    \<and> recorded_events (gw_api w) \<subseteq> recorded_events (gw_api (fst (gateway_callback cfg env q w)))"
proof -
  obtain w' r where r: "gateway_callback cfg env q w = (w', r)" by force
  from r show ?thesis
  proof (cases rule: gateway_callback_cases)
    case (recorded p s)
    with r assms show ?thesis
      using http_recorder.record_ok [OF assms, of "record_env_of cfg env p" "event_key p"]
        http_recorder.recorded_mono [OF assms, of "record_env_of cfg env p" "event_key p"] by simp
  next
    case (fresh p s)
    have "gw_jobs w' = jobs_of s"
      using dispatch_jobs [of cfg env "ce_call_uuid env" "ce_py env" p "w\<lparr>gw_api := s\<rparr>"] fresh(3) by simp
    with r show ?thesis
      using http_recorder.record_ok [OF assms, of "record_env_of cfg env p" "event_key p"] fresh(2)
        http_recorder.recorded_mono [OF assms, of "record_env_of cfg env p" "event_key p"]
        jobs_inv_cong [of "gw_api w'" s] recorded_cong [of "gw_api w'" s] by simp
  qed (use r assms in simp)
qed

lemma gw_step_inv:
  assumes "jobs_inv (gw_api w)"
  shows "jobs_inv (gw_api (gw_step cfg w e)) \<and> recorded_events (gw_api w) \<subseteq> recorded_events (gw_api (gw_step cfg w e))"
  using assms callback_inv [OF assms] job_step_inv [OF assms] recorded_events_step [OF assms]
  by (cases e) (simp_all del: job_step.simps)

interpretation gateway_runs: machine "gw_step cfg"
  "\<lambda>w. jobs_inv (gw_api w) \<and> K \<subseteq> recorded_events (gw_api w)" for cfg K
  by unfold_locales (use gw_step_inv in blast)

lemma record_job_calls: "t_calls (db (fst (record_job a k s))) = t_calls (db s)"
  by (cases a) (auto simp: create_event_def Let_def split: prod.splits sum.splits option.splits if_splits)

lemma http_record_calls:
  assumes "http_record a k s = (s', r)"
  shows "t_calls (db s') = t_calls (db s)"
proof -
  have "t_calls (db (fst (http_record a k s))) = t_calls (db s)"
    by (rule http_record_cases [of a k s]) (use record_job_calls [of "http_job a" k s] in auto)
  then show ?thesis using assms by simp
qed

section \<open>A fresh event with a working network\<close>

lemma gateway_callback_fresh:
  assumes "verify_webhook_token (gt_webhook_token cfg) q = Inr ()" "parse_callback q = Some p"
    and "http_record (record_env_of cfg env p) (event_key p) (gw_api w) = (s, Some False)"
  shows "gateway_callback cfg env q w =
    dispatch_event (production_deps cfg env) (ce_call_uuid env) (ce_py env) p (w\<lparr>gw_api := s\<rparr>)"
proof -
  obtain w1 a where rec: "rd_record (production_deps cfg env) (xc_provider_call_id p)
      (py_lower (xc_event p)) (event_payload p) w = (w1, a)" by force
  from callback_record [OF rec] assms(3) have "w1 = w\<lparr>gw_api := s\<rparr>" "a = Inr False"
    by (auto split: sum.splits)
  with rec assms(1,2) show ?thesis by (simp add: gateway_callback_def callback_def)
qed

lemma start_not_end: "e \<in> set END_EVENTS \<Longrightarrow> e \<notin> set START_EVENTS"
  by (auto simp: END_EVENTS_def START_EVENTS_def)

lemma calls_create_delivered:
  assumes "gw_trusted cfg" "tbl_get call_id (t_calls (db s)) (cr_call_id c) = None"
    and "call_widths (new_call now (creation_body c))"
  shows "calls_create cfg Delivered now c s =
    (s\<lparr>db := (db s)\<lparr>t_calls := t_calls (db s) @ [new_call now (creation_body c)]\<rparr>\<rparr>, Inr ())"
  using assms
  by (simp add: calls_create_def internal_request_delivered on_db_def create_call_def
      create_call_racing_def Let_def creation_body_def)

lemma calls_finalize_delivered:
  assumes "gw_trusted cfg" "tbl_get call_id (t_calls (db s)) cid = Some c" "call_ended_at c = None"
    and "call_widths (finalize_row b c)"
  shows "calls_finalize cfg Delivered cid b s =
    (s\<lparr>db := (db s)\<lparr>t_calls := tbl_update (\<lambda>c. call_id c = cid) (finalize_write b c) (t_calls (db s))\<rparr>\<rparr>, Inr ())"
  using assms
  by (simp add: calls_finalize_def internal_request_delivered on_db_def finalize_call_live)

lemma store_get_set:
  assumes "n \<noteq> RequestLost" "t < now + seconds PROVIDER_CALL_TTL" "cid \<noteq> []"
  shows "gw_store_get (Delivered, t) p
      (gw_store_write (redis_store_set (n, now) p cid) (dict_store_set p cid) w) = Some cid"
  using assms
  by (cases "ss_redis (gw_sessions w)")
    (auto simp: gw_store_get_def gw_store_write_def redis_store_get_def redis_store_set_def
      dict_store_get_def dict_store_set_def)

lemma store_get_delete:
  assumes "n \<noteq> RequestLost"
  shows "gw_store_get u p (gw_store_write (redis_store_delete (n, now) p) (dict_store_delete p) w) = None"
  using assms
  by (cases "ss_redis (gw_sessions w)")
    (auto simp: gw_store_get_def gw_store_write_def redis_store_get_def redis_store_delete_def
      dict_store_get_def dict_store_delete_def)

lemma store_write_mem [simp]: "ss_mem (gw_sessions (gw_store_write f g w)) = ss_mem (gw_sessions w)"
  by (simp add: gw_store_write_def split: option.splits)

section \<open>Properties\<close>

text \<open>C15. A webhook event takes effect at most once, restarts included: once a delivery of an event
  has changed anything at all (recorded it, created or finalized a call, touched a session), every
  later delivery with the same call identifier and the same event name in any case, however many
  other callbacks, job requests and gateway restarts happen in between, changes nothing.\<close>

theorem event_takes_effect_at_most_once:
  assumes "jobs_inv (gw_api w)" "gateway_callback cfg env q w = (w1, r)" "w1 \<noteq> w"
    and "parse_callback q = Some p" "parse_callback q' = Some p'" "event_key p' = event_key p"
  shows "fst (gateway_callback cfg env' q' (run (gw_step cfg) w1 evs)) = run (gw_step cfg) w1 evs"
proof -
  have "event_key p \<in> recorded_events (gw_api w1)"
    using callback_changed_recorded [OF assms(1-3)] assms(4) by auto
  moreover have "jobs_inv (gw_api w1)" using callback_inv [OF assms(1), of cfg env q] assms(2) by simp
  ultimately have "jobs_inv (gw_api (run (gw_step cfg) w1 evs))"
    "event_key p \<in> recorded_events (gw_api (run (gw_step cfg) w1 evs))"
    using gateway_runs.run_inv [of w1 "{event_key p}" cfg evs] by auto
  then show ?thesis using callback_known assms(5,6) by metis
qed

definition demo_gw_tokens :: gateway_tokens where
  "demo_gw_tokens = \<lparr>gt_api_secret = ''k'', gt_token = ''k'', gt_webhook_token = ''hook''\<rparr>"

definition demo_env :: "net \<Rightarrow> callback_env" where
  "demo_env n =
     \<lparr>ce_dev_routing = False, ce_net_record = Delivered, ce_net_resolve = Delivered, ce_net_create = n,
      ce_net_finalize = Delivered, ce_net_session = Delivered, ce_net_session_get = Delivered,
      ce_net_end_get = Delivered, ce_net_end_set = Delivered, ce_net_remove = Delivered,
      ce_net_store_get = Delivered, ce_net_store_write = Delivered, ce_wake = Redis_up, ce_now = 50,
      ce_py = 60, ce_job_uuid = ''j1'', ce_call_uuid = ''c1''\<rparr>"

definition demo_query :: "string \<Rightarrow> string \<Rightarrow> callback_request" where
  "demo_query event st =
     \<lparr>cq_method = GET, cq_header = None,
      cq_query = [(''CallSid'', ''P1''), (''EventType'', event), (''To'', ''+91''), (''Status'', st), (''token'', ''hook'')],
      cq_content_type = [], cq_form = [], cq_json = None\<rparr>"

definition demo_gw :: gw_world where
  "demo_gw =
     \<lparr>gw_api = \<lparr>db = empty_database\<lparr>t_phone_number_routes :=
        [\<lparr>pr_number = ''+91'', pr_tenant_id = ''7'', pr_agent_id = ''bot'', pr_provider = None, pr_created_at = 0\<rparr>]\<rparr>,
        wake_queue = []\<rparr>,
      gw_sessions = \<lparr>ss_mem = Map.empty, ss_redis = Some Map.empty\<rparr>, gw_dict = Map.empty\<rparr>"

definition demo_payload :: "string \<Rightarrow> string \<Rightarrow> exotel_callback" where
  "demo_payload event st =
     \<lparr>xc_provider_call_id = ''P1'', xc_event = event, xc_dialed_number = Some ''+91'', xc_call_status = Some st\<rparr>"

lemma demo_gw_inv: "jobs_inv (gw_api demo_gw)"
  by (simp add: demo_gw_def jobs_inv_def empty_database_def unique_event_def List.map_filter_simps)

lemma demo_parse:
  "parse_callback (demo_query ''answered'' ''x'') = Some (demo_payload ''answered'' ''x'')"
  "parse_callback (demo_query ''Answered'' ''x'') = Some (demo_payload ''Answered'' ''x'')"
  "parse_callback (demo_query ''terminal'' ''no-answer'') = Some (demo_payload ''terminal'' ''no-answer'')"
  by code_simp+

theorem event_takes_effect_at_most_once_witness:
  "fst (gateway_callback demo_gw_tokens (demo_env Delivered) (demo_query ''Answered'' ''x'')
      (run (gw_step demo_gw_tokens)
        (fst (gateway_callback demo_gw_tokens (demo_env Delivered) (demo_query ''answered'' ''x'') demo_gw)) [Gw_restart]))
    = run (gw_step demo_gw_tokens)
        (fst (gateway_callback demo_gw_tokens (demo_env Delivered) (demo_query ''answered'' ''x'') demo_gw)) [Gw_restart]"
proof -
  obtain w1 r where r: "gateway_callback demo_gw_tokens (demo_env Delivered) (demo_query ''answered'' ''x'') demo_gw = (w1, r)"
    by force
  have "gw_jobs (fst (gateway_callback demo_gw_tokens (demo_env Delivered) (demo_query ''answered'' ''x'') demo_gw))
      \<noteq> gw_jobs demo_gw" by code_simp
  with r have "w1 \<noteq> demo_gw" by auto
  moreover have "event_key (demo_payload ''Answered'' ''x'') = event_key (demo_payload ''answered'' ''x'')" by code_simp
  ultimately show ?thesis
    using event_takes_effect_at_most_once [OF demo_gw_inv r _ demo_parse(1,2), of "demo_env Delivered" "[Gw_restart]"] r
    by simp
qed

text \<open>The callback fails closed: unless the header (or, when that is empty, the \<open>token\<close> query
  parameter) is exactly the configured non-empty ASCII secret, the request is answered with 401, or
  500 when a token is not ASCII, and nothing changes.\<close>

lemma callback_requires_token:
  assumes "gt_webhook_token cfg \<noteq> []"
    and "\<not> (is_ascii (gt_webhook_token cfg)
           \<and> py_or (cq_header q) (query_get (cq_query q) ''token'') = Some (gt_webhook_token cfg))"
  shows "\<exists>e. gateway_callback cfg env q w = (w, Inl e) \<and> status_code e \<in> {401, 500}"
proof -
  let ?t = "py_or (cq_header q) (query_get (cq_query q) ''token'')"
  have "\<exists>e. verify_webhook_token (gt_webhook_token cfg) q = Inl e \<and> status_code e \<in> {401, 500}"
    using assms
    by (cases ?t) (auto simp: verify_webhook_token_def Let_def compare_digest_def invalid_callback_token_def)
  then show ?thesis by (auto simp: gateway_callback_def callback_def)
qed

text \<open>A gateway that serves the route at all has such a secret.\<close>

lemma registered_callback_requires_token:
  assumes "exotel_config token = Some (gt_webhook_token cfg)"
    and "py_or (cq_header q) (query_get (cq_query q) ''token'') \<noteq> Some (gt_webhook_token cfg)"
  shows "\<exists>e. gateway_callback cfg env q w = (w, Inl e) \<and> status_code e \<in> {401, 500}"
  by (rule callback_requires_token)
    (use assms in \<open>auto simp: exotel_config_def Let_def split: if_splits\<close>)

lemma callback_requires_token_example:
  "\<exists>e. gateway_callback demo_gw_tokens (demo_env Delivered) ((demo_query ''answered'' ''x'')\<lparr>cq_query := []\<rparr>) demo_gw
      = (demo_gw, Inl e) \<and> status_code e \<in> {401, 500}"
  by (rule callback_requires_token)
    (simp_all add: demo_gw_tokens_def demo_query_def query_get_def py_or_def)

text \<open>A newly recorded answer event with a routed number registers the call everywhere: the API
  gets an active call record with the tenant and agent of the number's route, the gateway a session
  for it, and for the next 24 hours the call store maps the provider's identifier to the new call.\<close>

lemma answered_call_is_registered:
  assumes cfg: "gw_trusted cfg" "verify_webhook_token (gt_webhook_token cfg) q = Inr ()" "parse_callback q = Some p"
    and rec: "http_record (record_env_of cfg env p) (event_key p) (gw_api w) = (s, Some False)"
    and ev: "py_lower (xc_event p) \<in> set START_EVENTS" "xc_dialed_number p = Some num" "num \<noteq> []"
    and route: "\<not> ce_dev_routing env" "tbl_get pr_number (t_phone_number_routes (db s)) num = Some route"
    and net: "ce_net_resolve env = Delivered" "ce_net_create env = Delivered" "ce_net_store_write env \<noteq> RequestLost"
    and new: "tbl_get call_id (t_calls (db s)) (ce_call_uuid env) = None" "ce_call_uuid env \<noteq> []"
      "c = new_call (ce_now env) \<lparr>cc_call_id = ce_call_uuid env, cc_tenant_id = pr_tenant_id route,
         cc_agent_id = pr_agent_id route, cc_started_at = ce_py env,
         cc_provider_call_id = Some (xc_provider_call_id p), cc_is_simulation = False\<rparr>" "call_widths c"
    and t: "t < ce_py env + seconds PROVIDER_CALL_TTL"
  shows "\<exists>w'. gateway_callback cfg env q w = (w', reply ''session_started'' (ce_call_uuid env))
    \<and> t_calls (db (gw_api w')) = t_calls (db s) @ [c]
    \<and> ss_mem (gw_sessions w') (ce_call_uuid env) =
        Some (new_session (ce_py env) (ce_call_uuid env) (pr_tenant_id route) (pr_agent_id route))
    \<and> gw_store_get (Delivered, t) (xc_provider_call_id p) w' = Some (ce_call_uuid env)"
proof -
  have res: "routing_resolve cfg Delivered num s = Inr (pr_tenant_id route, pr_agent_id route)"
    using cfg(1) route(2)
    by (simp add: routing_resolve_def internal_request_delivered get_phone_route_def)
  let ?c = "\<lparr>cr_call_id = ce_call_uuid env, cr_tenant_id = pr_tenant_id route, cr_agent_id = pr_agent_id route,
     cr_started_at = ce_py env, cr_provider_call_id = Some (xc_provider_call_id p)\<rparr>"
  have cr: "calls_create cfg Delivered (ce_now env) ?c s =
      (s\<lparr>db := (db s)\<lparr>t_calls := t_calls (db s) @ [c]\<rparr>\<rparr>, Inr ())"
    using calls_create_delivered [OF cfg(1), of s ?c "ce_now env"] new by (simp add: creation_body_def)
  show ?thesis
    using gateway_callback_fresh [OF cfg(2,3) rec] ev route(1) net res cr store_get_set [OF net(3) t new(2)]
    by (simp add: dispatch_event_def start_event_def production_deps_def on_gw_api_def on_gw_sessions_def
        session_create_def Let_def)
qed

lemma answered_call_is_registered_example:
  "\<exists>w'. gateway_callback demo_gw_tokens (demo_env Delivered) (demo_query ''answered'' ''x'') demo_gw
      = (w', reply ''session_started'' ''c1'')
    \<and> gw_store_get (Delivered, 100) ''P1'' w' = Some ''c1''"
proof -
  let ?a = "record_env_of demo_gw_tokens (demo_env Delivered) (demo_payload ''answered'' ''x'')"
  let ?k = "event_key (demo_payload ''answered'' ''x'')"
  let ?rt = "\<lparr>pr_number = ''+91'', pr_tenant_id = ''7'', pr_agent_id = ''bot'', pr_provider = None, pr_created_at = 0\<rparr>"
  have rec: "http_record ?a ?k (gw_api demo_gw) = (fst (http_record ?a ?k (gw_api demo_gw)), Some False)"
    by (rule prod_eqI) (simp, code_simp)
  have h: "gw_trusted demo_gw_tokens"
    "verify_webhook_token (gt_webhook_token demo_gw_tokens) (demo_query ''answered'' ''x'') = Inr ()"
    "py_lower (xc_event (demo_payload ''answered'' ''x'')) \<in> set START_EVENTS"
    "xc_dialed_number (demo_payload ''answered'' ''x'') = Some ''+91''" "''+91'' \<noteq> []"
    "\<not> ce_dev_routing (demo_env Delivered)"
    "ce_net_resolve (demo_env Delivered) = Delivered" "ce_net_create (demo_env Delivered) = Delivered"
    "ce_net_store_write (demo_env Delivered) \<noteq> RequestLost" "ce_call_uuid (demo_env Delivered) \<noteq> []"
    "100 < ce_py (demo_env Delivered) + seconds PROVIDER_CALL_TTL"
    "call_widths (new_call (ce_now (demo_env Delivered)) \<lparr>cc_call_id = ce_call_uuid (demo_env Delivered), cc_tenant_id = pr_tenant_id ?rt,
         cc_agent_id = pr_agent_id ?rt, cc_started_at = ce_py (demo_env Delivered),
         cc_provider_call_id = Some (xc_provider_call_id (demo_payload ''answered'' ''x'')), cc_is_simulation = False\<rparr>)"
    by code_simp+
  have t: "tbl_get pr_number (t_phone_number_routes (db (fst (http_record ?a ?k (gw_api demo_gw))))) ''+91'' = Some ?rt"
    "tbl_get call_id (t_calls (db (fst (http_record ?a ?k (gw_api demo_gw))))) (ce_call_uuid (demo_env Delivered)) = None"
    by code_simp+
  from answered_call_is_registered [OF h(1,2) demo_parse(1) rec h(3-6) t(1) h(7-9) t(2) h(10) refl h(12,11)]
  show ?thesis by (auto simp: demo_env_def demo_payload_def)
qed

text \<open>A newly recorded end event of a stored, live call finalizes it: the API's record gets the
  gateway's time and the reason (and the status pair the reason stands for) that the event's outcome
  selects, the session is gone from memory, and the identifier is forgotten.\<close>

lemma ended_call_is_finalized:
  assumes cfg: "gw_trusted cfg" "verify_webhook_token (gt_webhook_token cfg) q = Inr ()" "parse_callback q = Some p"
    and rec: "http_record (record_env_of cfg env p) (event_key p) (gw_api w) = (s, Some False)"
    and ev: "py_lower (xc_event p) \<in> set END_EVENTS"
    and stored: "gw_store_get (ce_net_store_get env, ce_py env) (xc_provider_call_id p) w = Some cid" "cid \<noteq> []"
    and call: "tbl_get call_id (t_calls (db s)) cid = Some c" "call_ended_at c = None" "call_widths c"
    and net: "ce_net_finalize env = Delivered" "ce_net_store_write env \<noteq> RequestLost"
    and reason: "reason = (if is_failure p then ''provider_failure'' else ''caller_hangup'')"
  shows "\<exists>w'. gateway_callback cfg env q w = (w', reply ''session_cleaned'' cid)
    \<and> tbl_get call_id (t_calls (db (gw_api w'))) cid =
        Some (c\<lparr>call_ended_at := Some (ce_py env), call_end_reason := Some reason,
                call_state := fst (end_state reason), call_connection := snd (end_state reason)\<rparr>)
    \<and> ss_mem (gw_sessions w') cid = None
    \<and> gw_store_get u (xc_provider_call_id p) w' = None"
proof -
  let ?b = "\<lparr>fr_ended_at = ce_py env, fr_end_reason = reason\<rparr>"
  let ?s = "s\<lparr>db := (db s)\<lparr>t_calls := tbl_update (\<lambda>c. call_id c = cid) (finalize_write ?b c) (t_calls (db s))\<rparr>\<rparr>"
  have "call_widths (finalize_row ?b c)"
    using call(3) by (simp add: call_widths_def finalize_row_def reason varchar_null_def varchar_def)
  then have fin: "calls_finalize cfg Delivered cid ?b s = (?s, Inr ())"
    using calls_finalize_delivered [OF cfg(1) call(1,2)] by simp
  have row: "tbl_get call_id (t_calls (db ?s)) cid = Some (finalize_row ?b c)"
    using call(1) by (auto simp: finalize_upd.get_update dest: tbl_get_SomeD)
  have st: "gw_store_get (ce_net_store_get env, ce_py env) (xc_provider_call_id p) (w\<lparr>gw_api := s\<rparr>) = Some cid"
    using stored(1) by (simp add: gw_store_get_def split: option.splits)
  obtain ss d where get: "session_get (ce_net_session_get env) (ce_py env) cid (gw_sessions w) = (ss, d)" by force
  have gone: "ss_mem ss cid = None" if "d = None"
    using get that by (auto simp: session_get_def split: option.splits)
  show ?thesis
    using gateway_callback_fresh [OF cfg(2,3) rec] ev start_not_end [OF ev] st stored(2) net fin row get gone
      store_get_delete [OF net(2)] reason
    by (auto simp: dispatch_event_def end_event_def production_deps_def on_gw_api_def on_gw_sessions_def
        Let_def finalize_row_def session_remove_def split: option.splits)
qed

definition demo_live :: gw_world where
  "demo_live = fst (gateway_callback demo_gw_tokens (demo_env Delivered) (demo_query ''answered'' ''x'') demo_gw)"

definition demo_env_end :: callback_env where
  "demo_env_end = (demo_env Delivered)\<lparr>ce_job_uuid := ''j2'', ce_py := 90\<rparr>"

lemma ended_call_is_finalized_example:
  "\<exists>w'. gateway_callback demo_gw_tokens demo_env_end (demo_query ''terminal'' ''no-answer'') demo_live
      = (w', reply ''session_cleaned'' ''c1'')
    \<and> map_option (\<lambda>c. (call_state c, call_connection c, call_end_reason c))
        (tbl_get call_id (t_calls (db (gw_api w'))) ''c1'') = Some (Call_failed, Failed_pre_connect, Some ''provider_failure'')"
proof -
  let ?a = "record_env_of demo_gw_tokens demo_env_end (demo_payload ''terminal'' ''no-answer'')"
  let ?k = "event_key (demo_payload ''terminal'' ''no-answer'')"
  let ?s = "fst (http_record ?a ?k (gw_api demo_live))"
  have rec: "http_record ?a ?k (gw_api demo_live) = (?s, Some False)"
    by (rule prod_eqI) (simp, code_simp)
  have h: "gw_trusted demo_gw_tokens"
    "verify_webhook_token (gt_webhook_token demo_gw_tokens) (demo_query ''terminal'' ''no-answer'') = Inr ()"
    "py_lower (xc_event (demo_payload ''terminal'' ''no-answer'')) \<in> set END_EVENTS"
    "gw_store_get (ce_net_store_get demo_env_end, ce_py demo_env_end)
       (xc_provider_call_id (demo_payload ''terminal'' ''no-answer'')) demo_live = Some ''c1''" "''c1'' \<noteq> []"
    "ce_net_finalize demo_env_end = Delivered" "ce_net_store_write demo_env_end \<noteq> RequestLost"
    "is_failure (demo_payload ''terminal'' ''no-answer'')"
    by code_simp+
  let ?c = "new_call 50 \<lparr>cc_call_id = ''c1'', cc_tenant_id = ''7'', cc_agent_id = ''bot'', cc_started_at = 60,
         cc_provider_call_id = Some ''P1'', cc_is_simulation = False\<rparr>"
  have c: "tbl_get call_id (t_calls (db ?s)) ''c1'' = Some ?c" "call_ended_at ?c = None" "call_widths ?c"
    by code_simp+
  from ended_call_is_finalized [OF h(1,2) demo_parse(3) rec h(3-5) c h(6,7) refl, of "(Delivered, 0)"]
  obtain w' where w': "gateway_callback demo_gw_tokens demo_env_end (demo_query ''terminal'' ''no-answer'') demo_live
      = (w', reply ''session_cleaned'' ''c1'')"
    "tbl_get call_id (t_calls (db (gw_api w'))) ''c1'' =
        Some (?c\<lparr>call_ended_at := Some (ce_py demo_env_end), call_end_reason := Some ''provider_failure'',
                call_state := fst (end_state ''provider_failure''), call_connection := snd (end_state ''provider_failure'')\<rparr>)"
    using h(8) by auto
  then show ?thesis by (intro exI [of _ w']) (simp add: end_state_def END_REASON_MAP_def)
qed

text \<open>C16. Recording comes before processing, so a delivery that fails afterwards is not repaired by
  the provider's retry: when the event was recorded as new but the call creation is lost, the
  gateway answers 503 with no call created; the retry, with the network working again, is answered
  \<open>duplicate\<close> and creates nothing either.\<close>

theorem failed_start_is_not_retried:
  assumes cfg: "gw_trusted cfg" "verify_webhook_token (gt_webhook_token cfg) q = Inr ()" "parse_callback q = Some p"
    and inv: "jobs_inv (gw_api w)"
    and rec: "http_record (record_env_of cfg env p) (event_key p) (gw_api w) = (s, Some False)"
    and ev: "py_lower (xc_event p) \<in> set START_EVENTS" "xc_dialed_number p = Some num" "num \<noteq> []"
    and route: "\<not> ce_dev_routing env" "tbl_get pr_number (t_phone_number_routes (db s)) num = Some route"
    and net: "ce_net_resolve env = Delivered" "ce_net_create env = RequestLost"
    and retry: "http_record (record_env_of cfg env' p) (event_key p) s = (s', Some b)"
  shows "gateway_callback cfg env q w =
      (w\<lparr>gw_api := s\<rparr>, Inl (HTTPException 503 ''internal call creation unavailable''))
    \<and> t_calls (db s) = t_calls (db (gw_api w))
    \<and> (\<exists>cid. gateway_callback cfg env' q (w\<lparr>gw_api := s\<rparr>) = (w\<lparr>gw_api := s\<rparr>, reply ''duplicate'' cid))"
proof -
  have res: "routing_resolve cfg Delivered num s = Inr (pr_tenant_id route, pr_agent_id route)"
    using cfg(1) route(2)
    by (simp add: routing_resolve_def internal_request_delivered get_phone_route_def)
  have lost: "calls_create cfg RequestLost now c s = (s, Inl calls_error)" for now c
    by (simp add: calls_create_def internal_request_def)
  have "gateway_callback cfg env q w =
      (w\<lparr>gw_api := s\<rparr>, Inl (HTTPException 503 ''internal call creation unavailable''))"
    using gateway_callback_fresh [OF cfg(2,3) rec] ev route(1) net res lost
    by (simp add: dispatch_event_def start_event_def production_deps_def on_gw_api_def)
  moreover have "t_calls (db s) = t_calls (db (gw_api w))"
    by (rule http_record_calls [OF rec])
  moreover have "event_key p \<in> recorded_events s" "jobs_inv s"
    using http_recorder.record_answer [OF inv rec] http_recorder.record_ok [OF inv, of "record_env_of cfg env p" "event_key p"] rec
    by auto
  then have dup: "b" "s' = s"
    using http_recorder.record_answer [OF _ retry] http_recorder.record_known [of s "event_key p" "record_env_of cfg env' p"] retry
    by auto
  have "\<exists>cid. gateway_callback cfg env' q (w\<lparr>gw_api := s\<rparr>) = (w\<lparr>gw_api := s\<rparr>, reply ''duplicate'' cid)"
  proof -
    obtain w1 a where r: "rd_record (production_deps cfg env') (xc_provider_call_id p)
        (py_lower (xc_event p)) (event_payload p) (w\<lparr>gw_api := s\<rparr>) = (w1, a)" by force
    from callback_record [OF r] retry dup have "w1 = w\<lparr>gw_api := s\<rparr>" "a = Inr True" by (auto split: sum.splits)
    with r cfg(2,3) show ?thesis by (auto simp: gateway_callback_def callback_def)
  qed
  ultimately show ?thesis by blast
qed

theorem failed_start_is_not_retried_witness:
  "\<exists>cid. snd (gateway_callback demo_gw_tokens (demo_env Delivered) (demo_query ''answered'' ''x'')
      (demo_gw\<lparr>gw_api := fst (http_record
         (record_env_of demo_gw_tokens (demo_env RequestLost) (demo_payload ''answered'' ''x''))
         (event_key (demo_payload ''answered'' ''x'')) (gw_api demo_gw))\<rparr>)) = reply ''duplicate'' cid"
proof -
  let ?a = "\<lambda>n. record_env_of demo_gw_tokens (demo_env n) (demo_payload ''answered'' ''x'')"
  let ?k = "event_key (demo_payload ''answered'' ''x'')"
  let ?s = "fst (http_record (?a RequestLost) ?k (gw_api demo_gw))"
  let ?rt = "\<lparr>pr_number = ''+91'', pr_tenant_id = ''7'', pr_agent_id = ''bot'', pr_provider = None, pr_created_at = 0\<rparr>"
  have rec: "http_record (?a RequestLost) ?k (gw_api demo_gw) = (?s, Some False)"
    by (rule prod_eqI) (simp, code_simp)
  have again: "http_record (?a Delivered) ?k ?s = (fst (http_record (?a Delivered) ?k ?s), Some True)"
    by (rule prod_eqI) (simp, code_simp)
  have h: "gw_trusted demo_gw_tokens"
    "verify_webhook_token (gt_webhook_token demo_gw_tokens) (demo_query ''answered'' ''x'') = Inr ()"
    "py_lower (xc_event (demo_payload ''answered'' ''x'')) \<in> set START_EVENTS"
    "xc_dialed_number (demo_payload ''answered'' ''x'') = Some ''+91''" "''+91'' \<noteq> []"
    "\<not> ce_dev_routing (demo_env RequestLost)"
    "ce_net_resolve (demo_env RequestLost) = Delivered" "ce_net_create (demo_env RequestLost) = RequestLost"
    by code_simp+
  have t: "tbl_get pr_number (t_phone_number_routes (db ?s)) ''+91'' = Some ?rt" by code_simp
  from failed_start_is_not_retried [OF h(1,2) demo_parse(1) demo_gw_inv rec h(3-6) t h(7,8) again]
  show ?thesis by auto
qed

end
