(* ===== verification/WavFile.thy ===== *)
theory WavFile
  imports Prelude "HOL-Library.Word"
begin

text \<open>
  WAV files, as \<^verbatim>\<open>tts_provider.py\<close> writes them (\<open>wrap_wav\<close>) and reads back what the speech engine has
  written (\<^verbatim>\<open>wave.open\<close> in \<open>synthesize\<close>, on a file that may still be growing). The two sides of Python's
  \<^verbatim>\<open>wave\<close> module are modelled as far as this code uses them: a writer of one block of frames, and a reader
  that follows the chunks of the file. Sizes are 16- and 32-bit little-endian numbers.
\<close>

type_synonym bytes = "8 word list"

section \<open>Little-endian numbers\<close>

fun le_bytes :: "nat \<Rightarrow> nat \<Rightarrow> bytes" where
  "le_bytes 0 n = []"
| "le_bytes (Suc k) n = word_of_nat n # le_bytes k (n div 256)"

fun le_value :: "bytes \<Rightarrow> nat" where
  "le_value [] = 0"
| "le_value (b # bs) = unat b + 256 * le_value bs"

text \<open>\<^verbatim>\<open>struct.pack\<close> of one number raises when it does not fit.\<close>

definition fits :: "nat \<Rightarrow> nat \<Rightarrow> bool" where
  "fits k n = (n < 256 ^ k)"

lemma length_le_bytes [simp]: "length (le_bytes k n) = k"
  by (induction k arbitrary: n) auto

lemma unat_byte: "unat (word_of_nat n :: 8 word) = n mod 256"
  by (simp add: unat_of_nat)

lemma le_roundtrip: "fits k n \<Longrightarrow> le_value (le_bytes k n) = n"
proof (induction k arbitrary: n)
  case (Suc k)
  then have "fits k (n div 256)" by (simp add: fits_def less_mult_imp_div_less mult.commute)
  with Suc.IH show ?case by (simp add: unat_byte)
qed (simp add: fits_def)

definition ascii :: "string \<Rightarrow> bytes" where
  "ascii s = map (\<lambda>c. word_of_nat (of_char c)) s"

lemma length_ascii [simp]: "length (ascii s) = length s"
  by (simp add: ascii_def)

section \<open>Writing\<close>

definition WAVE_FORMAT_PCM :: nat where "WAVE_FORMAT_PCM = 1"

definition wave_header :: "nat \<Rightarrow> nat \<Rightarrow> nat \<Rightarrow> nat \<Rightarrow> bytes" where
  "wave_header channels width rate datalength =
     ascii ''RIFF'' @ le_bytes 4 (36 + datalength) @ ascii ''WAVE'' @ ascii ''fmt '' @ le_bytes 4 16
     @ le_bytes 2 WAVE_FORMAT_PCM @ le_bytes 2 channels @ le_bytes 4 rate @ le_bytes 4 (channels * rate * width)
     @ le_bytes 2 (channels * width) @ le_bytes 2 (width * 8) @ ascii ''data'' @ le_bytes 4 datalength"

definition header_fits :: "nat \<Rightarrow> nat \<Rightarrow> nat \<Rightarrow> nat \<Rightarrow> bool" where
  "header_fits channels width rate datalength =
     (fits 4 (36 + datalength) \<and> fits 2 channels \<and> fits 4 rate \<and> fits 4 (channels * rate * width)
      \<and> fits 2 (channels * width) \<and> fits 2 (width * 8))"

text \<open>
  \<^verbatim>\<open>writeframes\<close> on a new file: the header announces the whole frames of the data; when the data ends
  within a frame the two lengths are patched afterwards.
\<close>

definition patch_header :: "bytes \<Rightarrow> nat \<Rightarrow> bytes" where
  "patch_header h written = take 4 h @ le_bytes 4 (36 + written) @ take 32 (drop 8 h) @ le_bytes 4 written"

definition writeframes :: "nat \<Rightarrow> nat \<Rightarrow> nat \<Rightarrow> bytes \<Rightarrow> bytes option" where
  "writeframes channels width rate frames =
     (let datalength = length frames div (channels * width) * channels * width;
          h = wave_header channels width rate datalength
      in if \<not> header_fits channels width rate datalength then None
         else if datalength = length frames then Some (h @ frames)
         else if \<not> fits 4 (36 + length frames) then None
         else Some (patch_header h (length frames) @ frames))"

text \<open>A frame rate that is not positive is refused; \<open>None\<close> stands for the exceptions of the module.\<close>

definition wrap_wav :: "bytes \<Rightarrow> int \<Rightarrow> bytes option" where
  "wrap_wav pcm16_mono sample_rate =
     (if sample_rate \<le> 0 then None else writeframes 1 2 (nat sample_rate) pcm16_mono)"

section \<open>Reading\<close>

text \<open>The outer chunk: the file, the position in it, the announced size and what was read of it.\<close>

record riff =
  rf_data :: bytes
  rf_pos :: nat
  rf_size :: nat
  rf_count :: nat

text \<open>A read at the end of a chunk of odd size also takes the byte that pads it.\<close>

definition riff_read :: "nat \<Rightarrow> riff \<Rightarrow> bytes \<times> riff" where
  "riff_read n r =
     (if rf_size r \<le> rf_count r then ([], r)
      else let got = take (min n (rf_size r - rf_count r)) (drop (rf_pos r) (rf_data r));
               r1 = r\<lparr>rf_pos := rf_pos r + length got, rf_count := rf_count r + length got\<rparr>;
               pad = length (take 1 (drop (rf_pos r1) (rf_data r1)))
           in (got, if rf_count r1 = rf_size r \<and> odd (rf_size r)
                    then r1\<lparr>rf_pos := rf_pos r1 + pad, rf_count := rf_count r1 + pad\<rparr> else r1))"

record chunk =
  ck_name :: bytes
  ck_size :: nat
  ck_count :: nat

text \<open>Opening the next chunk; \<open>None\<close> is \<open>EOFError\<close>.\<close>

definition chunk_open :: "riff \<Rightarrow> (chunk \<times> riff) option" where
  "chunk_open r =
     (case riff_read 4 r of (name, r1) \<Rightarrow>
        if length name < 4 then None
        else case riff_read 4 r1 of (sz, r2) \<Rightarrow>
          if length sz < 4 then None else Some (\<lparr>ck_name = name, ck_size = le_value sz, ck_count = 0\<rparr>, r2))"

definition chunk_read :: "nat \<Rightarrow> chunk \<Rightarrow> riff \<Rightarrow> bytes \<times> chunk \<times> riff" where
  "chunk_read n c r =
     (if ck_size c \<le> ck_count c then ([], c, r)
      else case riff_read (min n (ck_size c - ck_count c)) r of (got, r1) \<Rightarrow>
        let c1 = c\<lparr>ck_count := ck_count c + length got\<rparr>
        in if ck_count c1 = ck_size c \<and> odd (ck_size c)
           then (case riff_read 1 r1 of (pad, r2) \<Rightarrow> (got, c1\<lparr>ck_count := ck_count c1 + length pad\<rparr>, r2))
           else (got, c1, r1))"

text \<open>Skipping the rest of a chunk seeks in the outer one, which raises \<open>RuntimeError\<close> beyond its end (\<open>None\<close>).\<close>

definition chunk_skip :: "chunk \<Rightarrow> riff \<Rightarrow> riff option" where
  "chunk_skip c r =
     (let pos = (ck_size c + ck_size c mod 2 - ck_count c) + rf_count r
      in if rf_size r < pos then None else Some (r\<lparr>rf_pos := 8 + pos, rf_count := pos\<rparr>))"

record wave_format =
  wf_channels :: nat
  wf_rate :: nat
  wf_width :: nat

definition WAVE_FORMAT_EXTENSIBLE :: nat where "WAVE_FORMAT_EXTENSIBLE = 65534"

definition SUBTYPE_PCM :: bytes where
  "SUBTYPE_PCM = [1, 0, 0, 0, 0, 0, 16, 0, 128, 0, 0, 170, 0, 56, 155, 113]"

text \<open>The format chunk; \<open>None\<close> is \<open>EOFError\<close> or \<^verbatim>\<open>wave.Error\<close>.\<close>

definition read_fmt_chunk :: "chunk \<Rightarrow> riff \<Rightarrow> (wave_format \<times> chunk \<times> riff) option" where
  "read_fmt_chunk c r =
     (case chunk_read 14 c r of (b, c1, r1) \<Rightarrow>
        if length b < 14 then None
        else let tag = le_value (take 2 b); channels = le_value (take 2 (drop 2 b)); rate = le_value (take 4 (drop 4 b)) in
        if tag \<noteq> WAVE_FORMAT_PCM \<and> tag \<noteq> WAVE_FORMAT_EXTENSIBLE then None
        else case chunk_read 2 c1 r1 of (w, c2, r2) \<Rightarrow>
          if length w < 2 then None
          else let width = (le_value w + 7) div 8; f = \<lparr>wf_channels = channels, wf_rate = rate, wf_width = width\<rparr> in
          if tag = WAVE_FORMAT_EXTENSIBLE then
            (case chunk_read 8 c2 r2 of (x, c3, r3) \<Rightarrow>
               if length x < 8 then None
               else case chunk_read 16 c3 r3 of (sub, c4, r4) \<Rightarrow>
                 if sub \<noteq> SUBTYPE_PCM \<or> width = 0 \<or> channels = 0 then None else Some (f, c4, r4))
          else if width = 0 \<or> channels = 0 then None
          else Some (f, c2, r2))"

text \<open>
  One look at the output file: not (yet) a WAV file, an exception the caller does not expect, or the
  header and the frames.
\<close>

datatype wav_read =
  Wav_bad | Wav_raises | Wav (wv_rate: int) (wv_channels: int) (wv_width: int) (wv_frames: bytes)

definition read_frames :: "wave_format \<Rightarrow> chunk \<Rightarrow> riff \<Rightarrow> wav_read" where
  "read_frames f c r =
     (let framesize = wf_channels f * wf_width f; nframes = ck_size c div framesize
      in Wav (int (wf_rate f)) (int (wf_channels f)) (int (wf_width f))
           (if nframes = 0 then [] else fst (chunk_read (nframes * framesize) c r)))"

subsection \<open>The loop over the chunks ends\<close>

lemma riff_read_grows:
  assumes "riff_read n r = (got, r')"
  shows "rf_size r' = rf_size r" "rf_count r \<le> rf_count r'" "got \<noteq> [] \<Longrightarrow> rf_count r < rf_count r' \<and> rf_count r < rf_size r"
  using assms by (auto simp: riff_read_def Let_def split: if_splits)

lemma chunk_read_grows:
  assumes "chunk_read n c r = (got, c', r')"
  shows "rf_size r' = rf_size r" "rf_count r \<le> rf_count r'"
  using assms riff_read_grows
  by (auto simp: chunk_read_def Let_def split: if_splits prod.splits) (metis order_trans)+

lemma chunk_open_grows:
  assumes "chunk_open r = Some (c, r')"
  shows "rf_size r' = rf_size r" "rf_count r < rf_count r'" "rf_count r < rf_size r"
proof -
  obtain name r1 sz where n: "riff_read 4 r = (name, r1)" "riff_read 4 r1 = (sz, r')" "\<not> length name < 4"
    using assms by (auto simp: chunk_open_def split: prod.splits if_splits)
  then have "name \<noteq> []" by auto
  with riff_read_grows [OF n(1)] riff_read_grows [OF n(2)]
  show "rf_size r' = rf_size r" "rf_count r < rf_count r'" "rf_count r < rf_size r" by auto
qed

lemma read_fmt_grows:
  assumes "read_fmt_chunk c r = Some (f, c', r')"
  shows "rf_size r' = rf_size r" "rf_count r \<le> rf_count r'"
  using assms chunk_read_grows
  by (auto simp: read_fmt_chunk_def Let_def split: prod.splits if_splits) (metis order_trans)+

lemma chunk_skip_grows:
  "chunk_skip c r = Some r' \<Longrightarrow> rf_size r' = rf_size r \<and> rf_count r \<le> rf_count r'"
  by (auto simp: chunk_skip_def Let_def split: if_splits)

function wave_chunks :: "wave_format option \<Rightarrow> riff \<Rightarrow> wav_read" where
  "wave_chunks fmt r =
     (case chunk_open r of
        None \<Rightarrow> Wav_bad
      | Some (c, r1) \<Rightarrow>
          if ck_name c = ascii ''fmt '' then
            (case read_fmt_chunk c r1 of
               None \<Rightarrow> Wav_bad
             | Some (f, c2, r2) \<Rightarrow>
                 (case chunk_skip c2 r2 of None \<Rightarrow> Wav_raises | Some r3 \<Rightarrow> wave_chunks (Some f) r3))
          else if ck_name c = ascii ''data'' then
            (case fmt of None \<Rightarrow> Wav_bad | Some f \<Rightarrow> read_frames f c r1)
          else (case chunk_skip c r1 of None \<Rightarrow> Wav_raises | Some r2 \<Rightarrow> wave_chunks fmt r2))"
  by pat_completeness auto

termination
proof (relation "measure (\<lambda>(fmt, r). rf_size r + 1 - rf_count r)", goal_cases)
  case (2 fmt r x c r1 y f z c2 r2 r3)
  then have "rf_count r < rf_count r3" "rf_size r3 = rf_size r" "rf_count r < rf_size r"
    using chunk_open_grows [of r c r1] read_fmt_grows [of c r1 f c2 r2] chunk_skip_grows [of c2 r2 r3] by auto
  then show ?case by simp
next
  case (3 fmt r x c r1 r2)
  then have "rf_count r < rf_count r2" "rf_size r2 = rf_size r" "rf_count r < rf_size r"
    using chunk_open_grows [of r c r1] chunk_skip_grows [of c r1 r2] by auto
  then show ?case by simp
qed simp

declare wave_chunks.simps [simp del]

definition wave_open :: "bytes \<Rightarrow> wav_read" where
  "wave_open file =
     (if length file < 8 then Wav_bad
      else let r = \<lparr>rf_data = file, rf_pos = 8, rf_size = le_value (take 4 (drop 4 file)), rf_count = 0\<rparr>
           in if take 4 file \<noteq> ascii ''RIFF'' then Wav_bad
              else case riff_read 4 r of (name, r1) \<Rightarrow>
                if name \<noteq> ascii ''WAVE'' then Wav_bad else wave_chunks None r1)"

section \<open>Reading what was written\<close>

lemma length_header [simp]: "length (wave_header channels width rate n) = 44"
  by (simp add: wave_header_def)

lemma patch_header: "patch_header (wave_header channels width rate m) n = wave_header channels width rate n"
  by (simp add: patch_header_def wave_header_def)

lemma wrap_wav_file:
  assumes "wrap_wav pcm rate = Some file"
  shows "file = wave_header 1 2 (nat rate) (length pcm) @ pcm" "0 < rate" "fits 4 (nat rate)" "fits 4 (36 + length pcm)"
  using assms by (auto simp: wrap_wav_def writeframes_def Let_def patch_header header_fits_def split: if_splits)

text \<open>The reader walks over the header: the format chunk, then the data chunk.\<close>

lemma fits_numbers: "fits 4 16" "fits 2 (Suc 0)" "fits 2 2" "fits 2 16"
  by (simp_all add: fits_def)

lemma ascii_names: "ascii ''fmt '' \<noteq> ascii ''data''"
  by code_simp

definition header_riff :: "nat \<Rightarrow> nat \<Rightarrow> bytes \<Rightarrow> nat \<Rightarrow> riff" where
  "header_riff rate n xs pos = \<lparr>rf_data = wave_header 1 2 rate n @ xs, rf_pos = 8 + pos, rf_size = 36 + n, rf_count = pos\<rparr>"

lemma header_read:
  assumes "pos + k \<le> 36" "0 < k"
  shows "riff_read k (header_riff rate n xs pos) =
    (take k (drop (8 + pos) (wave_header 1 2 rate n)), header_riff rate n xs (pos + k))"
  using assms by (auto simp: riff_read_def header_riff_def Let_def)

lemma open_fmt:
  "chunk_open (header_riff rate n xs 4) = Some (\<lparr>ck_name = ascii ''fmt '', ck_size = 16, ck_count = 0\<rparr>, header_riff rate n xs 12)"
  by (simp add: chunk_open_def header_read wave_header_def le_roundtrip fits_numbers)

lemma read_fmt:
  assumes "fits 4 rate"
  shows "read_fmt_chunk \<lparr>ck_name = ascii ''fmt '', ck_size = 16, ck_count = 0\<rparr> (header_riff rate n xs 12) =
    Some (\<lparr>wf_channels = Suc 0, wf_rate = rate, wf_width = 2\<rparr>, \<lparr>ck_name = ascii ''fmt '', ck_size = 16, ck_count = 16\<rparr>,
      header_riff rate n xs 28)"
  using assms
  by (simp add: read_fmt_chunk_def chunk_read_def header_read wave_header_def Let_def le_roundtrip fits_numbers
      WAVE_FORMAT_PCM_def WAVE_FORMAT_EXTENSIBLE_def)

lemma skip_fmt:
  "chunk_skip \<lparr>ck_name = ascii ''fmt '', ck_size = 16, ck_count = 16\<rparr> (header_riff rate n xs 28) = Some (header_riff rate n xs 28)"
  by (simp add: chunk_skip_def header_riff_def)

lemma open_data:
  assumes "fits 4 n"
  shows "chunk_open (header_riff rate n xs 28) =
    Some (\<lparr>ck_name = ascii ''data'', ck_size = n, ck_count = 0\<rparr>, header_riff rate n xs 36)"
  using assms by (simp add: chunk_open_def header_read wave_header_def le_roundtrip)

lemma fst_chunk_read:
  "ck_count c < ck_size c \<Longrightarrow> fst (chunk_read k c r) = fst (riff_read (min k (ck_size c - ck_count c)) r)"
  by (simp add: chunk_read_def Let_def split: prod.split)

lemma data_read: "k \<le> n \<Longrightarrow> fst (riff_read k (header_riff rate n xs 36)) = take k xs"
  by (simp add: riff_read_def header_riff_def Let_def)

lemma read_data:
  "read_frames \<lparr>wf_channels = Suc 0, wf_rate = rate, wf_width = 2\<rparr> \<lparr>ck_name = ascii ''data'', ck_size = n, ck_count = 0\<rparr>
     (header_riff rate n xs 36) = Wav (int rate) 1 2 (take (n div 2 * 2) xs)"
proof (cases "n div 2 = 0")
  case True
  then show ?thesis by (simp add: read_frames_def)
next
  case False
  then have "0 < n" "min (n div 2 * 2) n = n div 2 * 2" by auto
  with False show ?thesis by (simp add: read_frames_def fst_chunk_read data_read)
qed

lemma open_header:
  assumes "fits 4 rate" "fits 4 (36 + n)"
  shows "wave_open (wave_header 1 2 rate n @ xs) = Wav (int rate) 1 2 (take (n div 2 * 2) xs)"
proof -
  have n: "fits 4 n" using assms(2) by (simp add: fits_def)
  have size: "le_value (take 4 (drop 4 (wave_header 1 2 rate n @ xs))) = 36 + n"
    using assms(2) by (simp add: wave_header_def le_roundtrip)
  have magic: "take 4 (wave_header 1 2 rate n @ xs) = ascii ''RIFF''" by (simp add: wave_header_def)
  have first: "riff_read 4 (header_riff rate n xs 0) = (ascii ''WAVE'', header_riff rate n xs 4)"
    by (simp add: header_read wave_header_def)
  have "wave_chunks None (header_riff rate n xs 4) = Wav (int rate) 1 2 (take (n div 2 * 2) xs)"
    by (simp add: wave_chunks.simps [of None] wave_chunks.simps [of "Some f" for f] open_fmt read_fmt [OF assms(1)]
        skip_fmt open_data [OF n] ascii_names [symmetric] read_data)
  with size magic first show ?thesis by (simp add: wave_open_def header_riff_def [of _ _ _ 0, symmetric, simplified])
qed

lemma wrap_wav_succeeds:
  assumes "0 < rate" "rate < 2 ^ 31" "length pcm < 2 ^ 32 - 36"
  shows "wrap_wav pcm rate = Some (wave_header 1 2 (nat rate) (length pcm) @ pcm)"
proof -
  have "length pcm div 2 * 2 \<le> length pcm" by simp
  then have "length pcm div 2 * 2 < 2 ^ 32 - 36" using assms(3) by linarith
  moreover have "nat rate < 2 ^ 31" using assms(1,2) by (simp add: nat_less_iff)
  ultimately have "header_fits 1 2 (nat rate) (length pcm div 2 * 2)" "fits 4 (36 + length pcm)"
    using assms by (simp_all add: header_fits_def fits_def)
  with assms(1) show ?thesis by (simp add: wrap_wav_def writeframes_def Let_def patch_header)
qed

text \<open>C39. What is written as a WAV file is read back: for a positive rate below \<open>2^31\<close> and audio that fits
  32-bit sizes, \<open>wrap_wav\<close> makes a file of 44 bytes more than the audio; reading it gives the rate, one
  channel, two bytes per sample, and the audio up to its last whole sample. Of a file of which only
  the first \<open>n\<close> bytes have been written, header included, the reader accepts the samples that are
  there, without an error.\<close>

theorem wav_roundtrip:
  assumes "0 < rate" "rate < 2 ^ 31" "length pcm < 2 ^ 32 - 36"
  shows "\<exists>file. wrap_wav pcm rate = Some file \<and> length file = 44 + length pcm
    \<and> wave_open file = Wav rate 1 2 (take (length pcm div 2 * 2) pcm)
    \<and> (\<forall>n. 44 \<le> n \<longrightarrow> wave_open (take n file) = Wav rate 1 2 (take (min (length pcm div 2 * 2) (n - 44)) pcm))"
proof -
  let ?h = "wave_header 1 2 (nat rate) (length pcm)"
  have f: "fits 4 (nat rate)" "fits 4 (36 + length pcm)" using assms by (simp_all add: fits_def nat_less_iff)
  have r: "int (nat rate) = rate" using assms(1) by simp
  have "wave_open (take n (?h @ pcm)) = Wav rate 1 2 (take (min (length pcm div 2 * 2) (n - 44)) pcm)" if "44 \<le> n" for n
    using open_header [OF f, of "take (n - 44) pcm"] that r by (simp add: min.commute)
  with wrap_wav_succeeds [OF assms] open_header [OF f, of pcm] r show ?thesis by (intro exI [of _ "?h @ pcm"]) simp
qed

theorem wav_roundtrip_witness:
  "\<exists>file. wrap_wav [1, 2, 3, 4] 16000 = Some file \<and> wave_open file = Wav 16000 1 2 [1, 2, 3, 4]
     \<and> wave_open (take 46 file) = Wav 16000 1 2 [1, 2]"
proof -
  from wav_roundtrip [of 16000 "[1, 2, 3, 4]"] obtain f where
    "wrap_wav [1, 2, 3, 4] 16000 = Some f" "wave_open f = Wav 16000 1 2 [1, 2, 3, 4]"
    "\<forall>n. 44 \<le> n \<longrightarrow> wave_open (take n f) = Wav 16000 1 2 (take (min 4 (n - 44)) [1, 2, 3, 4])" by auto
  then show ?thesis by (intro exI [of _ f]) (simp add: numeral_2_eq_2)
qed

end
