(* ===== verification/Dialogue.thy ===== *)
theory Dialogue
  imports WavFile
begin

text \<open>
  What the caller hears: the rule-based responder of \<^verbatim>\<open>services/voice-gateway/ai_provider.py\<close> with the
  part of Python's regular expressions it uses, and the local providers around the speech models
  (\<^verbatim>\<open>stt_provider.py\<close>, \<^verbatim>\<open>tts_provider.py\<close>). The speech models themselves, faster-whisper and pyttsx3, are
  parameters.
\<close>

section \<open>Keyword patterns\<close>

text \<open>
  The alternatives of the patterns are literals in which a character may be optional (\<open>x?\<close>) or any
  character but a newline may stand at one place (\<open>.?\<close>). With \<open>re.I\<close> letters match in either case.
\<close>

datatype rx_item = Lit char | OptLit char | OptAny

definition rx_eq :: "char \<Rightarrow> char \<Rightarrow> bool" where
  "rx_eq p c = (char_lower p = char_lower c)"

text \<open>\<open>\w\<close> of a \<open>str\<close> pattern on the code points below 256.\<close>

definition is_word :: "char \<Rightarrow> bool" where
  "is_word c =
     (let n = (of_char c :: nat) in
      48 \<le> n \<and> n \<le> 57 \<or> 65 \<le> n \<and> n \<le> 90 \<or> n = 95 \<or> 97 \<le> n \<and> n \<le> 122
      \<or> n \<in> {170, 178, 179, 181, 185, 186, 188, 189, 190} \<or> 192 \<le> n \<and> n \<noteq> 215 \<and> n \<noteq> 247)"

text \<open>\<open>\b\<close> between the character before a position and the rest of the text.\<close>

definition boundary :: "char option \<Rightarrow> string \<Rightarrow> bool" where
  "boundary prev s =
     ((case prev of None \<Rightarrow> False | Some c \<Rightarrow> is_word c) \<noteq> (case s of [] \<Rightarrow> False | c # _ \<Rightarrow> is_word c))"

text \<open>All ways to match at a position: the last character consumed and the rest.\<close>

fun rx_match :: "rx_item list \<Rightarrow> char option \<Rightarrow> string \<Rightarrow> (char option \<times> string) list" where
  "rx_match [] prev s = [(prev, s)]"
| "rx_match (Lit p # ps) prev s =
     (case s of [] \<Rightarrow> [] | c # cs \<Rightarrow> if rx_eq p c then rx_match ps (Some c) cs else [])"
| "rx_match (OptLit p # ps) prev s =
     (case s of [] \<Rightarrow> [] | c # cs \<Rightarrow> if rx_eq p c then rx_match ps (Some c) cs else []) @ rx_match ps prev s"
| "rx_match (OptAny # ps) prev s =
     (case s of [] \<Rightarrow> [] | c # cs \<Rightarrow> if c \<noteq> CHR 10 then rx_match ps (Some c) cs else []) @ rx_match ps prev s"

text \<open>\<open>\b(a|b|\<dots>)\b\<close> at a position, and \<open>search\<close> over all positions.\<close>

definition rx_at :: "rx_item list list \<Rightarrow> char option \<Rightarrow> string \<Rightarrow> bool" where
  "rx_at alts prev s =
     (boundary prev s \<and> list_ex (\<lambda>alt. list_ex (\<lambda>(p, r). boundary p r) (rx_match alt prev s)) alts)"

fun rx_search_from :: "rx_item list list \<Rightarrow> char option \<Rightarrow> string \<Rightarrow> bool" where
  "rx_search_from alts prev [] = rx_at alts prev []"
| "rx_search_from alts prev (c # cs) = (rx_at alts prev (c # cs) \<or> rx_search_from alts (Some c) cs)"

definition rx_search :: "rx_item list list \<Rightarrow> string \<Rightarrow> bool" where
  "rx_search alts s = rx_search_from alts None s"

definition lits :: "string \<Rightarrow> rx_item list" where
  "lits s = map Lit s"

definition GOODBYE_PATTERN :: "rx_item list list" where
  "GOODBYE_PATTERN =
     [lits ''bye'', lits ''goodbye'', lits ''that'' @ OptLit CHR 39 # lits ''s all'', lits ''hang up'',
      lits ''no more questions'']"

definition CONFIRM_PATTERN :: "rx_item list list" where
  "CONFIRM_PATTERN =
     [lits ''yes'', lits ''yeah'', lits ''yep'', lits ''confirm'', lits ''correct'',
      lits ''that'' @ OptLit CHR 39 # lits ''s right'']"

definition DENY_PATTERN :: "rx_item list list" where
  "DENY_PATTERN = [lits ''no'', lits ''nope'', lits ''not really'', lits ''incorrect'', lits ''wrong'']"

definition DATE_PATTERN :: "rx_item list list" where
  "DATE_PATTERN =
     [lits ''check'' @ OptAny # lits ''in'', lits ''check'' @ OptAny # lits ''out'', lits ''date'', lits ''when'']"

definition HUMAN_PATTERN :: "rx_item list list" where
  "HUMAN_PATTERN = [lits ''human'', lits ''agent'', lits ''person'', lits ''representative'', lits ''manager'']"

section \<open>The responder\<close>

definition MAX_RESPONSE_CHARS :: nat where "MAX_RESPONSE_CHARS = 500"

definition GREETING :: string where
  "GREETING = ''Hello, thank you for calling. This is an automated assistant. How can I help you today?''"

definition GOODBYE :: string where
  "GOODBYE = ''Thank you for calling. Have a great day. Goodbye.''"

definition FALLBACK :: string where
  "FALLBACK = ''I'' @ CHR 39 # ''m sorry, I didn'' @ CHR 39 # ''t quite understand that. Could you say that again?''"

definition CALLBACK_REPLY :: string where
  "CALLBACK_REPLY = ''Sure, I can arrange for a member of our team to call you back shortly. Is there anything else I can help with in the meantime?''"

definition DATES_REPLY :: string where
  "DATES_REPLY = ''I can help with check-in and check-out dates. Could you confirm the dates you'' @ CHR 39 # ''re asking about?''"

definition CONFIRMED_REPLY :: string where
  "CONFIRMED_REPLY = ''Great, thank you for confirming. Is there anything else I can help with?''"

definition DENIED_REPLY :: string where
  "DENIED_REPLY = ''No problem. Could you tell me more about what you'' @ CHR 39 # ''d like to change?''"

text \<open>A conversation turn: its role and its text.\<close>

type_synonym said = "string \<times> string"

definition reply_to :: "string \<Rightarrow> string" where
  "reply_to heard =
     (if heard = [] then FALLBACK
      else if rx_search GOODBYE_PATTERN heard then GOODBYE
      else if rx_search HUMAN_PATTERN heard then CALLBACK_REPLY
      else if rx_search DATE_PATTERN heard then DATES_REPLY
      else if rx_search CONFIRM_PATTERN heard then CONFIRMED_REPLY
      else if rx_search DENY_PATTERN heard then DENIED_REPLY
      else FALLBACK)"

definition local_respond :: "said list \<Rightarrow> string" where
  "local_respond turns =
     (let user_turns = filter (\<lambda>t. fst t = ''user'') turns in
      if user_turns = [] then GREETING
      else take MAX_RESPONSE_CHARS (reply_to (py_strip (snd (last user_turns)))))"

text \<open>\<open>generate_response\<close> turns an exception into \<open>AIError\<close>, the value \<open>None\<close>; the rules raise none.\<close>

definition local_generate_response :: "said list \<Rightarrow> string option" where
  "local_generate_response turns = Some (local_respond turns)"

section \<open>The speech providers\<close>

definition WHISPER_SAMPLE_RATE :: int where "WHISPER_SAMPLE_RATE = 16000"

definition MAX_TRANSCRIBE_BYTES :: int where
  "MAX_TRANSCRIBE_BYTES = 30 * WHISPER_SAMPLE_RATE * 2"

text \<open>
  Loading the model: the package may be missing, and its constructor may raise an exception of its
  own. \<open>loaded\<close> says whether \<open>_model\<close> is set.
\<close>

datatype whisper_load = Not_installed | Load_raises | Loads

datatype stt_exc = STTError string | STT_escaped

definition ensure_model :: "whisper_load \<Rightarrow> bool \<Rightarrow> bool \<times> (stt_exc + unit)" where
  "ensure_model load loaded =
     (if loaded then (loaded, Inr ())
      else case load of
        Not_installed \<Rightarrow> (loaded, Inl (STTError ''faster-whisper is not installed''))
      | Load_raises \<Rightarrow> (loaded, Inl STT_escaped)
      | Loads \<Rightarrow> (True, Inr ()))"

definition preload :: "whisper_load \<Rightarrow> bool \<Rightarrow> bool \<times> (stt_exc + unit)" where
  "preload load loaded = ensure_model load loaded"

text \<open>The start of the gateway: a model that cannot be loaded is a warning.\<close>

definition gateway_lifespan :: "whisper_load \<Rightarrow> bool \<times> bool" where
  "gateway_lifespan load = (case preload load False of (loaded, r) \<Rightarrow> (loaded, isl r))"

text \<open>\<open>transcribe\<close>: \<open>model\<close> is faster-whisper, \<open>None\<close> when it raises.\<close>

definition whisper_transcribe ::
  "whisper_load \<Rightarrow> (bytes \<Rightarrow> string option) \<Rightarrow> bytes \<Rightarrow> int \<Rightarrow> bool \<Rightarrow> bool \<times> (stt_exc + string)" where
  "whisper_transcribe load model audio sample_rate loaded =
     (if audio = [] then (loaded, Inr [])
      else if sample_rate \<noteq> WHISPER_SAMPLE_RATE
      then (loaded, Inl (STTError (''unexpected sample rate '' @ int_str sample_rate @ '', expected ''
                                  @ int_str WHISPER_SAMPLE_RATE)))
      else
        let audio1 = (if MAX_TRANSCRIBE_BYTES < int (length audio) then take (nat MAX_TRANSCRIBE_BYTES) audio else audio)
        in case ensure_model load loaded of
             (loaded1, Inl e) \<Rightarrow> (loaded1, Inl e)
           | (loaded1, Inr _) \<Rightarrow>
               (loaded1, case model audio1 of None \<Rightarrow> Inl (STTError ''speech-to-text failed'')
                         | Some words \<Rightarrow> Inr (py_strip words)))"

text \<open>The model is loaded once: after a successful start nothing but the audio decides.\<close>

lemma loaded_model_stays:
  "fst (whisper_transcribe load model audio rate True) = True"
  "snd (whisper_transcribe load model audio rate True) \<noteq> Inl STT_escaped"
  by (simp_all add: whisper_transcribe_def ensure_model_def Let_def split: option.split)

text \<open>
  A constructor that raises is tolerated at the start and then escapes from every transcription, as
  an exception the caller does not expect: it handles \<open>STTError\<close> only.
\<close>

lemma unloadable_model_escapes:
  assumes "audio \<noteq> []"
  shows "gateway_lifespan Load_raises = (False, True)
    \<and> whisper_transcribe Load_raises model audio WHISPER_SAMPLE_RATE False = (False, Inl STT_escaped)"
  using assms by (simp add: gateway_lifespan_def preload_def ensure_model_def whisper_transcribe_def Let_def)

lemma missing_package_is_typed:
  "audio \<noteq> [] \<Longrightarrow> \<exists>m. snd (whisper_transcribe Not_installed model audio WHISPER_SAMPLE_RATE False) = Inl (STTError m)"
  by (simp add: ensure_model_def whisper_transcribe_def Let_def)

definition MAX_TEXT_CHARS :: nat where "MAX_TEXT_CHARS = 1000"

text \<open>The polling timeout and interval, in milliseconds.\<close>

definition WAV_READY_POLL_TIMEOUT :: int where "WAV_READY_POLL_TIMEOUT = 2000"

definition WAV_READY_POLL_INTERVAL :: int where "WAV_READY_POLL_INTERVAL = 50"

text \<open>
  The polling loop: what the output file holds at each look, with the clock after it; when the looks
  run out it is still polling. An exception that is neither \<open>EOFError\<close> nor \<^verbatim>\<open>wave.Error\<close> ends it.
\<close>

fun poll_wav :: "int \<Rightarrow> (bytes \<times> int) list \<Rightarrow> (wav_read option) option" where
  "poll_wav deadline [] = None"
| "poll_wav deadline ((file, t) # rs) =
     (let r = wave_open file in
      if r = Wav_raises then Some None
      else if r \<noteq> Wav_bad \<and> wv_frames r \<noteq> [] then Some (Some r)
      else if deadline \<le> t then Some None
      else poll_wav deadline rs)"

text \<open>
  \<open>synthesize\<close>: \<open>engine\<close> is pyttsx3 on a text, \<open>None\<close> when it raises, otherwise the clock when the
  loop starts and the looks at the file that follow. The inner \<open>None\<close> is \<open>TTSError\<close>, the outer one that the loop is still polling.
\<close>

definition pyttsx3_synthesize ::
  "(string \<Rightarrow> (int \<times> (bytes \<times> int) list) option) \<Rightarrow> string \<Rightarrow> (bytes \<times> int) option option" where
  "pyttsx3_synthesize engine text0 =
     (let txt1 = py_strip text0 in
      if txt1 = [] then Some None
      else case engine (if MAX_TEXT_CHARS < length txt1 then take MAX_TEXT_CHARS txt1 else txt1) of
        None \<Rightarrow> Some None
      | Some (start, reads) \<Rightarrow>
          map_option (\<lambda>r. case r of
              Some (Wav rate channels width frames) \<Rightarrow>
                if channels \<noteq> 1 \<or> width \<noteq> 2 then None else Some (frames, rate)
            | _ \<Rightarrow> None) (poll_wav (start + WAV_READY_POLL_TIMEOUT) reads))"

section \<open>Facts\<close>

text \<open>The reply is one of seven fixed texts and fits every limit on the way to the caller.\<close>

definition REPLIES :: "string list" where
  "REPLIES = [GREETING, GOODBYE, FALLBACK, CALLBACK_REPLY, DATES_REPLY, CONFIRMED_REPLY, DENIED_REPLY]"

lemma replies_fit: "r \<in> set REPLIES \<Longrightarrow> py_strip r = r \<and> r \<noteq> [] \<and> length r \<le> MAX_RESPONSE_CHARS"
proof -
  have "\<forall>r \<in> set REPLIES. py_strip r = r \<and> r \<noteq> [] \<and> length r \<le> MAX_RESPONSE_CHARS" by code_simp
  then show "r \<in> set REPLIES \<Longrightarrow> py_strip r = r \<and> r \<noteq> [] \<and> length r \<le> MAX_RESPONSE_CHARS" by blast
qed

lemma reply_to_in: "reply_to heard \<in> set REPLIES"
  by (simp add: reply_to_def REPLIES_def)

lemma local_respond_in: "local_respond turns \<in> set REPLIES"
proof (cases "filter (\<lambda>t. fst t = ''user'') turns = []")
  case True
  then show ?thesis by (simp add: local_respond_def REPLIES_def)
next
  case False
  let ?r = "reply_to (py_strip (snd (last (filter (\<lambda>t. fst t = ''user'') turns))))"
  have "take MAX_RESPONSE_CHARS ?r = ?r" using replies_fit [OF reply_to_in] by simp
  with False show ?thesis by (simp add: local_respond_def Let_def reply_to_in)
qed

lemma local_respond_user:
  "local_respond (turns @ [(''user'', heard)]) = reply_to (py_strip heard)"
  using replies_fit [OF reply_to_in] by (simp add: local_respond_def)

text \<open>Polling ends: the clock advances by at least the interval between two reads.\<close>

lemma poll_wav_stuck:
  "poll_wav deadline rs = None \<Longrightarrow> (r, t) \<in> set rs \<Longrightarrow> t < deadline"
  by (induction rs) (auto simp: Let_def split: if_splits)

lemma poll_wav_ends:
  assumes "\<And>i. i < length rs \<Longrightarrow> start + WAV_READY_POLL_INTERVAL * int i \<le> snd (rs ! i)" "40 < length rs"
  shows "poll_wav (start + WAV_READY_POLL_TIMEOUT) rs \<noteq> None"
proof
  assume stuck: "poll_wav (start + WAV_READY_POLL_TIMEOUT) rs = None"
  have "(fst (rs ! 40), snd (rs ! 40)) \<in> set rs" using assms(2) by simp
  then have "snd (rs ! 40) < start + WAV_READY_POLL_TIMEOUT" by (rule poll_wav_stuck [OF stuck])
  with assms(1) [OF assms(2)] show False by (simp add: WAV_READY_POLL_TIMEOUT_def WAV_READY_POLL_INTERVAL_def)
qed

text \<open>
  The loop takes the first look that shows any frame for the whole file: when the driver is still
  writing, the caller hears the part that is there.
\<close>

lemma growing_file_is_cut_short:
  assumes "0 < rate" "rate < 2 ^ 31" "length pcm < 2 ^ 32 - 36" "wrap_wav pcm rate = Some file"
    and "py_strip words = words" "words \<noteq> []" "length words \<le> MAX_TEXT_CHARS"
    and "engine words = Some (start, (take n file, t) # looks)" "46 \<le> n" "2 \<le> length pcm"
  shows "pyttsx3_synthesize engine words = Some (Some (take (min (length pcm div 2 * 2) (n - 44)) pcm, rate))"
proof -
  from open_header [of "nat rate" "length pcm" "take (n - 44) pcm"] assms(1-3)
  have "wave_open (take n (wave_header 1 2 (nat rate) (length pcm) @ pcm))
      = Wav rate 1 2 (take (min (length pcm div 2 * 2) (n - 44)) pcm)"
    using assms(1,9) by (simp add: fits_def min.commute nat_less_iff)
  then have "wave_open (take n file) = Wav rate 1 2 (take (min (length pcm div 2 * 2) (n - 44)) pcm)"
    using wrap_wav_succeeds [OF assms(1-3)] assms(4) by simp
  moreover have "take (min (length pcm div 2 * 2) (n - 44)) pcm \<noteq> []" using assms(9,10) by auto
  ultimately show ?thesis using assms(5-8) by (simp add: pyttsx3_synthesize_def Let_def)
qed

end
