(* ===== verification/Conversation.thy ===== *)
theory Conversation
  imports Dialogue Sessions "HOL-Library.Sublist"
begin

text \<open>
  The conversation pipeline of \<^verbatim>\<open>services/voice-gateway/conversation.py\<close>: three processors connected one
  after the other. The first cuts the caller's audio into turns and has each transcribed, the second
  answers a turn from the call's history in the session store, the third speaks the answer.

  A frame processor takes one frame and its state and pushes a list of frames. What happens outside
  during that step is in a record: the speech and language providers' answers (\<open>None\<close> when they raise
  their error), the clock and the outcomes of the Redis round trips.
\<close>

section \<open>Frames and processors\<close>

datatype frame =
    InputAudioRawFrame bytes
  | TranscriptionFrame string
  | TextFrame string
  | OutputAudioRawFrame bytes int
  | StartFrame
  | EndFrame
  | CancelFrame
  | OtherFrame string

record provider_env =
  pe_transcribe :: "bytes \<Rightarrow> int \<Rightarrow> string option"
  pe_generate :: "said list \<Rightarrow> string option"
  pe_synthesize :: "string \<Rightarrow> (bytes \<times> int) option"
  pe_now :: datetime
  pe_get :: net
  pe_set :: net

section \<open>The turn detector\<close>

text \<open>
  The thresholds and the loudness test. numpy computes the root mean square of the samples in single
  precision; \<open>tc_below\<close> is its comparison with the threshold on a nonempty even number of bytes.
\<close>

record turn_config =
  tc_below :: "bytes \<Rightarrow> bool"
  tc_silence_frames :: nat
  tc_max_bytes :: nat

definition default_turn_config :: "(bytes \<Rightarrow> bool) \<Rightarrow> turn_config" where
  "default_turn_config below =
     \<lparr>tc_below = below, tc_silence_frames = 15, tc_max_bytes = nat (20 * WHISPER_SAMPLE_RATE * 2)\<rparr>"

text \<open>\<open>len(samples)\<close> is zero for no bytes, and the energy is then 0.0, below any positive threshold.\<close>

definition is_silent :: "turn_config \<Rightarrow> bytes \<Rightarrow> bool" where
  "is_silent cfg audio = (audio = [] \<or> tc_below cfg audio)"

record stt_state =
  st_buffer :: bytes
  st_silence_run :: nat
  st_speaking :: bool

definition stt_init :: stt_state where
  "stt_init = \<lparr>st_buffer = [], st_silence_run = 0, st_speaking = False\<rparr>"

text \<open>\<open>_handle_audio\<close>: the new state, and the buffered audio when the turn is flushed.\<close>

definition handle_audio :: "turn_config \<Rightarrow> bytes \<Rightarrow> stt_state \<Rightarrow> stt_state \<times> bytes option" where
  "handle_audio cfg audio s =
     (let flush = (\<lambda>s'. (stt_init, Some (st_buffer s')));
          check = (\<lambda>s'. if tc_max_bytes cfg \<le> length (st_buffer s') then flush s' else (s', None))
      in if \<not> is_silent cfg audio
         then check (s\<lparr>st_speaking := True, st_silence_run := 0, st_buffer := st_buffer s @ audio\<rparr>)
         else if st_speaking s
         then let s' = s\<lparr>st_silence_run := st_silence_run s + 1, st_buffer := st_buffer s @ audio\<rparr>
              in if tc_silence_frames cfg \<le> st_silence_run s' then flush s' else check s'
         else check s)"

text \<open>\<open>_flush_turn\<close> after the state is reset: the audio's transcription, if there is anything to push.\<close>

definition flush_turn :: "provider_env \<Rightarrow> bytes \<Rightarrow> frame list" where
  "flush_turn env audio =
     (if audio = [] then []
      else case pe_transcribe env audio WHISPER_SAMPLE_RATE of
        None \<Rightarrow> []
      | Some txt1 \<Rightarrow> let txt2 = py_strip txt1 in if txt2 = [] then [] else [TranscriptionFrame txt2])"

text \<open>An odd number of bytes makes \<open>frombuffer\<close> raise before anything changed; the frame is lost.\<close>

fun stt_process :: "turn_config \<Rightarrow> provider_env \<Rightarrow> frame \<Rightarrow> stt_state \<Rightarrow> stt_state \<times> frame list" where
  "stt_process cfg env (InputAudioRawFrame audio) s =
     (if odd (length audio) then (s, [])
      else case handle_audio cfg audio s of
        (s', None) \<Rightarrow> (s', [])
      | (s', Some turn_audio) \<Rightarrow> (s', flush_turn env turn_audio))"
| "stt_process cfg env EndFrame s = (s\<lparr>st_buffer := []\<rparr>, [EndFrame])"
| "stt_process cfg env CancelFrame s = (s\<lparr>st_buffer := []\<rparr>, [CancelFrame])"
| "stt_process cfg env f s = (s, [f])"

section \<open>The responder\<close>

definition APOLOGY :: string where
  "APOLOGY = ''I'' @ CHR 39 # ''m sorry, something went wrong on my end. Could you repeat that?''"

record ai_state =
  ai_greeted :: bool
  ai_sessions :: session_state

definition said_of :: "turn \<Rightarrow> said" where
  "said_of t = (tu_role t, tu_text t)"

definition add_turn :: "provider_env \<Rightarrow> string \<Rightarrow> string \<Rightarrow> string \<Rightarrow> session_state \<Rightarrow> session_state" where
  "add_turn env cid role txt1 = session_add_turn (pe_get env) (pe_set env) (pe_now env) cid role txt1"

definition respond :: "provider_env \<Rightarrow> string \<Rightarrow> said list \<Rightarrow> session_state \<Rightarrow> session_state \<times> frame list" where
  "respond env cid turns s =
     (let response = (case pe_generate env turns of None \<Rightarrow> APOLOGY | Some r \<Rightarrow> r)
      in (add_turn env cid ''assistant'' response s, [TextFrame response]))"

definition handle_user_turn :: "provider_env \<Rightarrow> string \<Rightarrow> string \<Rightarrow> session_state \<Rightarrow> session_state \<times> frame list" where
  "handle_user_turn env cid heard s =
     (case session_get (pe_get env) (pe_now env) cid (add_turn env cid ''user'' heard s) of
        (s', d) \<Rightarrow> respond env cid (case d of None \<Rightarrow> [] | Some d \<Rightarrow> map said_of (se_turns d)) s')"

definition maybe_greet :: "provider_env \<Rightarrow> string \<Rightarrow> ai_state \<Rightarrow> ai_state \<times> frame list" where
  "maybe_greet env cid s =
     (if ai_greeted s then (s, [])
      else case respond env cid [] (ai_sessions s) of
        (ss, fs) \<Rightarrow> (s\<lparr>ai_greeted := True, ai_sessions := ss\<rparr>, fs))"

fun ai_process :: "string \<Rightarrow> provider_env \<Rightarrow> frame \<Rightarrow> ai_state \<Rightarrow> ai_state \<times> frame list" where
  "ai_process cid env StartFrame s = (case maybe_greet env cid s of (s', fs) \<Rightarrow> (s', StartFrame # fs))"
| "ai_process cid env (TranscriptionFrame heard) s =
     (case handle_user_turn env cid heard (ai_sessions s) of (ss, fs) \<Rightarrow> (s\<lparr>ai_sessions := ss\<rparr>, fs))"
| "ai_process cid env f s = (s, [f])"

section \<open>The speaker\<close>

definition handle_text :: "provider_env \<Rightarrow> string \<Rightarrow> frame list" where
  "handle_text env txt1 =
     (if py_strip txt1 = [] then []
      else case pe_synthesize env txt1 of None \<Rightarrow> [] | Some (audio, rate) \<Rightarrow> [OutputAudioRawFrame audio rate])"

fun tts_process :: "provider_env \<Rightarrow> frame \<Rightarrow> frame list" where
  "tts_process env (TextFrame txt1) = handle_text env txt1"
| "tts_process env f = [f]"

section \<open>The pipeline\<close>

record call_state =
  cs_stt :: stt_state
  cs_ai :: ai_state

definition call_init :: "session_state \<Rightarrow> call_state" where
  "call_init ss = \<lparr>cs_stt = stt_init, cs_ai = \<lparr>ai_greeted = False, ai_sessions = ss\<rparr>\<rparr>"

text \<open>A processor on a list of frames, left to right.\<close>

fun feed :: "(frame \<Rightarrow> 's \<Rightarrow> 's \<times> frame list) \<Rightarrow> frame list \<Rightarrow> 's \<Rightarrow> 's \<times> frame list" where
  "feed p [] s = (s, [])"
| "feed p (f # fs) s = (case p f s of (s', out) \<Rightarrow> (case feed p fs s' of (s'', out') \<Rightarrow> (s'', out @ out')))"

definition pipeline_step ::
  "turn_config \<Rightarrow> string \<Rightarrow> provider_env \<Rightarrow> frame \<Rightarrow> call_state \<Rightarrow> call_state \<times> frame list" where
  "pipeline_step cfg cid env f c =
     (case stt_process cfg env f (cs_stt c) of
        (stt, fs) \<Rightarrow>
          (case feed (ai_process cid env) fs (cs_ai c) of
             (ai, gs) \<Rightarrow> (\<lparr>cs_stt = stt, cs_ai = ai\<rparr>, concat (map (tts_process env) gs))))"

fun run_pipeline ::
  "turn_config \<Rightarrow> string \<Rightarrow> (provider_env \<times> frame) list \<Rightarrow> call_state \<Rightarrow> call_state \<times> frame list" where
  "run_pipeline cfg cid [] c = (c, [])"
| "run_pipeline cfg cid ((env, f) # fs) c =
     (case pipeline_step cfg cid env f c of
        (c', out) \<Rightarrow> (case run_pipeline cfg cid fs c' of (c'', out') \<Rightarrow> (c'', out @ out')))"

section \<open>Turns as a segmentation of the audio\<close>

fun detect :: "turn_config \<Rightarrow> bytes list \<Rightarrow> stt_state \<Rightarrow> stt_state \<times> bytes list" where
  "detect cfg [] s = (s, [])"
| "detect cfg (f # fs) s =
     (case handle_audio cfg f s of
        (s', None) \<Rightarrow> detect cfg fs s'
      | (s', Some a) \<Rightarrow> (case detect cfg fs s' of (s'', as) \<Rightarrow> (s'', a # as)))"

text \<open>
  The specification looks at all frames at once. A turn starts at a frame with speech and ends with the
  first frame after which the last \<open>tc_silence_frames\<close> frames are silent or the audio has reached the
  limit; silence before a turn is dropped.
\<close>

definition turn_over :: "turn_config \<Rightarrow> bytes list \<Rightarrow> nat \<Rightarrow> bool" where
  "turn_over cfg fs n =
     (tc_silence_frames cfg \<le> length (takeWhile (is_silent cfg) (rev (take n fs)))
      \<or> tc_max_bytes cfg \<le> length (concat (take n fs)))"

definition first_turn :: "turn_config \<Rightarrow> bytes list \<Rightarrow> nat option" where
  "first_turn cfg fs = List.find (turn_over cfg fs) [1..<Suc (length fs)]"

lemma find_SomeD: "List.find P xs = Some x \<Longrightarrow> x \<in> set xs \<and> P x"
  by (induction xs) (auto split: if_splits)

lemma first_turn_Some: "first_turn cfg fs = Some n \<Longrightarrow> 1 \<le> n \<and> n \<le> length fs \<and> turn_over cfg fs n"
  unfolding first_turn_def by (drule find_SomeD) auto

function turn_segments :: "turn_config \<Rightarrow> bytes list \<Rightarrow> bytes list" where
  "turn_segments cfg fs =
     (let fs' = dropWhile (is_silent cfg) fs in
      case first_turn cfg fs' of
        None \<Rightarrow> []
      | Some n \<Rightarrow> concat (take n fs') # turn_segments cfg (drop n fs'))"
  by pat_completeness auto

termination turn_segments
proof (relation "measure (length \<circ> snd)")
  fix cfg fs fs' n
  assume "fs' = dropWhile (is_silent cfg) fs" "first_turn cfg fs' = Some n"
  then have "1 \<le> n" "n \<le> length fs'" "length fs' \<le> length fs"
    using first_turn_Some by (auto simp: length_dropWhile_le)
  then show "((cfg, drop n fs'), cfg, fs) \<in> measure (length \<circ> snd)" by simp
qed simp

declare turn_segments.simps [simp del]

text \<open>Both thresholds are positive.\<close>

definition turn_config_ok :: "turn_config \<Rightarrow> bool" where
  "turn_config_ok cfg = (0 < tc_silence_frames cfg \<and> 0 < tc_max_bytes cfg)"

text \<open>The state after a prefix of a turn that is not over.\<close>

definition in_turn :: "turn_config \<Rightarrow> bytes list \<Rightarrow> stt_state" where
  "in_turn cfg p =
     \<lparr>st_buffer = concat p, st_silence_run = length (takeWhile (is_silent cfg) (rev p)), st_speaking = True\<rparr>"

lemma turn_over_take [simp]: "n \<le> length p \<Longrightarrow> turn_over cfg (p @ fs) n = turn_over cfg p n"
  by (simp add: turn_over_def)

lemma handle_audio_in_turn:
  assumes "turn_config_ok cfg"
  shows "handle_audio cfg f (in_turn cfg p) =
    (if turn_over cfg (p @ [f]) (length p + 1) then (stt_init, Some (concat (p @ [f])))
     else (in_turn cfg (p @ [f]), None))"
  using assms by (auto simp: handle_audio_def in_turn_def turn_over_def turn_config_ok_def Let_def)

lemma handle_audio_idle:
  assumes "turn_config_ok cfg"
  shows "is_silent cfg f \<Longrightarrow> handle_audio cfg f stt_init = (stt_init, None)"
    and "\<not> is_silent cfg f \<Longrightarrow> handle_audio cfg f stt_init =
      (if turn_over cfg [f] 1 then (stt_init, Some f) else (in_turn cfg [f], None))"
  using assms by (auto simp: handle_audio_def stt_init_def in_turn_def turn_over_def turn_config_ok_def Let_def)

lemma find_first:
  assumes "\<And>i. i < n \<Longrightarrow> 1 \<le> i \<Longrightarrow> \<not> P i" "P n" "1 \<le> n" "n \<le> m"
  shows "List.find P [1..<Suc m] = Some n"
proof -
  have "[1..<Suc m] = [1..<n] @ n # [Suc n..<Suc m]"
    using assms(3,4) upt_add_eq_append [of 1 n "Suc m - n"] by (simp add: upt_conv_Cons del: upt_Suc)
  moreover have "List.find P [1..<n] = None" using assms(1) by (auto simp: find_None_iff)
  moreover have "List.find P (xs @ ys) = (case List.find P xs of None \<Rightarrow> List.find P ys | Some x \<Rightarrow> Some x)" for xs ys
    by (induction xs) auto
  ultimately show ?thesis using assms(2) by simp
qed

lemma detect_in_turn:
  assumes "turn_config_ok cfg" "\<And>m. 1 \<le> m \<Longrightarrow> m \<le> length p \<Longrightarrow> \<not> turn_over cfg p m"
  shows "snd (detect cfg fs (in_turn cfg p)) =
    (case first_turn cfg (p @ fs) of None \<Rightarrow> []
     | Some n \<Rightarrow> concat (take n (p @ fs)) # snd (detect cfg (drop n (p @ fs)) stt_init))"
  using assms(2)
proof (induction fs arbitrary: p)
  case Nil
  then have "first_turn cfg p = None" by (auto simp: first_turn_def find_None_iff)
  then show ?case by simp
next
  case (Cons f fs)
  let ?q = "p @ [f]"
  show ?case
  proof (cases "turn_over cfg ?q (length p + 1)")
    case True
    have "first_turn cfg (?q @ fs) = Some (length p + 1)"
      unfolding first_turn_def
    proof (rule find_first)
      fix i
      assume "i < length p + 1" "1 \<le> i"
      then show "\<not> turn_over cfg (?q @ fs) i" using Cons.prems by simp
    next
      show "turn_over cfg (?q @ fs) (length p + 1)" using True turn_over_take [of "length p + 1" ?q cfg fs] by simp
    qed simp_all
    then show ?thesis using True handle_audio_in_turn [OF assms(1), of f p]
      by (auto split: prod.splits)
  next
    case False
    have open_: "\<not> turn_over cfg ?q m" if "1 \<le> m" "m \<le> length ?q" for m
      using Cons.prems False that by (cases "m \<le> length p") (auto simp: not_less_eq_eq le_Suc_eq)
    have "snd (detect cfg (f # fs) (in_turn cfg p)) = snd (detect cfg fs (in_turn cfg ?q))"
      using False handle_audio_in_turn [OF assms(1), of f p] by simp
    moreover have "p @ f # fs = ?q @ fs" by simp
    ultimately show ?thesis using Cons.IH [OF open_] by (simp only:)
  qed
qed

lemma first_turn_Nil: "turn_config_ok cfg \<Longrightarrow> first_turn cfg [] = None"
  by (simp add: first_turn_def)

lemma detect_idle:
  assumes "turn_config_ok cfg"
  shows "snd (detect cfg fs stt_init) =
    (case first_turn cfg (dropWhile (is_silent cfg) fs) of None \<Rightarrow> []
     | Some n \<Rightarrow> concat (take n (dropWhile (is_silent cfg) fs))
         # snd (detect cfg (drop n (dropWhile (is_silent cfg) fs)) stt_init))"
proof (induction fs)
  case (Cons f fs)
  show ?case
  proof (cases "is_silent cfg f")
    case True
    then have "snd (detect cfg (f # fs) stt_init) = snd (detect cfg fs stt_init)"
      using handle_audio_idle(1) [OF assms True] by simp
    moreover have "dropWhile (is_silent cfg) (f # fs) = dropWhile (is_silent cfg) fs" using True by simp
    ultimately show ?thesis using Cons.IH by (simp only:)
  next
    case False
    show ?thesis
    proof (cases "turn_over cfg [f] 1")
      case True
      have "first_turn cfg ([f] @ fs) = Some 1"
        unfolding first_turn_def by (rule find_first) (use True turn_over_take [of 1 "[f]" cfg fs] in simp_all)
      then show ?thesis using False True handle_audio_idle(2) [OF assms False] by (simp split: prod.splits)
    next
      case False2: False
      have "\<not> turn_over cfg [f] m" if "1 \<le> m" "m \<le> length [f]" for m using False2 that by (cases "m = 1") auto
      note step = detect_in_turn [OF assms this, of fs]
      have "snd (detect cfg (f # fs) stt_init) = snd (detect cfg fs (in_turn cfg [f]))"
        "dropWhile (is_silent cfg) (f # fs) = [f] @ fs"
        using False False2 handle_audio_idle(2) [OF assms False] by simp_all
      with step show ?thesis by (simp only:)
    qed
  qed
qed (simp add: first_turn_Nil assms)

lemma detect_segments: "turn_config_ok cfg \<Longrightarrow> snd (detect cfg fs stt_init) = turn_segments cfg fs"
proof (induction cfg fs rule: turn_segments.induct)
  case (1 cfg fs)
  show ?case
    by (subst detect_idle [OF "1.prems"], subst turn_segments.simps)
      (simp add: Let_def "1.IH" [OF refl _ "1.prems"] split: option.splits)
qed

subsection \<open>No speech is lost\<close>

definition kept :: "turn_config \<Rightarrow> bytes \<Rightarrow> stt_state \<Rightarrow> bytes list" where
  "kept cfg f s = (if is_silent cfg f \<and> \<not> st_speaking s then [] else [f])"

lemma handle_audio_kept:
  "snd (handle_audio cfg f s) = None \<Longrightarrow> st_buffer (fst (handle_audio cfg f s)) = st_buffer s @ concat (kept cfg f s)"
  "snd (handle_audio cfg f s) = Some a \<Longrightarrow>
     st_buffer (fst (handle_audio cfg f s)) = [] \<and> a = st_buffer s @ concat (kept cfg f s)"
  by (auto simp: handle_audio_def kept_def Let_def stt_init_def split: if_split_asm)

lemma detect_keeps_speech:
  "\<exists>ks. subseq ks fs \<and> filter (\<lambda>f. \<not> is_silent cfg f) ks = filter (\<lambda>f. \<not> is_silent cfg f) fs
     \<and> concat (snd (detect cfg fs s)) @ st_buffer (fst (detect cfg fs s)) = st_buffer s @ concat ks"
proof (induction fs arbitrary: s)
  case (Cons f fs)
  obtain s' r where h: "handle_audio cfg f s = (s', r)" by (cases "handle_audio cfg f s")
  obtain ks where ks: "subseq ks fs" "filter (\<lambda>f. \<not> is_silent cfg f) ks = filter (\<lambda>f. \<not> is_silent cfg f) fs"
      "concat (snd (detect cfg fs s')) @ st_buffer (fst (detect cfg fs s')) = st_buffer s' @ concat ks"
    using Cons.IH by blast
  have "concat (snd (detect cfg (f # fs) s)) @ st_buffer (fst (detect cfg (f # fs) s))
      = st_buffer s @ concat (kept cfg f s @ ks)"
  proof (cases r)
    case None
    with handle_audio_kept(1) [of cfg f s] h ks(3) show ?thesis by simp
  next
    case (Some a)
    with handle_audio_kept(2) [of cfg f s a] h ks(3) show ?thesis by (simp add: case_prod_beta)
  qed
  moreover have "subseq (kept cfg f s @ ks) (f # fs)" using ks(1) by (auto simp: kept_def)
  moreover have "filter (\<lambda>f. \<not> is_silent cfg f) (kept cfg f s @ ks) = filter (\<lambda>f. \<not> is_silent cfg f) (f # fs)"
    using ks(2) by (simp add: kept_def)
  ultimately show ?case by blast
qed (auto intro: exI [of _ "[]"])

lemma handle_audio_bound:
  assumes "length (st_buffer s) < tc_max_bytes cfg"
  shows "length (st_buffer (fst (handle_audio cfg f s))) < tc_max_bytes cfg"
    and "snd (handle_audio cfg f s) = Some a \<Longrightarrow> length a < tc_max_bytes cfg + length f"
  using assms by (auto simp: handle_audio_def Let_def stt_init_def split: if_split_asm)

lemma detect_bounded:
  assumes "length (st_buffer s) < tc_max_bytes cfg" "\<forall>f \<in> set fs. length f \<le> b"
  shows "length (st_buffer (fst (detect cfg fs s))) < tc_max_bytes cfg
    \<and> (\<forall>a \<in> set (snd (detect cfg fs s)). length a < tc_max_bytes cfg + b)"
  using assms
proof (induction fs arbitrary: s)
  case (Cons f fs)
  obtain s' r where h: "handle_audio cfg f s = (s', r)" by (cases "handle_audio cfg f s")
  have s': "length (st_buffer s') < tc_max_bytes cfg"
    using handle_audio_bound(1) [OF Cons.prems(1), of f] h by simp
  have IH: "length (st_buffer (fst (detect cfg fs s'))) < tc_max_bytes cfg
    \<and> (\<forall>a \<in> set (snd (detect cfg fs s')). length a < tc_max_bytes cfg + b)"
    using Cons.IH [OF s'] Cons.prems(2) by simp
  show ?case
  proof (cases r)
    case None
    with IH h show ?thesis by simp
  next
    case (Some a)
    then have "length a < tc_max_bytes cfg + b"
      using handle_audio_bound(2) [OF Cons.prems(1), of f a] Cons.prems(2) h by simp
    with Some IH h show ?thesis by (simp add: case_prod_beta)
  qed
qed simp

section \<open>What is said in a call\<close>

text \<open>
  The specification of a conversation: a history that grows by the caller's words and the answer to the
  history with them.
\<close>

definition reply_given :: "provider_env \<Rightarrow> said list \<Rightarrow> string" where
  "reply_given env h = (case pe_generate env h of None \<Rightarrow> APOLOGY | Some r \<Rightarrow> r)"

definition exchange :: "said list \<Rightarrow> provider_env \<times> string \<Rightarrow> said list" where
  "exchange h q = (let h' = h @ [(''user'', snd q)] in h' @ [(''assistant'', reply_given (fst q) h')])"

text \<open>The words the first processor hears in a stream of frames.\<close>

fun transcriptions :: "frame list \<Rightarrow> string list" where
  "transcriptions [] = []"
| "transcriptions (TranscriptionFrame t # fs) = t # transcriptions fs"
| "transcriptions (_ # fs) = transcriptions fs"

fun heard_words :: "turn_config \<Rightarrow> (provider_env \<times> frame) list \<Rightarrow> stt_state \<Rightarrow> (provider_env \<times> string) list" where
  "heard_words cfg [] s = []"
| "heard_words cfg ((env, f) # fs) s =
     (case stt_process cfg env f s of
        (s', out) \<Rightarrow> map (Pair env) (transcriptions out) @ heard_words cfg fs s')"

text \<open>A call whose session is in memory, with a given history.\<close>

definition history :: "string \<Rightarrow> session_state \<Rightarrow> said list option" where
  "history cid s = map_option (\<lambda>d. map said_of (se_turns d)) (ss_mem s cid)"

lemma add_turn_history:
  "history cid s = Some h \<Longrightarrow> history cid (add_turn env cid role t s) = Some (h @ [(role, t)])"
  by (auto simp: history_def add_turn_def session_add_turn_def session_get_def Let_def said_of_def)

lemma respond_history:
  assumes "history cid s = Some h"
  shows "history cid (fst (respond env cid turns s)) = Some (h @ [(''assistant'', reply_given env turns)])"
    and "snd (respond env cid turns s) = [TextFrame (reply_given env turns)]"
  using add_turn_history [OF assms] by (simp_all add: respond_def reply_given_def Let_def)

lemma user_turn_history:
  assumes "history cid s = Some h"
  shows "history cid (fst (handle_user_turn env cid t s)) = Some (exchange h (env, t))"
    and "snd (handle_user_turn env cid t s) = [TextFrame (reply_given env (h @ [(''user'', t)]))]"
proof -
  let ?s = "add_turn env cid ''user'' t s"
  note h = add_turn_history [OF assms, of env "''user''" t]
  then obtain d where d: "ss_mem ?s cid = Some d" "map said_of (se_turns d) = h @ [(''user'', t)]"
    by (auto simp: history_def)
  then have "handle_user_turn env cid t s = respond env cid (h @ [(''user'', t)]) ?s"
    by (simp add: handle_user_turn_def session_get_def)
  then show "history cid (fst (handle_user_turn env cid t s)) = Some (exchange h (env, t))"
    and "snd (handle_user_turn env cid t s) = [TextFrame (reply_given env (h @ [(''user'', t)]))]"
    using respond_history [OF h] by (simp_all add: exchange_def Let_def)
qed

text \<open>A frame of the transport that carries no words of its own.\<close>

fun plain_frame :: "frame \<Rightarrow> bool" where
  "plain_frame StartFrame = False"
| "plain_frame (TranscriptionFrame _) = False"
| "plain_frame (TextFrame _) = False"
| "plain_frame _ = True"

lemma stt_process_out:
  "plain_frame f \<Longrightarrow> g \<in> set (snd (stt_process cfg env f s)) \<Longrightarrow> plain_frame g \<or> (\<exists>t. g = TranscriptionFrame t)"
  by (cases f) (auto simp: flush_turn_def Let_def split: if_splits option.splits prod.splits)

lemma feed_history:
  assumes "history cid (ai_sessions s) = Some h" "\<forall>g \<in> set gs. plain_frame g \<or> (\<exists>t. g = TranscriptionFrame t)"
  shows "history cid (ai_sessions (fst (feed (ai_process cid env) gs s)))
      = Some (foldl exchange h (map (Pair env) (transcriptions gs)))"
  using assms
proof (induction gs arbitrary: s h)
  case (Cons g gs)
  show ?case
  proof (cases "\<exists>t. g = TranscriptionFrame t")
    case True
    then obtain t where g: "g = TranscriptionFrame t" by blast
    obtain ss fs where u: "handle_user_turn env cid t (ai_sessions s) = (ss, fs)" by fastforce
    with user_turn_history(1) [OF Cons.prems(1), of env t]
    have "history cid (ai_sessions (s\<lparr>ai_sessions := ss\<rparr>)) = Some (exchange h (env, t))" by simp
    from Cons.IH [OF this] Cons.prems(2) g u show ?thesis by (simp add: case_prod_beta)
  next
    case False
    then have g: "plain_frame g" using Cons.prems(2) by auto
    then have "ai_process cid env g s = (s, [g])" "transcriptions (g # gs) = transcriptions gs"
      by (cases g; simp)+
    with Cons show ?thesis by (simp add: case_prod_beta)
  qed
qed simp

lemma run_pipeline_history:
  assumes "history cid (ai_sessions (cs_ai c)) = Some h" "\<forall>q \<in> set fs. plain_frame (snd q)"
  shows "history cid (ai_sessions (cs_ai (fst (run_pipeline cfg cid fs c))))
    = Some (foldl exchange h (heard_words cfg fs (cs_stt c)))"
  using assms
proof (induction fs arbitrary: c h)
  case (Cons q fs)
  obtain env f where q: "q = (env, f)" by (cases q)
  obtain stt out where s: "stt_process cfg env f (cs_stt c) = (stt, out)" by fastforce
  obtain ai gs where a: "feed (ai_process cid env) out (cs_ai c) = (ai, gs)" by fastforce
  have p: "plain_frame f" using Cons.prems(2) q by simp
  have "\<forall>g \<in> set out. plain_frame g \<or> (\<exists>t. g = TranscriptionFrame t)"
    using stt_process_out [OF p, of _ cfg env "cs_stt c"] s by auto
  from feed_history [OF Cons.prems(1) this, of env] a
  have "history cid (ai_sessions (cs_ai \<lparr>cs_stt = stt, cs_ai = ai\<rparr>)) = Some (foldl exchange h (map (Pair env) (transcriptions out)))"
    by simp
  from Cons.IH [OF this] Cons.prems(2) show ?case
    by (simp add: q s a pipeline_step_def case_prod_beta)
qed simp

section \<open>Properties\<close>

text \<open>C19. The frame-by-frame turn detector computes the specified segmentation: for any stream of audio
  frames, the turns it flushes are those that cutting the whole stream at once gives: each begins with
  speech and ends at the first moment of enough silence or enough audio.\<close>

theorem turn_detection_is_segmentation:
  assumes "turn_config_ok cfg"
  shows "snd (detect cfg fs stt_init) = turn_segments cfg fs"
  by (rule detect_segments [OF assms])

text \<open>Loud frames are those that begin with a nonzero byte.\<close>

definition demo_turn_config :: turn_config where
  "demo_turn_config = \<lparr>tc_below = (\<lambda>a. hd a = 0), tc_silence_frames = 2, tc_max_bytes = 6\<rparr>"

theorem turn_detection_is_segmentation_witness:
  "turn_segments demo_turn_config [[0,0],[1,1],[0,0],[0,0],[0,0],[2,2],[3,3],[4,4],[5,5]]
     = [[1,1,0,0,0,0],[2,2,3,3,4,4]]"
proof -
  have ok: "turn_config_ok demo_turn_config" by (simp add: turn_config_ok_def demo_turn_config_def)
  have "snd (detect demo_turn_config [[0,0],[1,1],[0,0],[0,0],[0,0],[2,2],[3,3],[4,4],[5,5]] stt_init)
      = [[1,1,0,0,0,0],[2,2,3,3,4,4]]" by code_simp
  then show ?thesis unfolding turn_detection_is_segmentation [OF ok] .
qed

text \<open>C20. No speech is lost and memory is bounded: the flushed turns followed by the buffer are, in
  order, the audio of frames of the stream that include every frame with speech; the buffer stays
  below its limit and a turn exceeds it by less than one frame.\<close>

theorem speech_is_kept_within_bounds:
  assumes "turn_config_ok cfg" "\<forall>f \<in> set fs. length f \<le> b"
  shows "(\<exists>ks. subseq ks fs \<and> filter (\<lambda>f. \<not> is_silent cfg f) ks = filter (\<lambda>f. \<not> is_silent cfg f) fs
      \<and> concat (snd (detect cfg fs stt_init)) @ st_buffer (fst (detect cfg fs stt_init)) = concat ks)
    \<and> length (st_buffer (fst (detect cfg fs stt_init))) < tc_max_bytes cfg
    \<and> (\<forall>a \<in> set (snd (detect cfg fs stt_init)). length a < tc_max_bytes cfg + b)"
proof -
  have "st_buffer stt_init = []" "length (st_buffer stt_init) < tc_max_bytes cfg"
    using assms(1) by (simp_all add: stt_init_def turn_config_ok_def)
  then show ?thesis using detect_keeps_speech [of fs cfg stt_init] detect_bounded [OF _ assms(2), of stt_init cfg]
    by simp
qed

theorem speech_is_kept_within_bounds_witness:
  "length (st_buffer (fst (detect demo_turn_config [[0,0],[1,1],[0,0],[7,7]] stt_init))) < 6"
proof -
  have ok: "turn_config_ok demo_turn_config" by (simp add: turn_config_ok_def demo_turn_config_def)
  have frames: "\<forall>f \<in> set [[0,0],[1,1],[0,0],[7,7]]. length (f :: bytes) \<le> 2" by simp
  from speech_is_kept_within_bounds [OF ok frames] show ?thesis by (simp add: demo_turn_config_def)
qed


definition demo_provider :: provider_env where
  "demo_provider = \<lparr>pe_transcribe = (\<lambda>a r. Some ''goodbye''), pe_generate = local_generate_response,
     pe_synthesize = (\<lambda>t. Some ([1], 16000)), pe_now = 0, pe_get = Delivered, pe_set = Delivered\<rparr>"

definition demo_live_call :: session_state where
  "demo_live_call = \<lparr>ss_mem = [''c1'' \<mapsto> new_session 0 ''c1'' ''7'' ''a''], ss_redis = None\<rparr>"


text \<open>When the session is gone, every utterance is answered as if the call had just begun.\<close>

lemma lost_session_greets_again:
  assumes "ss_mem s cid = None" "stored_session (pe_get env) (pe_now env) cid s = None"
  shows "handle_user_turn env cid heard s = (s, [TextFrame (reply_given env [])])"
  using assms by (simp add: handle_user_turn_def add_turn_def session_add_turn_def session_get_def
      respond_def reply_given_def)

text \<open>With the local responder every answer is one of the fixed replies and is spoken in full.\<close>

lemma local_answers_fit:
  "pe_generate env = local_generate_response \<Longrightarrow> reply_given env h \<in> set REPLIES"
  by (simp add: reply_given_def local_generate_response_def local_respond_in)

end
