(* ===== verification/VoiceCall.thy ===== *)
theory VoiceCall
  imports Conversation
begin

text \<open>
  A call's audio connection and the life of the gateway process: the WebSocket route and \<open>_run_call\<close> of
  \<^verbatim>\<open>services/voice-gateway/voice_pipeline.py\<close>, and the draining, the health check and the call counter
  of \<^verbatim>\<open>src/main.py\<close>. Pipecat's transport is a source of frames: the run of a call is given by the
  frames it delivers before the caller disconnects.
\<close>

section \<open>Admission\<close>

datatype admission = Ws_closed int string | Ws_accept

definition admit_call ::
  "bool \<Rightarrow> bool \<Rightarrow> ws_env \<Rightarrow> string \<Rightarrow> session_state \<Rightarrow> session_state \<times> admission" where
  "admit_call allow_unresolved draining env cid s =
     (if draining then (s, Ws_closed 1013 ''server draining for deploy'')
      else case session_get (we_get env) (we_now env) cid s of
        (s1, Some _) \<Rightarrow> (s1, Ws_accept)
      | (s1, None) \<Rightarrow>
          if \<not> allow_unresolved then (s1, Ws_closed 4404 ''unknown call_id'')
          else (session_create (we_set env) (we_now env) cid ''unknown'' ''unknown'' s1, Ws_accept))"

text \<open>\<open>_ws_allow_unresolved\<close>, from \<^verbatim>\<open>EXOTEL_DEV_ROUTING\<close>.\<close>

definition ws_allow_unresolved :: "string \<Rightarrow> bool" where
  "ws_allow_unresolved v = (py_lower v \<in> set [''1'', ''true'', ''yes''])"

section \<open>The call\<close>

text \<open>The \<open>finally\<close> clause: \<open>get\<close>, and \<open>end\<close> and \<open>remove\<close> when there is a session.\<close>

definition close_session :: "ws_env \<Rightarrow> string \<Rightarrow> session_state \<Rightarrow> session_state" where
  "close_session env cid s =
     (case session_get (we_get env) (we_now env) cid s of
        (s1, None) \<Rightarrow> s1
      | (s1, Some _) \<Rightarrow>
          session_remove (we_del env) cid (session_end (we_get env) (we_set env) (we_now env) cid s1))"

text \<open>
  \<open>None\<close> for the handshake is a connection closed before its first message, otherwise Exotel's stream
  and call identifiers. The result has the stream identifier of the serializer and what was played.
\<close>

definition run_call ::
  "turn_config \<Rightarrow> ws_env \<Rightarrow> string \<Rightarrow> (string option \<times> string) option \<Rightarrow> (provider_env \<times> frame) list
     \<Rightarrow> session_state \<Rightarrow> session_state \<times> (string \<times> frame list) option" where
  "run_call cfg env cid handshake frames s =
     (case handshake of
        None \<Rightarrow> (close_session env cid s, None)
      | Some (stream_id, provider_call_sid) \<Rightarrow>
          (case run_pipeline cfg cid frames (call_init s) of
             (c, out) \<Rightarrow>
               (close_session env cid (ai_sessions (cs_ai c)),
                Some (the (py_or stream_id (Some cid)), out))))"

definition voice_websocket ::
  "bool \<Rightarrow> bool \<Rightarrow> turn_config \<Rightarrow> ws_env \<Rightarrow> ws_env \<Rightarrow> string \<Rightarrow> (string option \<times> string) option
     \<Rightarrow> (provider_env \<times> frame) list \<Rightarrow> session_state \<Rightarrow> session_state \<times> admission" where
  "voice_websocket allow_unresolved draining cfg env env' cid handshake frames s =
     (case admit_call allow_unresolved draining env cid s of
        (s1, Ws_closed code reason) \<Rightarrow> (s1, Ws_closed code reason)
      | (s1, Ws_accept) \<Rightarrow> (fst (run_call cfg env' cid handshake frames s1), Ws_accept))"

section \<open>What a call can change\<close>

text \<open>
  A view of the session manager's state that its operations on one call leave alone. The whole
  audio connection of the call then leaves it alone too.
\<close>

locale call_frame =
  fixes view :: "session_state \<Rightarrow> 'v" and cid :: string
  assumes view_create: "view (session_create n now cid tid aid s) = view s"
    and view_get: "view (fst (session_get n now cid s)) = view s"
    and view_end: "view (session_end n n' now cid s) = view s"
    and view_remove: "view (session_remove n cid s) = view s"
    and view_add_turn: "view (session_add_turn n n' now cid role words s) = view s"
begin

lemma view_get_eq: "session_get n now cid s = (s', d) \<Longrightarrow> view s' = view s"
  using view_get [of n now s] by simp

lemma view_respond: "view (fst (respond env cid turns s)) = view s"
  by (simp add: respond_def add_turn_def view_add_turn Let_def)

lemma view_user_turn: "view (fst (handle_user_turn env cid heard s)) = view s"
  using view_get_eq view_add_turn
  by (simp add: handle_user_turn_def view_respond add_turn_def split: prod.split)

lemma view_ai: "view (ai_sessions (fst (ai_process cid env f s))) = view (ai_sessions s)"
  using view_respond [of env "[]" "ai_sessions s"] view_user_turn [of env _ "ai_sessions s"]
  by (cases f) (auto simp: maybe_greet_def split: prod.split, (metis fst_conv)+)

lemma view_feed: "view (ai_sessions (fst (feed (ai_process cid env) fs s))) = view (ai_sessions s)"
proof (induction fs arbitrary: s)
  case (Cons f fs)
  obtain s1 out where s1: "ai_process cid env f s = (s1, out)" by force
  with Cons.IH [of s1] view_ai [of env f s] show ?case by (simp split: prod.split) (metis fst_conv)
qed simp

lemma view_step: "view (ai_sessions (cs_ai (fst (pipeline_step cfg cid env f c)))) = view (ai_sessions (cs_ai c))"
  using view_feed [of env _ "cs_ai c"]
  by (simp add: pipeline_step_def split: prod.split) (metis fst_conv)

lemma view_pipeline:
  "view (ai_sessions (cs_ai (fst (run_pipeline cfg cid fs c)))) = view (ai_sessions (cs_ai c))"
proof (induction fs arbitrary: c)
  case (Cons q fs)
  obtain env f where q: "q = (env, f)" by (cases q)
  obtain c1 out where c1: "pipeline_step cfg cid env f c = (c1, out)" by force
  with Cons.IH [of c1] view_step [of cfg env f c] show ?case by (auto simp: q split: prod.split)
qed simp

lemma view_close: "view (close_session env cid s) = view s"
  using view_get_eq
  by (simp add: close_session_def view_remove view_end split: prod.split option.split)

lemma view_stream:
  "view (fst (voice_websocket allow draining cfg env env' cid handshake frames s)) = view s"
proof -
  have admit: "view s1 = view s" if "admit_call allow draining env cid s = (s1, a)" for s1 a
    using that view_get_eq
    by (auto simp: admit_call_def view_create split: prod.splits option.splits if_splits)
  have "view (fst (run_call cfg env' cid handshake frames s1)) = view s1" for s1
    using view_pipeline [of cfg frames "call_init s1"]
    by (auto simp: run_call_def view_close call_init_def split: option.split prod.split)
  with admit show ?thesis
    by (simp add: voice_websocket_def split: prod.split admission.split)
qed

end

text \<open>The provider identifiers in Redis are such a view, and so is the session of every other call.\<close>

definition provider_view :: "session_state \<Rightarrow> (string \<Rightarrow> (redis_value \<times> datetime) option) option" where
  "provider_view s = map_option (\<lambda>r p. r (provider_key p)) (ss_redis s)"

lemma provider_view_redis:
  "provider_view (s\<lparr>ss_mem := m, ss_redis := map_option (save_session n now cid d) (ss_redis s)\<rparr>) = provider_view s"
  "provider_view (s\<lparr>ss_redis := map_option (save_session n now cid d) (ss_redis s)\<rparr>) = provider_view s"
  "provider_view (s\<lparr>ss_mem := m, ss_redis := map_option (redis_write n (redis_delete (session_key cid))) (ss_redis s)\<rparr>)
     = provider_view s"
  "provider_view (s\<lparr>ss_mem := m\<rparr>) = provider_view s"
  by (cases "ss_redis s";
      simp add: provider_view_def save_session_def redis_write_def redis_set_def redis_delete_def)+

interpretation provider_ids: call_frame provider_view cid for cid
  by unfold_locales
    (auto simp: session_create_def session_get_def session_end_def session_remove_def session_add_turn_def
      Let_def provider_view_redis split: option.split prod.split)

definition calls_but :: "string \<Rightarrow> session_state \<Rightarrow> string \<rightharpoonup> session option \<times> (net \<Rightarrow> datetime \<Rightarrow> session option)" where
  "calls_but cid s = (\<lambda>q. Some (call_view q s)) |` (- {cid})"

interpretation other_calls: call_frame "calls_but cid" cid for cid
  by unfold_locales (auto simp: calls_but_def restrict_map_def session_frame)

lemma stream_leaves_other_calls:
  assumes "q \<noteq> cid"
  shows "call_view q (fst (voice_websocket allow draining cfg env env' cid handshake frames s)) = call_view q s"
  using other_calls.view_stream [of cid allow draining cfg env env' handshake frames s, THEN fun_cong, of q] assms
  by (simp add: calls_but_def)

text \<open>A connection for a known call is accepted, and afterwards the process has forgotten the call.\<close>

lemma closed_session_gone: "ss_mem (close_session env cid s) cid = None"
proof -
  obtain s1 d where get: "session_get (we_get env) (we_now env) cid s = (s1, d)" by force
  then show ?thesis
    by (auto simp: close_session_def session_remove_def session_get_def split: option.splits)
qed

lemma stream_of_known_call:
  assumes "ss_mem s cid = Some d"
  shows "voice_websocket allow False cfg env env' cid handshake frames s =
      (fst (run_call cfg env' cid handshake frames s), Ws_accept)"
    and "ss_mem (fst (run_call cfg env' cid handshake frames s)) cid = None"
  using assms closed_session_gone
  by (simp_all add: voice_websocket_def admit_call_def session_get_def run_call_def split: option.split prod.split)

section \<open>Draining\<close>

text \<open>
  A connection: not yet seen, past the checks and waiting in \<open>accept\<close>, counted and running, or over.
  The process serves, drains, or has let the server stop.
\<close>

datatype conn_phase = Unseen | Accepting | Live | Over

datatype process_stage = Serving | Draining | Stopped

record gateway_process =
  gp_phase :: "nat \<Rightarrow> conn_phase"
  gp_draining :: bool
  gp_active_calls :: int
  gp_stage :: process_stage
  gp_waited :: int

definition gateway_start :: gateway_process where
  "gateway_start =
     \<lparr>gp_phase = (\<lambda>_. Unseen), gp_draining = False, gp_active_calls = 0, gp_stage = Serving, gp_waited = 0\<rparr>"

definition DRAIN_POLL_INTERVAL_SECONDS :: int where "DRAIN_POLL_INTERVAL_SECONDS = 2"

definition on_call_started :: "gateway_process \<Rightarrow> gateway_process" where
  "on_call_started g = g\<lparr>gp_active_calls := gp_active_calls g + 1\<rparr>"

definition on_call_ended :: "gateway_process \<Rightarrow> gateway_process" where
  "on_call_ended g = g\<lparr>gp_active_calls := gp_active_calls g - 1\<rparr>"

definition set_phase :: "nat \<Rightarrow> conn_phase \<Rightarrow> gateway_process \<Rightarrow> gateway_process" where
  "set_phase i p g = g\<lparr>gp_phase := (gp_phase g)(i := p)\<rparr>"

definition keep_waiting :: "int \<Rightarrow> gateway_process \<Rightarrow> bool" where
  "keep_waiting timeout g = (0 < gp_active_calls g \<and> gp_waited g < timeout)"

datatype gateway_event = Reject nat | Refuse nat | Admit nat | Accept nat | Accept_fails nat | Hang_up nat
  | Shutdown | Poll | Stop

text \<open>
  The event loop runs one coroutine at a time; it can switch at each \<open>await\<close>. A handler is therefore
  three steps: the checks up to \<open>accept\<close>, the counted start after it, and the end in \<open>finally\<close>.
\<close>

inductive gateway_step :: "int \<Rightarrow> gateway_process \<Rightarrow> gateway_event \<Rightarrow> gateway_process \<Rightarrow> bool" for timeout where
  reject: "gp_phase g i = Unseen \<Longrightarrow> gp_draining g \<Longrightarrow> gateway_step timeout g (Reject i) (set_phase i Over g)"
| refuse: "gp_phase g i = Unseen \<Longrightarrow> \<not> gp_draining g \<Longrightarrow> gateway_step timeout g (Refuse i) (set_phase i Over g)"
| admit: "gp_phase g i = Unseen \<Longrightarrow> \<not> gp_draining g \<Longrightarrow> gateway_step timeout g (Admit i) (set_phase i Accepting g)"
| accept: "gp_phase g i = Accepting \<Longrightarrow> gateway_step timeout g (Accept i) (on_call_started (set_phase i Live g))"
| accept_fails: "gp_phase g i = Accepting \<Longrightarrow> gateway_step timeout g (Accept_fails i) (set_phase i Over g)"
| hang_up: "gp_phase g i = Live \<Longrightarrow> gateway_step timeout g (Hang_up i) (on_call_ended (set_phase i Over g))"
| shutdown: "gp_stage g = Serving \<Longrightarrow>
    gateway_step timeout g Shutdown (g\<lparr>gp_draining := True, gp_stage := Draining, gp_waited := 0\<rparr>)"
| poll: "gp_stage g = Draining \<Longrightarrow> keep_waiting timeout g \<Longrightarrow>
    gateway_step timeout g Poll (g\<lparr>gp_waited := gp_waited g + DRAIN_POLL_INTERVAL_SECONDS\<rparr>)"
| stop: "gp_stage g = Draining \<Longrightarrow> \<not> keep_waiting timeout g \<Longrightarrow>
    gateway_step timeout g Stop (g\<lparr>gp_stage := Stopped\<rparr>)"

inductive gateway_trace :: "int \<Rightarrow> gateway_event list \<Rightarrow> gateway_process \<Rightarrow> bool" for timeout where
  start: "gateway_trace timeout [] gateway_start"
| step: "gateway_trace timeout es g \<Longrightarrow> gateway_step timeout g e g' \<Longrightarrow> gateway_trace timeout (es @ [e]) g'"

text \<open>
  \<open>GET /health\<close>: \<open>None\<close> when Redis is not configured, otherwise whether it answers the ping. The two
  routes are declared to return \<^verbatim>\<open>dict[str, str]\<close>, and FastAPI checks what a route returns against its
  declared type: pydantic turns neither a bool nor an int into a string, and a value that does not
  fit is an exception, answered with status 500.
\<close>

definition gateway_health :: "bool option \<Rightarrow> gateway_process \<Rightarrow> nat \<times> json_object" where
  "gateway_health redis_ok g =
     (let redis_status = (case redis_ok of None \<Rightarrow> ''not_configured'' | Some True \<Rightarrow> ''ok'' | Some False \<Rightarrow> ''unreachable'');
          healthy = (redis_status \<noteq> ''unreachable'')
      in (if healthy then 200 else 503,
          [(''status'', JStr (if healthy then ''ok'' else ''degraded'')), (''service'', JStr ''staykaro-voice-gateway''),
           (''redis'', JStr redis_status), (''draining'', JBool (gp_draining g)), (''active_calls'', JInt (gp_active_calls g))]))"

definition gateway_root :: "nat \<times> json_object" where
  "gateway_root = (200, [(''service'', JStr ''staykaro-voice-gateway''), (''status'', JStr ''ok'')])"

fun is_jstr :: "json \<Rightarrow> bool" where
  "is_jstr (JStr s) = True"
| "is_jstr _ = False"

definition str_dict_response :: "nat \<times> json_object \<Rightarrow> (nat \<times> json_object) http" where
  "str_dict_response r = (if \<forall>e \<in> set (snd r). is_jstr (snd e) then Inr r else Inl (Unhandled ''ResponseValidationError''))"

text \<open>The root answers; the health check never does, whatever the state of the process and of Redis.\<close>

lemma root_answers_health_fails:
  "str_dict_response gateway_root = Inr gateway_root
   \<and> str_dict_response (gateway_health redis_ok g) = Inl (Unhandled ''ResponseValidationError'')"
  by (simp add: str_dict_response_def gateway_root_def gateway_health_def Let_def)

section \<open>The session of a call\<close>

lemma close_session_mem: "ss_mem (close_session env cid s) cid = None"
  by (simp add: close_session_def session_get_def session_remove_def split: option.splits prod.splits)

lemma stored_later:
  "stored_session Delivered t cid s = None \<Longrightarrow> t \<le> t' \<Longrightarrow> stored_session Delivered t' cid s = None"
  by (auto simp: stored_session_def redis_read_def redis_get_def split: option.splits redis_value.splits if_splits)

lemma close_session_redis:
  assumes "we_get env = Delivered" "we_del env = Delivered" "we_now env \<le> now"
  shows "stored_session Delivered now cid (close_session env cid s) = None"
proof (cases "snd (session_get Delivered (we_now env) cid s)")
  case None
  then have "stored_session Delivered (we_now env) cid s = None" "close_session env cid s = s"
    using assms(1) by (auto simp: close_session_def session_get_def split: option.splits)
  then show ?thesis using stored_later assms(3) by simp
next
  case (Some d)
  then have "close_session env cid s = session_remove Delivered cid (session_end Delivered (we_set env) (we_now env) cid
      (fst (session_get Delivered (we_now env) cid s)))"
    using assms(1,2) by (cases "session_get Delivered (we_now env) cid s") (simp add: close_session_def)
  then show ?thesis by (auto simp: stored_session_def session_remove_def split: option.splits)
qed

section \<open>The process\<close>

definition live_calls :: "gateway_process \<Rightarrow> nat set" where
  "live_calls g = {i. gp_phase g i = Live}"

definition polls :: "gateway_event list \<Rightarrow> int" where
  "polls es = int (length (filter (\<lambda>e. e = Poll) es))"

lemma polls_simps [simp]: "polls [] = 0" "polls (es @ [e]) = polls es + (if e = Poll then 1 else 0)"
  by (simp_all add: polls_def)

definition gateway_inv :: "int \<Rightarrow> gateway_event list \<Rightarrow> gateway_process \<Rightarrow> bool" where
  "gateway_inv timeout es g =
     (finite (live_calls g) \<and> gp_active_calls g = int (card (live_calls g))
      \<and> gp_draining g = (gp_stage g \<noteq> Serving)
      \<and> gp_waited g = 2 * polls es \<and> (0 < gp_waited g \<longrightarrow> gp_waited g < timeout + 2)
      \<and> (gp_stage g = Serving \<longrightarrow> gp_waited g = 0))"

lemma live_calls_set_phase:
  "live_calls (set_phase i p g) = (if p = Live then insert i (live_calls g) else live_calls g - {i})"
  by (auto simp: live_calls_def set_phase_def)

lemma set_phase_fields [simp]:
  "gp_draining (set_phase i p g) = gp_draining g" "gp_active_calls (set_phase i p g) = gp_active_calls g"
  "gp_stage (set_phase i p g) = gp_stage g" "gp_waited (set_phase i p g) = gp_waited g"
  by (simp_all add: set_phase_def)

lemma live_calls_other [simp]:
  "live_calls (g\<lparr>gp_active_calls := a\<rparr>) = live_calls g" "live_calls (g\<lparr>gp_waited := w\<rparr>) = live_calls g"
  "live_calls (g\<lparr>gp_stage := st\<rparr>) = live_calls g"
  "live_calls (g\<lparr>gp_draining := b\<rparr>) = live_calls g"
  by (simp_all add: live_calls_def)

lemma not_live [simp]: "gp_phase g i = p \<Longrightarrow> p \<noteq> Live \<Longrightarrow> live_calls g - {i} = live_calls g"
  by (auto simp: live_calls_def)

lemma gateway_step_inv:
  assumes "gateway_step timeout g e g'" "gateway_inv timeout es g"
  shows "gateway_inv timeout (es @ [e]) g'"
  using assms
proof (induction rule: gateway_step.induct)
  case (accept g i)
  then have "i \<notin> live_calls g" by (simp add: live_calls_def)
  with accept show ?case by (auto simp: gateway_inv_def on_call_started_def live_calls_set_phase)
next
  case (hang_up g i)
  then have "i \<in> live_calls g" by (simp add: live_calls_def)
  with hang_up have "int (card (live_calls g - {i})) = int (card (live_calls g)) - 1"
    by (simp add: gateway_inv_def card_Diff_singleton card_gt_0_iff of_nat_diff)
      (metis One_nat_def Suc_leI card_gt_0_iff empty_iff of_nat_1 of_nat_diff)
  with hang_up show ?case by (auto simp: gateway_inv_def on_call_ended_def live_calls_set_phase)
qed (auto simp: gateway_inv_def live_calls_set_phase keep_waiting_def DRAIN_POLL_INTERVAL_SECONDS_def)

lemma gateway_trace_inv: "gateway_trace timeout es g \<Longrightarrow> gateway_inv timeout es g"
proof (induction rule: gateway_trace.induct)
  case start
  show ?case by (simp add: gateway_inv_def gateway_start_def live_calls_def)
next
  case (step es g e g')
  then show ?case by (blast intro: gateway_step_inv)
qed

section \<open>Properties\<close>

inductive_cases stop_stepE: "gateway_step timeout g Stop g'"
inductive_cases admit_stepE: "gateway_step timeout g (Admit i) g'"

text \<open>C21. The process counts its calls exactly and drains in bounded time: in every run the counter is the
  number of calls that are running; connections are admitted only before the shutdown signal; the
  drain loop polls at most half the timeout (rounded up) times; and when it lets the process stop,
  no counted call is running or the timeout has been waited for.\<close>

theorem drain_counts_and_ends:
  assumes "gateway_trace timeout es g" "0 \<le> timeout"
  shows "gp_active_calls g = int (card (live_calls g)) \<and> finite (live_calls g)
    \<and> 2 * polls es < timeout + 2
    \<and> (gateway_step timeout g (Admit i) g1 \<longrightarrow> gp_stage g = Serving)
    \<and> (gateway_step timeout g Stop g2 \<longrightarrow> live_calls g = {} \<or> timeout \<le> 2 * polls es)"
proof -
  have inv: "gateway_inv timeout es g" by (rule gateway_trace_inv [OF assms(1)])
  then have "gp_waited g = 2 * polls es" "gp_draining g = (gp_stage g \<noteq> Serving)"
    by (simp_all add: gateway_inv_def)
  then show ?thesis using inv assms(2)
    by (auto simp: gateway_inv_def keep_waiting_def elim!: stop_stepE admit_stepE)
qed

lemma demo_trace:
  "gateway_trace 300 [Admit 0, Shutdown, Stop]
     (gateway_start\<lparr>gp_phase := (\<lambda>_. Unseen)(0 := Accepting), gp_draining := True, gp_stage := Stopped\<rparr>)"
proof -
  let ?g1 = "set_phase 0 Accepting gateway_start"
  let ?g2 = "?g1\<lparr>gp_draining := True, gp_stage := Draining, gp_waited := 0\<rparr>"
  have "gateway_trace 300 ([] @ [Admit 0]) ?g1"
    by (rule gateway_trace.step [OF gateway_trace.start gateway_step.admit]) (simp_all add: gateway_start_def)
  then have "gateway_trace 300 (([] @ [Admit 0]) @ [Shutdown]) ?g2"
    by (rule gateway_trace.step) (rule gateway_step.shutdown, simp add: gateway_start_def)
  then have "gateway_trace 300 ((([] @ [Admit 0]) @ [Shutdown]) @ [Stop]) (?g2\<lparr>gp_stage := Stopped\<rparr>)"
    by (rule gateway_trace.step) (rule gateway_step.stop, simp_all add: gateway_start_def keep_waiting_def)
  then show ?thesis by (simp add: set_phase_def gateway_start_def)
qed

theorem drain_counts_and_ends_witness:
  "gp_active_calls (gateway_start\<lparr>gp_phase := (\<lambda>_. Unseen)(0 := Accepting), gp_draining := True, gp_stage := Stopped\<rparr>) = 0
   \<and> 2 * polls [Admit 0, Shutdown, Stop] < 302"
  using drain_counts_and_ends [OF demo_trace] by (simp add: gateway_start_def)

text \<open>C22. Draining can miss a call: a connection that passed the drain check and waits in \<open>accept\<close> when the
  signal arrives is not counted yet, so with no other call the loop ends at once; the connection is
  accepted afterwards, and its call runs in a process that has already been allowed to stop.\<close>

theorem drain_misses_accepting_call:
  "0 \<le> timeout \<Longrightarrow> \<exists>es g. gateway_trace timeout es g \<and> polls es = 0 \<and> gp_stage g = Stopped \<and> live_calls g \<noteq> {}"
proof -
  let ?g1 = "set_phase 0 Accepting gateway_start"
  let ?g2 = "?g1\<lparr>gp_draining := True, gp_stage := Draining, gp_waited := 0\<rparr>"
  let ?g3 = "?g2\<lparr>gp_stage := Stopped\<rparr>"
  let ?g4 = "on_call_started (set_phase 0 Live ?g3)"
  have "gateway_trace timeout ([] @ [Admit 0]) ?g1"
    by (rule gateway_trace.step [OF gateway_trace.start gateway_step.admit]) (simp_all add: gateway_start_def)
  then have "gateway_trace timeout (([] @ [Admit 0]) @ [Shutdown]) ?g2"
    by (rule gateway_trace.step) (rule gateway_step.shutdown, simp add: gateway_start_def)
  then have "gateway_trace timeout ((([] @ [Admit 0]) @ [Shutdown]) @ [Stop]) ?g3"
    by (rule gateway_trace.step) (rule gateway_step.stop, simp_all add: gateway_start_def keep_waiting_def)
  then have t: "gateway_trace timeout (((([] @ [Admit 0]) @ [Shutdown]) @ [Stop]) @ [Accept 0]) ?g4"
    by (rule gateway_trace.step) (rule gateway_step.accept, simp add: set_phase_def)
  have "gp_stage ?g4 = Stopped" "0 \<in> live_calls ?g4"
    by (simp_all add: on_call_started_def live_calls_def set_phase_def)
  with t show ?thesis by (auto simp: polls_def intro!: exI)
qed

theorem drain_misses_accepting_call_witness:
  "\<exists>es g. gateway_trace 300 es g \<and> polls es = 0 \<and> gp_stage g = Stopped \<and> live_calls g \<noteq> {}"
  by (rule drain_misses_accepting_call) simp

text \<open>A call cleans up after itself: however the audio connection ends, a missing handshake included,
  its session is gone from memory, and from Redis when Redis answers; when the route refuses the
  connection, because the process drains or the call is unknown, no session is created.\<close>

lemma call_leaves_no_session:
  assumes "voice_websocket allow draining cfg env env' cid handshake frames s = (s', r)"
  shows "(r = Ws_accept \<longrightarrow> ss_mem s' cid = None)
    \<and> (r = Ws_accept \<and> we_get env' = Delivered \<and> we_del env' = Delivered \<and> we_now env' \<le> now \<longrightarrow>
        stored_session Delivered now cid s' = None)
    \<and> (draining \<longrightarrow> r = Ws_closed 1013 ''server draining for deploy'' \<and> s' = s)
    \<and> (\<not> draining \<and> \<not> allow \<and> snd (session_get (we_get env) (we_now env) cid s) = None \<longrightarrow>
        r = Ws_closed 4404 ''unknown call_id'' \<and> s' = s)"
proof -
  have "\<exists>t. fst (run_call cfg env' cid handshake frames s1) = close_session env' cid t" for s1
    by (auto simp: run_call_def split: option.splits prod.splits)
  then have "ss_mem (fst (run_call cfg env' cid handshake frames s1)) cid = None"
    "we_get env' = Delivered \<Longrightarrow> we_del env' = Delivered \<Longrightarrow> we_now env' \<le> now \<Longrightarrow>
      stored_session Delivered now cid (fst (run_call cfg env' cid handshake frames s1)) = None" for s1
    using close_session_mem close_session_redis by metis+
  then show ?thesis using assms
    by (auto simp: voice_websocket_def admit_call_def session_get_def split: option.splits prod.splits if_splits)
qed

lemma call_leaves_no_session_example:
  "ss_mem (fst (voice_websocket False False demo_turn_config \<lparr>we_now = 0, we_get = Delivered, we_set = Delivered, we_del = Delivered\<rparr>
     \<lparr>we_now = 9, we_get = Delivered, we_set = Delivered, we_del = Delivered\<rparr> ''c1'' None [] demo_live_call)) ''c1'' = None"
proof -
  let ?r = "voice_websocket False False demo_turn_config \<lparr>we_now = 0, we_get = Delivered, we_set = Delivered, we_del = Delivered\<rparr>
     \<lparr>we_now = 9, we_get = Delivered, we_set = Delivered, we_del = Delivered\<rparr> ''c1'' None [] demo_live_call"
  have "snd ?r = Ws_accept" by code_simp
  then have "?r = (fst ?r, Ws_accept)" by (metis prod.collapse)
  from call_leaves_no_session [OF this] show ?thesis by blast
qed

end
