(* ===== verification/Auth.thy ===== *)
theory Auth
  imports Models
begin

text \<open>
  Accounts and tokens of the API: \<^verbatim>\<open>services/api/src/auth.py\<close> and the \<^verbatim>\<open>/auth\<close> routes of
  \<^verbatim>\<open>services/api/src/main.py\<close>.

  The JWT library (\<open>jose\<close>) and \<open>bcrypt\<close> are not part of the repository: they are arguments. A
  \<^typ>\<open>'t\<close> is whatever the library uses for an encoded token; \<open>jwt_ok\<close> and \<open>bcrypt_ok\<close> name what is
  documented of them. \<open>exp\<close> is a number of whole seconds, as it is inside a token.
\<close>

section \<open>Tokens\<close>

record claims =
  cm_sub :: "string option"
  cm_role :: "string option"
  cm_exp :: int
  cm_type :: "string option"
  cm_email :: "string option"
  cm_full_name :: "string option"
  cm_client_id :: "int option"

record 't jwt_lib =
  jwt_encode :: "string \<Rightarrow> claims \<Rightarrow> 't"
  jwt_decode :: "string \<Rightarrow> int \<Rightarrow> 't \<Rightarrow> claims option"

text \<open>
  The documented behaviour: decoding with the signing key gives the payload back until the second
  \<open>exp\<close> has passed.
\<close>

definition jwt_ok :: "'t jwt_lib \<Rightarrow> bool" where
  "jwt_ok j =
     (\<forall>key c now. jwt_decode j key now (jwt_encode j key c) = (if now \<le> cm_exp c then Some c else None))"

record auth_config =
  JWT_SECRET_KEY :: string
  ACCESS_TOKEN_EXPIRE_MINUTES :: int
  REFRESH_TOKEN_EXPIRE_MINUTES :: int
  API_ADMIN_EMAIL :: string
  API_ADMIN_FULL_NAME :: string
  API_PASSWORD :: string

definition whole_seconds :: "datetime \<Rightarrow> int" where
  "whole_seconds t = t div 1000000"

definition create_access_token ::
  "'t jwt_lib \<Rightarrow> auth_config \<Rightarrow> datetime \<Rightarrow> string \<Rightarrow> string \<Rightarrow> int option \<Rightarrow> string \<Rightarrow> string \<Rightarrow> 't" where
  "create_access_token j cfg now subject role client_id email full_name =
     jwt_encode j (JWT_SECRET_KEY cfg)
       \<lparr>cm_sub = Some subject, cm_role = Some role,
        cm_exp = whole_seconds (now + seconds (60 * ACCESS_TOKEN_EXPIRE_MINUTES cfg)),
        cm_type = Some ''access'', cm_email = Some email, cm_full_name = Some full_name,
        cm_client_id = client_id\<rparr>"

definition create_refresh_token ::
  "'t jwt_lib \<Rightarrow> auth_config \<Rightarrow> datetime \<Rightarrow> string \<Rightarrow> string \<Rightarrow> string \<Rightarrow> string \<Rightarrow> 't" where
  "create_refresh_token j cfg now subject role email full_name =
     jwt_encode j (JWT_SECRET_KEY cfg)
       \<lparr>cm_sub = Some subject, cm_role = Some role,
        cm_exp = whole_seconds (now + seconds (60 * REFRESH_TOKEN_EXPIRE_MINUTES cfg)),
        cm_type = Some ''refresh'', cm_email = Some email, cm_full_name = Some full_name,
        cm_client_id = None\<rparr>"

definition decode_refresh_token :: "'t jwt_lib \<Rightarrow> auth_config \<Rightarrow> datetime \<Rightarrow> 't \<Rightarrow> claims http" where
  "decode_refresh_token j cfg now token =
     (case jwt_decode j (JWT_SECRET_KEY cfg) (whole_seconds now) token of
        None \<Rightarrow> Inl (HTTPException 401 ''Invalid or expired refresh token'')
      | Some payload \<Rightarrow>
          if cm_type payload \<noteq> Some ''refresh''
          then Inl (HTTPException 401 ''Token is not a refresh token'')
          else Inr payload)"

definition get_current_user ::
  "'t jwt_lib \<Rightarrow> auth_config \<Rightarrow> datetime \<Rightarrow> 't option \<Rightarrow> claims http" where
  "get_current_user j cfg now credentials =
     (case credentials of
        None \<Rightarrow> Inl (HTTPException 401 ''Bearer token required'')
      | Some token \<Rightarrow>
          (case jwt_decode j (JWT_SECRET_KEY cfg) (whole_seconds now) token of
             None \<Rightarrow> Inl (HTTPException 401 ''Invalid or expired token'')
           | Some payload \<Rightarrow>
               if cm_type payload = Some ''refresh''
               then Inl (HTTPException 401 ''Refresh token cannot be used as an access token'')
               else Inr payload))"

section \<open>Passwords\<close>

text \<open>\<open>checkpw\<close> is \<open>None\<close> when it raises \<open>ValueError\<close>, on a malformed hash.\<close>

record bcrypt_lib =
  bc_hashpw :: "string \<Rightarrow> string \<Rightarrow> string"
  bc_checkpw :: "string \<Rightarrow> string \<Rightarrow> bool option"

definition bcrypt_ok :: "bcrypt_lib \<Rightarrow> bool" where
  "bcrypt_ok b = (\<forall>p salt. bc_checkpw b p (bc_hashpw b p salt) = Some True \<and> bc_hashpw b p salt \<noteq> [])"

definition hash_password :: "bcrypt_lib \<Rightarrow> string \<Rightarrow> string \<Rightarrow> string" where
  "hash_password b salt plain = bc_hashpw b plain salt"

definition verify_password :: "bcrypt_lib \<Rightarrow> string \<Rightarrow> string \<Rightarrow> bool" where
  "verify_password b plain hashed =
     (case bc_checkpw b plain hashed of None \<Rightarrow> False | Some r \<Rightarrow> r)"

section \<open>Roles\<close>

definition ROLE_PERMISSIONS :: "string \<rightharpoonup> string list" where
  "ROLE_PERMISSIONS = map_of
     [(''super_admin'', [''tenant:read'', ''tenant:write'', ''user:read'', ''user:write'', ''call:read'']),
      (''tenant_admin'', [''user:read'', ''call:read'']),
      (''agent'', [''call:read''])]"

text \<open>\<open>user.get("role", "agent")\<close>.\<close>

definition claim_role :: "claims \<Rightarrow> string" where
  "claim_role c = (case cm_role c of None \<Rightarrow> ''agent'' | Some r \<Rightarrow> r)"

definition get_str :: "string option \<Rightarrow> string" where
  "get_str x = (case x of None \<Rightarrow> [] | Some s \<Rightarrow> s)"

section \<open>The routes\<close>

record login_request =
  lr_email :: string
  lr_password :: string

record 't token_response =
  tr_access_token :: 't
  tr_refresh_token :: 't
  tr_expires_in :: int

record me_response =
  me_user_id :: string
  me_email :: string
  me_full_name :: string
  me_role :: string
  me_tenant_id :: "int option"
  me_permissions :: "string list"

definition invalid_credentials :: http_error where
  "invalid_credentials = HTTPException 401 ''Invalid credentials''"

definition token_pair ::
  "'t jwt_lib \<Rightarrow> auth_config \<Rightarrow> datetime \<Rightarrow> string \<Rightarrow> string \<Rightarrow> int option \<Rightarrow> string \<Rightarrow> string \<Rightarrow> 't token_response" where
  "token_pair j cfg now subject role client_id email full_name =
     \<lparr>tr_access_token = create_access_token j cfg now subject role client_id email full_name,
      tr_refresh_token = create_refresh_token j cfg now subject role email full_name,
      tr_expires_in = ACCESS_TOKEN_EXPIRE_MINUTES cfg * 60\<rparr>"

text \<open>\<open>scalar_one_or_none\<close>: an error when the email occurs twice, which its unique index rules out.\<close>

definition login ::
  "'t jwt_lib \<Rightarrow> bcrypt_lib \<Rightarrow> auth_config \<Rightarrow> datetime \<Rightarrow> login_request \<Rightarrow> database \<Rightarrow> 't token_response http" where
  "login j bc cfg now b d =
     (case filter (\<lambda>u. us_email u = lr_email b) (t_admin_users d) of
        [user] \<Rightarrow>
          if us_status user \<noteq> Some ''active'' \<or> \<not> truthy (us_password_hash user)
          then Inl invalid_credentials
          else if \<not> verify_password bc (lr_password b) (the (us_password_hash user))
          then Inl invalid_credentials
          else Inr (token_pair j cfg now (us_id user) (the (py_or (us_role user) (Some ''agent'')))
                     (us_tenant_id user) (us_email user) (us_full_name user))
      | [] \<Rightarrow>
          if API_ADMIN_EMAIL cfg \<noteq> [] \<and> API_PASSWORD cfg \<noteq> [] \<and> lr_email b = API_ADMIN_EMAIL cfg then
            if lr_password b \<noteq> API_PASSWORD cfg then Inl invalid_credentials
            else Inr (token_pair j cfg now (lr_email b) ''super_admin'' None (lr_email b)
                       (API_ADMIN_FULL_NAME cfg))
          else Inl invalid_credentials
      | _ \<Rightarrow> Inl (Unhandled ''MultipleResultsFound''))"

definition refresh_token ::
  "'t jwt_lib \<Rightarrow> auth_config \<Rightarrow> datetime \<Rightarrow> 't \<Rightarrow> 't token_response http" where
  "refresh_token j cfg now token =
     (case decode_refresh_token j cfg now token of
        Inl e \<Rightarrow> Inl e
      | Inr payload \<Rightarrow>
          (case cm_sub payload of
             None \<Rightarrow> Inl (Unhandled ''KeyError'')
           | Some subject \<Rightarrow>
               Inr (token_pair j cfg now subject (claim_role payload) None
                     (get_str (cm_email payload)) (get_str (cm_full_name payload)))))"

definition logout :: "'t jwt_lib \<Rightarrow> auth_config \<Rightarrow> datetime \<Rightarrow> 't option \<Rightarrow> unit http" where
  "logout j cfg now credentials = map_sum id (\<lambda>_. ()) (get_current_user j cfg now credentials)"

definition me :: "claims \<Rightarrow> me_response http" where
  "me user =
     (case cm_sub user of
        None \<Rightarrow> Inl (Unhandled ''KeyError'')
      | Some sub \<Rightarrow>
          Inr \<lparr>me_user_id = sub, me_email = get_str (cm_email user),
               me_full_name = get_str (cm_full_name user), me_role = claim_role user,
               me_tenant_id = cm_client_id user,
               me_permissions = (case ROLE_PERMISSIONS (claim_role user) of None \<Rightarrow> [] | Some ps \<Rightarrow> ps)\<rparr>)"

definition get_me :: "'t jwt_lib \<Rightarrow> auth_config \<Rightarrow> datetime \<Rightarrow> 't option \<Rightarrow> me_response http" where
  "get_me j cfg now credentials =
     (case get_current_user j cfg now credentials of Inl e \<Rightarrow> Inl e | Inr user \<Rightarrow> me user)"

section \<open>What a token is worth\<close>

lemma jwt_roundtrip:
  "jwt_ok j \<Longrightarrow> jwt_decode j key now (jwt_encode j key c) = (if now \<le> cm_exp c then Some c else None)"
  by (simp add: jwt_ok_def)

text \<open>The identity a token pair carries.\<close>

definition access_claims ::
  "auth_config \<Rightarrow> datetime \<Rightarrow> string \<Rightarrow> string \<Rightarrow> int option \<Rightarrow> string \<Rightarrow> string \<Rightarrow> claims" where
  "access_claims cfg now subject role client_id email full_name =
     \<lparr>cm_sub = Some subject, cm_role = Some role,
      cm_exp = whole_seconds (now + seconds (60 * ACCESS_TOKEN_EXPIRE_MINUTES cfg)),
      cm_type = Some ''access'', cm_email = Some email, cm_full_name = Some full_name,
      cm_client_id = client_id\<rparr>"

lemma access_token_user:
  assumes "jwt_ok j"
  shows "get_current_user j cfg t (Some (create_access_token j cfg now subject role client_id email full_name)) =
    (if whole_seconds t \<le> whole_seconds (now + seconds (60 * ACCESS_TOKEN_EXPIRE_MINUTES cfg))
     then Inr (access_claims cfg now subject role client_id email full_name)
     else Inl (HTTPException 401 ''Invalid or expired token''))"
  using jwt_roundtrip [OF assms]
  by (simp add: get_current_user_def create_access_token_def access_claims_def)

lemma refresh_token_user:
  "jwt_ok j \<Longrightarrow> \<not> is_ok (get_current_user j cfg t (Some (create_refresh_token j cfg now subject role email full_name)))"
  by (simp add: get_current_user_def create_refresh_token_def jwt_roundtrip)

lemma access_token_refresh:
  "jwt_ok j \<Longrightarrow> \<not> is_ok (decode_refresh_token j cfg t (create_access_token j cfg now subject role client_id email full_name))"
  by (simp add: decode_refresh_token_def create_access_token_def jwt_roundtrip)

lemma refresh_issues:
  assumes "jwt_ok j" "whole_seconds t \<le> whole_seconds (now + seconds (60 * REFRESH_TOKEN_EXPIRE_MINUTES cfg))"
  shows "refresh_token j cfg t (create_refresh_token j cfg now subject role email full_name) =
    Inr (token_pair j cfg t subject role None email full_name)"
  using assms
  by (simp add: refresh_token_def decode_refresh_token_def create_refresh_token_def jwt_roundtrip
      claim_role_def get_str_def)

lemma unique_email_filter:
  assumes "distinct (map us_email us)" "u \<in> set us"
  shows "filter (\<lambda>v. us_email v = us_email u) us = [u]"
  using assms
proof (induction us)
  case (Cons v us)
  show ?case
  proof (cases "u = v")
    case True
    with Cons.prems have "filter (\<lambda>w. us_email w = us_email u) us = []"
      by (force simp: filter_empty_conv image_iff)
    with True show ?thesis by simp
  next
    case False
    with Cons show ?thesis by (auto simp: image_iff)
  qed
qed simp

section \<open>Properties\<close>

text \<open>C30. Login decides by the account table first and by the bootstrap credentials only where no
  account has the email: it succeeds exactly for an active account whose stored hash the password
  matches, with a token for that account's identity, role and tenant, or, with no such account, for
  the configured bootstrap email and password, with a \<open>super_admin\<close> token of no tenant; everything
  else is answered with the same 401.\<close>

theorem login_decision:
  assumes "distinct (map us_email (t_admin_users d))"
  shows "login j bc cfg now b d =
    (case List.find (\<lambda>u. us_email u = lr_email b) (t_admin_users d) of
       Some u \<Rightarrow>
         if us_status u = Some ''active''
            \<and> (\<exists>h. us_password_hash u = Some h \<and> h \<noteq> [] \<and> bc_checkpw bc (lr_password b) h = Some True)
         then Inr (token_pair j cfg now (us_id u) (the (py_or (us_role u) (Some ''agent''))) (us_tenant_id u)
                    (us_email u) (us_full_name u))
         else Inl invalid_credentials
     | None \<Rightarrow>
         if lr_email b = API_ADMIN_EMAIL cfg \<and> lr_password b = API_PASSWORD cfg
            \<and> API_ADMIN_EMAIL cfg \<noteq> [] \<and> API_PASSWORD cfg \<noteq> []
         then Inr (token_pair j cfg now (lr_email b) ''super_admin'' None (lr_email b) (API_ADMIN_FULL_NAME cfg))
         else Inl invalid_credentials)"
proof (cases "List.find (\<lambda>u. us_email u = lr_email b) (t_admin_users d)")
  case None
  then have "filter (\<lambda>u. us_email u = lr_email b) (t_admin_users d) = []"
    by (simp add: find_None_iff filter_empty_conv)
  with None show ?thesis by (simp add: login_def)
next
  case (Some u)
  then have u: "u \<in> set (t_admin_users d)" "us_email u = lr_email b" by (auto simp: find_Some_iff)
  with unique_email_filter [OF assms u(1)]
  have "filter (\<lambda>v. us_email v = lr_email b) (t_admin_users d) = [u]" by simp
  with Some show ?thesis
    by (cases "us_password_hash u")
      (auto simp: login_def verify_password_def split: option.splits)
qed

definition demo_jwt :: "(string \<times> claims) jwt_lib" where
  "demo_jwt = \<lparr>jwt_encode = (\<lambda>key c. (key, c)),
     jwt_decode = (\<lambda>key now t. if fst t = key \<and> now \<le> cm_exp (snd t) then Some (snd t) else None)\<rparr>"

definition demo_bcrypt :: bcrypt_lib where
  "demo_bcrypt = \<lparr>bc_hashpw = (\<lambda>p salt. salt @ CHR 36 # p),
     bc_checkpw = (\<lambda>p h. if CHR 36 \<in> set h then Some (tl (dropWhile (\<lambda>c. c \<noteq> CHR 36) h) = p) else None)\<rparr>"

definition demo_auth :: auth_config where
  "demo_auth = \<lparr>JWT_SECRET_KEY = ''key'', ACCESS_TOKEN_EXPIRE_MINUTES = 30, REFRESH_TOKEN_EXPIRE_MINUTES = 10080,
     API_ADMIN_EMAIL = ''root@x'', API_ADMIN_FULL_NAME = ''Root'', API_PASSWORD = ''boot''\<rparr>"

definition demo_users :: database where
  "demo_users = empty_database\<lparr>t_admin_users :=
     [\<lparr>us_id = ''u1'', us_email = ''a@x'', us_full_name = ''A'', us_password_hash = Some (''s'' @ CHR 36 # ''pw''),
       us_role = Some ''tenant_admin'', us_tenant_id = Some 7, us_status = Some ''active'', us_created_at = 0\<rparr>]\<rparr>"

lemma demo_jwt_ok: "jwt_ok demo_jwt"
  by (simp add: jwt_ok_def demo_jwt_def)

theorem login_decision_witness:
  "login demo_jwt demo_bcrypt demo_auth 0 \<lparr>lr_email = ''a@x'', lr_password = ''pw''\<rparr> demo_users =
     Inr (token_pair demo_jwt demo_auth 0 ''u1'' ''tenant_admin'' (Some 7) ''a@x'' ''A'')
   \<and> login demo_jwt demo_bcrypt demo_auth 0 \<lparr>lr_email = ''a@x'', lr_password = ''no''\<rparr> demo_users =
     Inl invalid_credentials"
proof -
  have d: "distinct (map us_email (t_admin_users demo_users))" by (simp add: demo_users_def)
  show ?thesis
    using login_decision [OF d, of demo_jwt demo_bcrypt demo_auth 0]
    by (simp add: demo_users_def demo_bcrypt_def py_or_def)
qed

text \<open>Access and refresh tokens are not interchangeable and expire: an access token issued at
  \<open>now\<close> authenticates its subject, role and tenant until its lifetime is over and is never accepted
  as a refresh token; a refresh token is never accepted as an access token and, while it is valid,
  yields a new pair for the same subject and role.\<close>

lemma token_kinds_are_separate:
  assumes "jwt_ok j"
  shows "get_current_user j cfg t (Some (create_access_token j cfg now subject role client_id email full_name)) =
      (if whole_seconds t \<le> whole_seconds (now + seconds (60 * ACCESS_TOKEN_EXPIRE_MINUTES cfg))
       then Inr (access_claims cfg now subject role client_id email full_name)
       else Inl (HTTPException 401 ''Invalid or expired token''))
    \<and> \<not> is_ok (refresh_token j cfg t (create_access_token j cfg now subject role client_id email full_name))
    \<and> \<not> is_ok (get_current_user j cfg t (Some (create_refresh_token j cfg now subject role email full_name)))
    \<and> (whole_seconds t \<le> whole_seconds (now + seconds (60 * REFRESH_TOKEN_EXPIRE_MINUTES cfg)) \<longrightarrow>
         refresh_token j cfg t (create_refresh_token j cfg now subject role email full_name) =
           Inr (token_pair j cfg t subject role None email full_name))"
proof -
  have "\<not> is_ok (refresh_token j cfg t (create_access_token j cfg now subject role client_id email full_name))"
    using access_token_refresh [OF assms, of cfg t now subject role client_id email full_name]
    by (auto simp: refresh_token_def is_ok_def split: sum.splits)
  then show ?thesis
    using access_token_user [OF assms] refresh_token_user [OF assms] refresh_issues [OF assms] by simp
qed

lemma token_kinds_are_separate_example:
  "is_ok (get_current_user demo_jwt demo_auth (seconds 60)
     (Some (create_access_token demo_jwt demo_auth 0 ''u1'' ''agent'' (Some 7) ''a@x'' ''A'')))
   \<and> \<not> is_ok (get_current_user demo_jwt demo_auth (seconds 1801)
     (Some (create_access_token demo_jwt demo_auth 0 ''u1'' ''agent'' (Some 7) ''a@x'' ''A'')))"
  using token_kinds_are_separate [OF demo_jwt_ok, of demo_auth "seconds 60" 0 "''u1''" "''agent''" "Some 7" "''a@x''" "''A''"]
    token_kinds_are_separate [OF demo_jwt_ok, of demo_auth "seconds 1801" 0 "''u1''" "''agent''" "Some 7" "''a@x''" "''A''"]
  by (simp add: demo_auth_def seconds_def whole_seconds_def)

end
