(* ===== verification/Tenancy.thy ===== *)
theory Tenancy
  imports Auth
begin

text \<open>
  Tenant isolation: the row-level-security policies of the migrations
  (\<^verbatim>\<open>alembic/versions/df467b3bdd3f\<close>, and the same policy on \<open>customers\<close> and \<open>call_jobs\<close>), the
  per-request tenant setting of \<^verbatim>\<open>services/api/src/tenant.py\<close>, and the connection's life in
  \<open>get_db\<close> of \<^verbatim>\<open>services/api/src/database.py\<close>.

  \<open>app.current_tenant\<close> is a PostgreSQL session setting. Setting and resetting it follow the
  transaction they run in: a rollback undoes both. A session takes a connection from the engine's
  pool when a statement needs one and gives it back at the end of each transaction; the pool is
  first in, first out. Closing the session rolls back whatever transaction is still open.
\<close>

section \<open>Policies\<close>

definition ALL_TENANTS_SENTINEL :: string where
  "ALL_TENANTS_SENTINEL = ''__all_tenants__''"

text \<open>
  The USING and WITH CHECK expression of every policy; \<open>None\<close> is NULL, and a comparison with NULL is
  not true.
\<close>

definition tenant_isolation :: "string option \<Rightarrow> string option \<Rightarrow> bool" where
  "tenant_isolation current tenant =
     (current = Some ALL_TENANTS_SENTINEL
      \<or> (case (tenant, current) of (Some t, Some c) \<Rightarrow> t = c | _ \<Rightarrow> False))"

text \<open>The tenant expression of each protected table, and what a session with a given setting sees.\<close>

definition rls_view :: "string option \<Rightarrow> database \<Rightarrow> database" where
  "rls_view current d =
     d\<lparr>t_call_requests := filter (\<lambda>r. tenant_isolation current (map_option int_str (ca_client_id r))) (t_call_requests d),
       t_admin_users := filter (\<lambda>r. tenant_isolation current (map_option int_str (us_tenant_id r))) (t_admin_users d),
       t_calls := filter (\<lambda>r. tenant_isolation current (Some (call_tenant_id r))) (t_calls d),
       t_audit_logs := filter (\<lambda>r. tenant_isolation current (au_tenant_id r)) (t_audit_logs d),
       t_customers := filter (\<lambda>r. tenant_isolation current (Some (int_str (cu_client_id r)))) (t_customers d),
       t_call_jobs := filter (\<lambda>r. tenant_isolation current (job_tenant_id r)) (t_call_jobs d)\<rparr>"

section \<open>The setting on a connection\<close>

text \<open>The value a rollback returns to, and the value statements see now.\<close>

record connection =
  guc_committed :: "string option"
  guc_now :: "string option"

text \<open>A pooled connection has no open transaction.\<close>

definition pooled :: "string option \<Rightarrow> connection" where
  "pooled v = \<lparr>guc_committed = v, guc_now = v\<rparr>"

text \<open>A session: the connection of its open transaction, and the settings of the idle connections.\<close>

record db_session =
  held :: "connection option"
  idle :: "string option list"

datatype conn_op = Set_config string | Reset | Statement | Commit | Rollback

definition checkout :: "db_session \<Rightarrow> connection \<times> string option list" where
  "checkout s =
     (case held s of
        Some c \<Rightarrow> (c, idle s)
      | None \<Rightarrow> (case idle s of [] \<Rightarrow> (pooled None, []) | v # vs \<Rightarrow> (pooled v, vs)))"

definition on_conn :: "(connection \<Rightarrow> connection) \<Rightarrow> db_session \<Rightarrow> db_session" where
  "on_conn f s = (case checkout s of (c, vs) \<Rightarrow> \<lparr>held = Some (f c), idle = vs\<rparr>)"

definition release :: "(connection \<Rightarrow> string option) \<Rightarrow> db_session \<Rightarrow> db_session" where
  "release f s = (case held s of None \<Rightarrow> s | Some c \<Rightarrow> \<lparr>held = None, idle = idle s @ [f c]\<rparr>)"

fun conn_step :: "db_session \<Rightarrow> conn_op \<Rightarrow> db_session" where
  "conn_step s (Set_config v) = on_conn (\<lambda>c. c\<lparr>guc_now := Some v\<rparr>) s"
| "conn_step s Reset = on_conn (\<lambda>c. c\<lparr>guc_now := Some []\<rparr>) s"
| "conn_step s Statement = on_conn (\<lambda>c. c) s"
| "conn_step s Commit = release guc_now s"
| "conn_step s Rollback = release guc_committed s"

definition fresh_session :: "string option list \<Rightarrow> db_session" where
  "fresh_session vs = \<lparr>held = None, idle = vs\<rparr>"

section \<open>The dependencies\<close>

text \<open>\<open>str(user.get("client_id") or "")\<close>, or the sentinel for \<open>super_admin\<close>.\<close>

definition tenant_value :: "claims \<Rightarrow> string" where
  "tenant_value user =
     (if claim_role user = ''super_admin'' then ALL_TENANTS_SENTINEL
      else case cm_client_id user of None \<Rightarrow> [] | Some c \<Rightarrow> if c \<noteq> 0 then int_str c else [])"

definition set_tenant_context :: "string \<Rightarrow> conn_op list" where
  "set_tenant_context v = [Set_config v]"

definition get_tenant_scoped_db :: "claims \<Rightarrow> conn_op list" where
  "get_tenant_scoped_db user = set_tenant_context (tenant_value user)"

definition get_internal_service_db :: "conn_op list" where
  "get_internal_service_db = set_tenant_context ALL_TENANTS_SENTINEL"

definition get_login_db :: "conn_op list" where
  "get_login_db = set_tenant_context ALL_TENANTS_SENTINEL"

text \<open>
  One request: the dependency, the handler's statements, the rollback when it raised, the reset in
  \<open>finally\<close>, and the rollback of closing the session. The result is the pool afterwards.
\<close>

definition get_db :: "conn_op list \<Rightarrow> conn_op list \<Rightarrow> bool \<Rightarrow> string option list \<Rightarrow> string option list" where
  "get_db dependency handler raised vs =
     idle (run conn_step (fresh_session vs)
       (dependency @ handler @ (if raised then [Rollback] else []) @ [Reset, Rollback]))"

text \<open>The setting each statement of the handler sees.\<close>

fun seen_settings :: "db_session \<Rightarrow> conn_op list \<Rightarrow> string option list" where
  "seen_settings s [] = []"
| "seen_settings s (Statement # ops) =
     guc_now (fst (checkout s)) # seen_settings (conn_step s Statement) ops"
| "seen_settings s (op # ops) = seen_settings (conn_step s op) ops"

definition handler_settings :: "conn_op list \<Rightarrow> conn_op list \<Rightarrow> string option list \<Rightarrow> string option list" where
  "handler_settings dependency handler vs = seen_settings (run conn_step (fresh_session vs) dependency) handler"

section \<open>What a setting shows\<close>

lemma sentinel_not_number: "int_str k \<noteq> ALL_TENANTS_SENTINEL"
  using int_str_no_underscore [of k] by (auto simp: ALL_TENANTS_SENTINEL_def)

lemma isolation_all: "tenant_isolation (Some ALL_TENANTS_SENTINEL) t"
  by (simp add: tenant_isolation_def)

lemma isolation_number [simp]:
  "tenant_isolation (Some (int_str k)) t \<longleftrightarrow> t = Some (int_str k)"
  by (auto simp: tenant_isolation_def sentinel_not_number split: option.splits)

lemma isolation_unset:
  "v = None \<or> v = Some [] \<Longrightarrow> tenant_isolation v t \<longleftrightarrow> v = Some [] \<and> t = Some []"
  by (auto simp: tenant_isolation_def ALL_TENANTS_SENTINEL_def split: option.splits)

lemma view_all: "rls_view (Some ALL_TENANTS_SENTINEL) d = d"
  by (simp add: rls_view_def isolation_all)

text \<open>Handlers never touch the setting themselves.\<close>

definition plain :: "conn_op list \<Rightarrow> bool" where
  "plain ops = (\<forall>op \<in> set ops. op = Statement \<or> op = Commit \<or> op = Rollback)"

lemmas session_defs = checkout_def on_conn_def release_def fresh_session_def pooled_def

text \<open>
  A session runs under a setting as long as it keeps its connection, or gives back and takes again
  the only one of the pool.
\<close>

definition runs_under :: "string option \<Rightarrow> bool \<Rightarrow> db_session \<Rightarrow> bool" where
  "runs_under v only s =
     (case held s of Some c \<Rightarrow> guc_now c = v \<and> (only \<longrightarrow> idle s = []) | None \<Rightarrow> only \<and> idle s = [v])"

lemma runs_under_checkout: "runs_under v only s \<Longrightarrow> guc_now (fst (checkout s)) = v"
  by (auto simp: runs_under_def session_defs split: option.splits)

lemma runs_under_step:
  "runs_under v only s \<Longrightarrow> op = Statement \<or> (op = Commit \<and> only) \<Longrightarrow> runs_under v only (conn_step s op)"
  by (auto simp: runs_under_def session_defs split: option.splits)

lemma runs_under_seen:
  assumes "runs_under v only s" "plain ops" "Rollback \<notin> set ops" "Commit \<notin> set ops \<or> only"
    and "w \<in> set (seen_settings s ops)"
  shows "w = v"
  using assms
proof (induction ops arbitrary: s)
  case (Cons op ops)
  have IH: "runs_under v only s' \<Longrightarrow> w \<in> set (seen_settings s' ops) \<Longrightarrow> w = v" for s'
    using Cons by (auto simp: plain_def)
  have op: "op = Statement \<or> (op = Commit \<and> only)" using Cons.prems by (auto simp: plain_def)
  then show ?case
    using Cons.prems IH [OF runs_under_step [OF Cons.prems(1) op]] runs_under_checkout [OF Cons.prems(1)]
    by auto
qed simp

lemma runs_under_set: "length vs \<le> 1 \<or> \<not> only \<Longrightarrow> runs_under (Some v) only (run conn_step (fresh_session vs) [Set_config v])"
  by (cases vs) (auto simp: runs_under_def session_defs)

text \<open>Statements that keep their transaction open leave the session as it is.\<close>

lemma run_statements:
  assumes "set ops \<subseteq> {Statement}" "held s = Some c"
  shows "run conn_step s ops = s"
    and "seen_settings s (ops @ rest) = seen_settings s ops @ seen_settings s rest"
proof -
  have step: "conn_step s Statement = s" using assms(2) by (cases s) (simp add: session_defs)
  show "run conn_step s ops = s" using assms(1) by (induction ops) (auto simp del: conn_step.simps simp: step)
  show "seen_settings s (ops @ rest) = seen_settings s ops @ seen_settings s rest"
    using assms(1) by (induction ops) (auto simp del: conn_step.simps simp: step)
qed

text \<open>Handlers that set nothing only rotate the pool.\<close>

definition settings_of :: "db_session \<Rightarrow> string option set" where
  "settings_of s = set (idle s) \<union> (case held s of None \<Rightarrow> {} | Some c \<Rightarrow> {guc_now c})"

definition unchanged :: "db_session \<Rightarrow> bool" where
  "unchanged s = (case held s of None \<Rightarrow> idle s \<noteq> [] | Some c \<Rightarrow> guc_now c = guc_committed c)"

lemma plain_rotates:
  assumes "plain ops" "unchanged s"
  shows "unchanged (run conn_step s ops) \<and> settings_of (run conn_step s ops) = settings_of s"
  using assms
proof (induction ops arbitrary: s)
  case (Cons op ops)
  have "unchanged (conn_step s op) \<and> settings_of (conn_step s op) = settings_of s"
    using Cons.prems by (cases op)
      (auto simp: plain_def unchanged_def settings_of_def session_defs split: option.splits list.splits)
  with Cons show ?case by (simp add: plain_def)
qed simp

lemma close_rotates:
  "unchanged s \<Longrightarrow> set (idle (run conn_step s [Reset, Rollback])) = settings_of s"
  by (auto simp: unchanged_def settings_of_def session_defs split: option.splits list.splits)

section \<open>Requests for calls\<close>

text \<open>
  \<open>POST /call\<close> of \<^verbatim>\<open>main.py\<close>, the one tenant-scoped write outside the two dashboards' routers.
  \<open>validate_phone\<close> strips blanks, dashes and parentheses and accepts \<open>+\<close>, a digit from 1 to 9 and seven
  to fourteen more digits.
\<close>

record caller_request =
  cq_customer_name :: string
  cq_phone_number :: string
  cq_hotel_name :: string
  cq_check_in_date :: string
  cq_check_out_date :: string

definition e164 :: "string \<Rightarrow> bool" where
  "e164 s =
     (case s of
        p # d # ds \<Rightarrow> p = CHR 43 \<and> is_digit d \<and> d \<noteq> CHR 48 \<and> list_all is_digit ds
          \<and> 7 \<le> length ds \<and> length ds \<le> 14
      | _ \<Rightarrow> False)"

definition validate_phone :: "string \<Rightarrow> string option" where
  "validate_phone v =
     (let cleaned = filter (\<lambda>c. \<not> is_space c \<and> c \<notin> {CHR 45, CHR 40, CHR 41}) v
      in if e164 cleaned then Some cleaned else None)"

text \<open>The Redis sessions of this service, \<open>None\<close> without \<open>REDIS_URL\<close>; a failed write is logged.\<close>

record call_api =
  cp_db :: database
  cp_redis :: "(string \<rightharpoonup> caller_request \<times> datetime) option"

definition save_call_session ::
  "net \<Rightarrow> datetime \<Rightarrow> string \<Rightarrow> caller_request \<Rightarrow> (string \<rightharpoonup> caller_request \<times> datetime) option
     \<Rightarrow> (string \<rightharpoonup> caller_request \<times> datetime) option" where
  "save_call_session n now sid data r =
     (if n = RequestLost then r else map_option (\<lambda>m. m(''call:'' @ sid \<mapsto> (data, now + seconds 3600))) r)"

definition get_call_session ::
  "net \<Rightarrow> datetime \<Rightarrow> string \<Rightarrow> (string \<rightharpoonup> caller_request \<times> datetime) option \<Rightarrow> caller_request option" where
  "get_call_session n now sid r =
     (case r of None \<Rightarrow> None
      | Some m \<Rightarrow> if n \<noteq> Delivered then None
          else case m (''call:'' @ sid) of None \<Rightarrow> None
            | Some (data, expires) \<Rightarrow> if now < expires then Some data else None)"

definition new_caller :: "int \<Rightarrow> datetime \<Rightarrow> claims \<Rightarrow> caller_request \<Rightarrow> caller" where
  "new_caller i now user b =
     \<lparr>ca_id = i, ca_customer_name = Some (cq_customer_name b), ca_phone_number = Some (cq_phone_number b),
      ca_hotel_name = Some (cq_hotel_name b), ca_check_in_date = Some (cq_check_in_date b),
      ca_check_out_date = Some (cq_check_out_date b), ca_client_id = cm_client_id user,
      ca_created_at = now, ca_status = ''pending'', ca_call_type = ''outbound'', ca_is_simulation = False,
      ca_customer_id = None, ca_telephony_call_id = None, ca_connection_status = ''not_attempted'',
      ca_failure_reason = None, ca_duration_seconds = None, ca_recording_url = None, ca_notes = None,
      ca_outcome = None\<rparr>"

text \<open>\<open>i\<close> is the next value of the table's sequence, \<open>sid\<close> the session's fresh identifier.\<close>

definition make_call ::
  "net \<Rightarrow> datetime \<Rightarrow> int \<Rightarrow> string \<Rightarrow> claims \<Rightarrow> caller_request \<Rightarrow> call_api \<Rightarrow> call_api \<times> string option http" where
  "make_call n now i sid user body s =
     (case validate_phone (cq_phone_number body) of
        None \<Rightarrow> (s, Inl (HTTPException 422 ''phone_number must be E.164 format (e.g. +919876543210)''))
      | Some phone \<Rightarrow>
          let b = body\<lparr>cq_phone_number := phone\<rparr>; row = new_caller i now user b; d = cp_db s in
          if \<not> tenant_isolation (Some (tenant_value user)) (map_option int_str (ca_client_id row))
          then (s, Inl (Unhandled ''InsufficientPrivilegeError''))
          else if \<not> fk_null cl_id (t_clients d) (ca_client_id row) \<or> i \<in> ca_id ` set (t_call_requests d)
          then (s, Inl (Unhandled ''IntegrityError''))
          else (\<lparr>cp_db = d\<lparr>t_call_requests := t_call_requests d @ [row]\<rparr>,
                 cp_redis = save_call_session n now sid b (cp_redis s)\<rparr>,
                Inr (if cp_redis s = None then None else Some sid)))"

lemma is_digit_plain: "is_digit c \<Longrightarrow> \<not> is_space c \<and> c \<notin> {CHR 45, CHR 40, CHR 41}"
  by (auto simp: is_digit_def is_space_def Let_def)

lemma e164_chars: "e164 s \<Longrightarrow> \<forall>c \<in> set s. \<not> is_space c \<and> c \<notin> {CHR 45, CHR 40, CHR 41}"
  using is_digit_plain
  by (auto simp: e164_def is_space_def Let_def list_all_iff split: list.splits)

lemma validate_phone_canonical:
  assumes "validate_phone v = Some p"
  shows "e164 p \<and> validate_phone p = Some p"
proof -
  have p: "e164 p" using assms by (auto simp: validate_phone_def Let_def split: if_splits)
  with e164_chars [OF p] show ?thesis by (simp add: validate_phone_def filter_id_conv)
qed

section \<open>Properties\<close>

definition demo_user :: "string \<Rightarrow> int option \<Rightarrow> claims" where
  "demo_user role cid =
     \<lparr>cm_sub = Some ''u1'', cm_role = Some role, cm_exp = 100, cm_type = Some ''access'', cm_email = None,
      cm_full_name = None, cm_client_id = cid\<rparr>"



text \<open>The setting fails closed: with no tenant set, or an empty one (a token without a tenant), a
  statement sees no customer, no call request, no account and no row without a tenant.\<close>

lemma unset_tenant_sees_nothing:
  assumes "v = None \<or> v = Some []"
  shows "t_customers (rls_view v d) = [] \<and> t_call_requests (rls_view v d) = []
    \<and> t_admin_users (rls_view v d) = []
    \<and> (\<forall>r \<in> set (t_calls (rls_view v d)). call_tenant_id r = [])
    \<and> (\<forall>r \<in> set (t_audit_logs (rls_view v d)). au_tenant_id r = Some [])
    \<and> (\<forall>r \<in> set (t_call_jobs (rls_view v d)). job_tenant_id r = Some [])"
  using assms isolation_unset [OF assms]
  by (auto simp: rls_view_def filter_empty_conv)

text \<open>The reset in \<open>get_db\<close> is lost: it runs in a transaction that closing the session rolls back.
  After a request that committed, a connection with that request's tenant is in the pool, every
  other connection keeps the setting it had, and a request that sets no tenant can run as that
  tenant.\<close>

lemma reset_is_rolled_back:
  assumes "set pre \<subseteq> {Statement}" "plain post"
  shows "set (get_db (get_tenant_scoped_db user) (pre @ Commit # post) raised vs) =
      insert (Some (tenant_value user)) (set (tl vs))
    \<and> handler_settings [] [Statement] [Some (tenant_value user)] = [Some (tenant_value user)]"
proof -
  let ?s0 = "run conn_step (fresh_session vs) (get_tenant_scoped_db user)"
  obtain c where c: "held ?s0 = Some c" "guc_now c = Some (tenant_value user)" "idle ?s0 = tl vs"
    by (cases vs) (auto simp: session_defs get_tenant_scoped_db_def set_tenant_context_def)
  let ?s1 = "run conn_step ?s0 (pre @ [Commit])"
  have s1: "?s1 = \<lparr>held = None, idle = tl vs @ [Some (tenant_value user)]\<rparr>"
    using run_statements(1) [OF assms(1) c(1)] c by (simp add: run_append release_def)
  then have u: "unchanged ?s1" "settings_of ?s1 = insert (Some (tenant_value user)) (set (tl vs))"
    by (simp_all add: unchanged_def settings_of_def)
  have "plain (post @ (if raised then [Rollback] else []))" using assms(2) by (auto simp: plain_def)
  from plain_rotates [OF this u(1)] u(2)
  have "set (idle (run conn_step ?s1 (post @ (if raised then [Rollback] else []) @ [Reset, Rollback]))) =
      insert (Some (tenant_value user)) (set (tl vs))"
    using close_rotates by (simp only: append_assoc [symmetric] run_append)
  then show ?thesis
    by (simp add: get_db_def run_append handler_settings_def session_defs)
qed

lemma reset_is_rolled_back_example:
  "set (get_db (get_tenant_scoped_db (demo_user ''super_admin'' None)) [Statement, Commit, Statement] False [None, Some ''7''])
     = {Some ALL_TENANTS_SENTINEL, Some ''7''}"
  using reset_is_rolled_back [of "[Statement]" "[Statement]" "demo_user ''super_admin'' None" False "[None, Some ''7'']"]
  by (simp add: plain_def tenant_value_def demo_user_def claim_role_def)

text \<open>C29. The tenant setting does not outlive the first transaction. After a rollback a handler that has
  not committed reads, on the only connection, with the setting it had before: the internal API's
  handlers then look up the existing job of a duplicate event, or the reason a claim failed, and on
  a new connection see no job. After a commit or a rollback with another connection idle, the next
  statement runs with that connection's setting, whatever tenant it is.\<close>

theorem tenant_context_ends_with_transaction:
  assumes "set pre \<subseteq> {Statement}"
  shows "handler_settings get_internal_service_db (pre @ [Rollback, Statement]) [v0] =
      handler_settings get_internal_service_db pre [v0] @ [v0]
    \<and> t_call_jobs (rls_view None d) = []
    \<and> handler_settings (get_tenant_scoped_db user) (pre @ [Commit, Statement]) (v0 # v1 # vs) =
      handler_settings (get_tenant_scoped_db user) pre (v0 # v1 # vs) @ [v1]
    \<and> handler_settings get_internal_service_db (pre @ [Rollback, Statement]) (v0 # v1 # vs) =
      handler_settings get_internal_service_db pre (v0 # v1 # vs) @ [v1]"
proof -
  have "seen_settings s (pre @ [op, Statement]) =
      seen_settings s pre @ [guc_now (fst (checkout (conn_step s op)))]"
    if "held s = Some c" "op = Commit \<or> op = Rollback" for s c op
    using run_statements(2) [OF assms that(1), of "[op, Statement]"] that(2) by auto
  then show ?thesis
    by (simp add: handler_settings_def get_internal_service_db_def get_tenant_scoped_db_def
        set_tenant_context_def session_defs rls_view_def isolation_unset)
qed

theorem tenant_context_ends_with_transaction_witness:
  "handler_settings get_internal_service_db [Statement, Rollback, Statement] [None] = [Some ALL_TENANTS_SENTINEL, None]
   \<and> handler_settings (get_tenant_scoped_db (demo_user ''agent'' (Some 7))) [Statement, Commit, Statement]
       [None, Some ''9''] = [Some ''7'', Some ''9'']"
proof -
  have "handler_settings get_internal_service_db [Statement] [None] = [Some ALL_TENANTS_SENTINEL]"
    "handler_settings (get_tenant_scoped_db (demo_user ''agent'' (Some 7))) [Statement] [None, Some ''9''] = [Some ''7'']"
    by code_simp+
  with tenant_context_ends_with_transaction [of "[Statement]" None empty_database "demo_user ''agent'' (Some 7)" "Some ''9''" "[]"]
  show ?thesis by simp
qed



text \<open>A call request is stored for the caller's own tenant with a canonical number: when
  \<open>POST /call\<close> succeeds, it has appended exactly one pending, not simulated row whose tenant is the
  token's (any or none for a \<open>super_admin\<close>, otherwise a tenant that exists) and whose number is E.164 and unchanged by
  cleaning it again; and when Redis took the session it can be read back for an hour.\<close>

lemma call_request_is_tenant_scoped:
  assumes "make_call n now i sid user body s = (s', Inr r)"
  shows "\<exists>row p. t_call_requests (cp_db s') = t_call_requests (cp_db s) @ [row]
    \<and> ca_client_id row = cm_client_id user \<and> ca_status row = ''pending'' \<and> \<not> ca_is_simulation row
    \<and> (claim_role user \<noteq> ''super_admin'' \<longrightarrow> (\<exists>k. cm_client_id user = Some k \<and> k \<noteq> 0 \<and> k \<in> cl_id ` set (t_clients (cp_db s))))
    \<and> ca_phone_number row = Some p \<and> e164 p \<and> validate_phone p = Some p
    \<and> (cp_redis s \<noteq> None \<longrightarrow> n \<noteq> RequestLost \<longrightarrow> t < now + seconds 3600 \<longrightarrow>
         get_call_session Delivered t sid (cp_redis s') = Some (body\<lparr>cq_phone_number := p\<rparr>))"
proof -
  from assms obtain p where p: "validate_phone (cq_phone_number body) = Some p"
    by (auto simp: make_call_def split: option.splits)
  let ?b = "body\<lparr>cq_phone_number := p\<rparr>"
  from assms p have h: "tenant_isolation (Some (tenant_value user)) (map_option int_str (cm_client_id user))"
    "fk_null cl_id (t_clients (cp_db s)) (cm_client_id user)"
    "s' = \<lparr>cp_db = (cp_db s)\<lparr>t_call_requests := t_call_requests (cp_db s) @ [new_caller i now user ?b]\<rparr>,
       cp_redis = save_call_session n now sid ?b (cp_redis s)\<rparr>"
    by (auto simp: make_call_def Let_def new_caller_def split: if_splits)
  have "\<exists>k. cm_client_id user = Some k \<and> k \<noteq> 0 \<and> k \<in> cl_id ` set (t_clients (cp_db s))"
    if "claim_role user \<noteq> ''super_admin''"
    using h(1,2) that
    by (cases "cm_client_id user") (auto simp: tenant_value_def isolation_unset split: if_splits)
  then show ?thesis
    using h(3) validate_phone_canonical [OF p]
    by (intro exI [of _ "new_caller i now user ?b"] exI [of _ p])
      (auto simp: new_caller_def save_call_session_def get_call_session_def)
qed

definition demo_call_body :: caller_request where
  "demo_call_body = \<lparr>cq_customer_name = ''Ann'', cq_phone_number = ''+91 (731) 462-3519'', cq_hotel_name = ''H'',
     cq_check_in_date = ''a'', cq_check_out_date = ''b''\<rparr>"

lemma call_request_is_tenant_scoped_example:
  "\<exists>row. t_call_requests (cp_db (fst (make_call Delivered 0 1 ''s1'' (demo_user ''super_admin'' None) demo_call_body
      \<lparr>cp_db = empty_database, cp_redis = Some Map.empty\<rparr>))) = [row]
    \<and> ca_status row = ''pending'' \<and> ca_client_id row = None"
proof -
  let ?s = "\<lparr>cp_db = empty_database, cp_redis = Some Map.empty\<rparr>"
  let ?m = "make_call Delivered 0 1 ''s1'' (demo_user ''super_admin'' None) demo_call_body ?s"
  have "snd ?m = Inr (Some ''s1'')" by code_simp
  then have m: "?m = (fst ?m, Inr (Some ''s1''))" by (metis prod.collapse)
  from call_request_is_tenant_scoped [OF m, of 0] show ?thesis
    by (auto simp: demo_user_def empty_database_def)
qed

end
