(* ===== verification/Queries.thy ===== *)
theory Queries
  imports Tenancy
begin

text \<open>
  What the two dashboard routers share: the pagination helper and the paged SELECT around it,
  PostgreSQL's ILIKE, ordering by a timestamp, and the calendar functions of the statistics.
  Rows with equal sort keys, and the rows of a statement without ORDER BY, keep their table order
  here; SQL leaves that order open. Page numbers stay below the 64-bit offsets of PostgreSQL.
\<close>

section \<open>Pages\<close>

text \<open>\<open>math.ceil(total / per_page)\<close>; the float quotient is exact enough below 2^45 rows.\<close>

definition paginate :: "int \<Rightarrow> int \<Rightarrow> int \<Rightarrow> int" where
  "paginate count page per_page = (if count \<noteq> 0 then - ((- count) div per_page) else 0)"

record 'r page =
  pg_data :: "'r list"
  pg_total :: int
  pg_page :: int
  pg_per_page :: int
  pg_total_pages :: int

definition valid_page :: "int \<Rightarrow> int \<Rightarrow> bool" where
  "valid_page page per_page = (1 \<le> page \<and> 1 \<le> per_page \<and> per_page \<le> 100)"

text \<open>The count, then \<open>offset((page - 1) * per_page).limit(per_page)\<close>.\<close>

definition page_of :: "int \<Rightarrow> int \<Rightarrow> 'r list \<Rightarrow> 'r page http" where
  "page_of page per_page rows =
     (if \<not> valid_page page per_page then Inl (HTTPException 422 ''validation error'')
      else Inr \<lparr>pg_data = take (nat per_page) (drop (nat ((page - 1) * per_page)) rows),
                pg_total = int (length rows), pg_page = page, pg_per_page = per_page,
                pg_total_pages = paginate (int (length rows)) page per_page\<rparr>)"

text \<open>The same page with every row converted.\<close>

definition map_page :: "('r \<Rightarrow> 's) \<Rightarrow> 'r page \<Rightarrow> 's page" where
  "map_page f p =
     \<lparr>pg_data = map f (pg_data p), pg_total = pg_total p, pg_page = pg_page p, pg_per_page = pg_per_page p,
      pg_total_pages = pg_total_pages p\<rparr>"

text \<open>\<open>Result.scalar_one_or_none()\<close>.\<close>

definition scalar_one_or_none :: "'r list \<Rightarrow> 'r option http" where
  "scalar_one_or_none rows =
     (case rows of [] \<Rightarrow> Inr None | [r] \<Rightarrow> Inr (Some r) | _ \<Rightarrow> Inl (Unhandled ''MultipleResultsFound''))"

text \<open>\<open>Session.get\<close> by an integer primary key; the driver refuses numbers the column cannot hold.\<close>

definition get_by_int :: "('r \<Rightarrow> int) \<Rightarrow> 'r list \<Rightarrow> int \<Rightarrow> string \<Rightarrow> 'r http" where
  "get_by_int key rows i missing =
     (if \<not> int4 i then Inl (Unhandled ''DataError'')
      else case tbl_get key rows i of None \<Rightarrow> Inl (HTTPException 404 missing) | Some r \<Rightarrow> Inr r)"

lemma get_by_int_Inr:
  "get_by_int key rows i missing = Inr r \<longleftrightarrow> int4 i \<and> tbl_get key rows i = Some r"
  by (simp add: get_by_int_def split: option.splits)

definition newest_first :: "('r \<Rightarrow> datetime) \<Rightarrow> 'r list \<Rightarrow> 'r list" where
  "newest_first key rows = sort_key (\<lambda>r. - key r) rows"

lemma set_newest_first [simp]: "set (newest_first key rows) = set rows"
  by (simp add: newest_first_def)

lemma insort_key_map: "(\<And>x. k (f x) = k x) \<Longrightarrow> insort_key k (f x) (map f xs) = map f (insort_key k x xs)"
  by (induction xs) simp_all

lemma newest_first_map:
  assumes "\<And>x. k (f x) = k x"
  shows "newest_first k (map f rows) = map f (newest_first k rows)"
  using insort_key_map [of "\<lambda>r. - k r" f] assms by (induction rows) (simp_all add: newest_first_def)

lemma map_page_comp: "map_page f (map_page g p) = map_page (f \<circ> g) p"
  by (simp add: map_page_def)

lemma page_of_map: "page_of page per_page (map f rows) = map_sum id (map_page f) (page_of page per_page rows)"
  by (simp add: page_of_def map_page_def take_map drop_map)

lemma length_newest_first [simp]: "length (newest_first key rows) = length rows"
  by (simp add: newest_first_def)

section \<open>ILIKE\<close>

text \<open>LIKE with \<open>%\<close>, \<open>_\<close> and the escape character backslash.\<close>

fun sql_like :: "string \<Rightarrow> string \<Rightarrow> bool" where
  "sql_like [] s = (s = [])"
| "sql_like (p # ps) s =
     (if p = CHR 37 then sql_like ps s \<or> (case s of [] \<Rightarrow> False | _ # cs \<Rightarrow> sql_like (p # ps) cs)
      else if p = CHR 92 then
        (case ps of [] \<Rightarrow> False
         | q # qs \<Rightarrow> (case s of [] \<Rightarrow> False | c # cs \<Rightarrow> c = q \<and> sql_like qs cs))
      else (case s of [] \<Rightarrow> False | c # cs \<Rightarrow> (p = CHR 95 \<or> c = p) \<and> sql_like ps cs))"

definition ilike :: "string option \<Rightarrow> string \<Rightarrow> bool" where
  "ilike x pat = (case x of None \<Rightarrow> False | Some s \<Rightarrow> sql_like (py_lower pat) (py_lower s))"

definition contains_pattern :: "string \<Rightarrow> string" where
  "contains_pattern search = CHR 37 # search @ [CHR 37]"

section \<open>The calendar\<close>

definition microseconds_per_day :: int where "microseconds_per_day = 86400000000"

definition day_number :: "datetime \<Rightarrow> int" where
  "day_number t = t div microseconds_per_day"

text \<open>Year, month and day of a day counted from 1970-01-01 in the proleptic Gregorian calendar.\<close>

definition civil :: "int \<Rightarrow> int \<times> int \<times> int" where
  "civil days =
     (let z = days + 719468; era = z div 146097; doe = z mod 146097;
          yoe = (doe - doe div 1460 + doe div 36524 - doe div 146096) div 365;
          doy = doe - (365 * yoe + yoe div 4 - yoe div 100);
          mp = (5 * doy + 2) div 153;
          d = doy - (153 * mp + 2) div 5 + 1;
          m = (if mp < 10 then mp + 3 else mp - 9)
      in (yoe + era * 400 + (if m \<le> 2 then 1 else 0), m, d))"

text \<open>\<open>now.replace(day=1, hour=0, minute=0, second=0, microsecond=0)\<close>.\<close>

definition start_of_month :: "datetime \<Rightarrow> datetime" where
  "start_of_month now =
     (case civil (day_number now) of (_, _, d) \<Rightarrow> (day_number now - (d - 1)) * microseconds_per_day)"

definition pad :: "nat \<Rightarrow> int \<Rightarrow> string" where
  "pad n i = (let s = int_str i in replicate (n - length s) CHR 48 @ s)"

text \<open>\<open>str\<close> of a date: YYYY-MM-DD.\<close>

definition date_str :: "int \<Rightarrow> string" where
  "date_str days = (case civil days of (y, m, d) \<Rightarrow> pad 4 y @ CHR 45 # pad 2 m @ CHR 45 # pad 2 d)"

lemma civil_day_pos: "case civil days of (_, _, d) \<Rightarrow> 1 \<le> d"
proof -
  have "(153 * ((5 * n + 2) div 153) + 2) div 5 \<le> n" for n :: int
  proof -
    have "153 * ((5 * n + 2) div 153) \<le> 5 * n + 2" by simp
    then have "(153 * ((5 * n + 2) div 153) + 2) div 5 \<le> (5 * n + 4) div 5" by (intro zdiv_mono1) simp_all
    also have "(5 * n + 4) div 5 = n" by simp
    finally show ?thesis .
  qed
  then have "1 \<le> n - (153 * ((5 * n + 2) div 153) + 2) div 5 + 1" for n :: int
    by (simp only: le_add_same_cancel2 diff_ge_0_iff_ge)
  then show ?thesis unfolding civil_def Let_def prod.case .
qed

lemma start_of_month_le: "start_of_month now \<le> now"
proof -
  obtain y m d where c: "civil (day_number now) = (y, m, d)" by (cases "civil (day_number now)")
  then have "1 \<le> d" using civil_day_pos [of "day_number now"] by simp
  then have "(day_number now - (d - 1)) * microseconds_per_day \<le> day_number now * microseconds_per_day"
    by (intro mult_right_mono) (simp_all add: microseconds_per_day_def)
  also have "\<dots> \<le> now" by (simp add: day_number_def microseconds_per_day_def)
  finally show ?thesis by (simp add: start_of_month_def c)
qed

section \<open>Facts about pages\<close>

lemma page_of_ok:
  "valid_page page per_page \<Longrightarrow> \<exists>p. page_of page per_page rows = Inr p \<and> set (pg_data p) \<subseteq> set rows
     \<and> int (length (pg_data p)) \<le> per_page"
  by (auto simp: page_of_def valid_page_def dest!: in_set_takeD in_set_dropD)

lemma page_of_subset: "page_of page per_page rows = Inr p \<Longrightarrow> set (pg_data p) \<subseteq> set rows"
  by (auto simp: page_of_def split: if_splits dest!: in_set_takeD in_set_dropD)

text \<open>The pages up to the computed number of pages, one after the other.\<close>

definition chunk :: "nat \<Rightarrow> 'r list \<Rightarrow> nat \<Rightarrow> 'r list" where
  "chunk n rows i = take n (drop (i * n) rows)"

lemma chunks_concat: "concat (map (chunk n rows) [0..<m]) = take (m * n) rows"
proof (induction m)
  case (Suc m)
  have "take (m * n) rows @ chunk n rows m = take (m * n + n) rows"
    by (simp add: chunk_def take_add)
  with Suc show ?case by (simp add: add.commute)
qed simp

lemma page_of_chunk:
  assumes "1 \<le> per_page" "per_page \<le> 100"
  shows "map_sum id pg_data (page_of (int i + 1) per_page rows) = Inr (chunk (nat per_page) rows i)"
  using assms by (simp add: page_of_def valid_page_def chunk_def nat_mult_distrib)

lemma paginate_enough:
  assumes "1 \<le> per_page"
  shows "int n \<le> paginate (int n) page per_page * per_page"
    and "0 < n \<Longrightarrow> (paginate (int n) page per_page - 1) * per_page < int n"
proof -
  define d r where "d = (- int n) div per_page" and "r = (- int n) mod per_page"
  then have m: "d * per_page + r = - int n" and b: "0 \<le> r" "r < per_page" using assms by simp_all
  have p: "paginate (int n) page per_page = (if n = 0 then 0 else - d)"
    by (simp add: paginate_def d_def)
  show "int n \<le> paginate (int n) page per_page * per_page" using m b by (simp add: p)
  show "(paginate (int n) page per_page - 1) * per_page < int n" if "0 < n"
    using m b that by (simp add: p left_diff_distrib)
qed

lemma paginate_nonneg: "1 \<le> per_page \<Longrightarrow> 0 \<le> paginate (int n) page per_page"
  by (simp add: paginate_def div_nonpos_pos_le0)

text \<open>The pages of a listing cover it: nothing is lost or repeated, and none of them is empty.\<close>

lemma pages_partition:
  assumes "1 \<le> per_page" "per_page \<le> 100"
  shows "concat (map (\<lambda>i. projr (map_sum id pg_data (page_of (int i + 1) per_page rows)))
      [0..<nat (paginate (int (length rows)) 1 per_page)]) = rows"
proof -
  let ?m = "nat (paginate (int (length rows)) 1 per_page)"
  have "int (length rows) \<le> int (?m * nat per_page)"
    using paginate_enough(1) [OF assms(1), of "length rows" 1] paginate_nonneg [OF assms(1), of "length rows" 1] assms
    by simp
  then have "length rows \<le> ?m * nat per_page" by linarith
  then show ?thesis using chunks_concat [of "nat per_page" rows ?m] by (simp add: page_of_chunk [OF assms])
qed

end
