(* ===== verification/ClientApi.thy ===== *)
theory ClientApi
  imports Queries
begin

text \<open>
  The client dashboard's routes (\<^verbatim>\<open>services/api/src/routers/client.py\<close>). Each handler gets the claims
  of an authenticated token, checks the role itself, and works on what row-level security shows its
  session: \<open>rls_view\<close> of the database for the tenant-scoped routes, the database as it is for the two
  that use a plain session (on tables without a policy). A handler that writes returns the database.
  The tenant setting is taken to be in effect at each statement of a handler, those after its commit
  included, as it is while the pool has one idle connection (theory \<open>Tenancy\<close>).
  Where a response model only selects columns of a row, the row stands for the response.
\<close>

section \<open>Authorization\<close>

definition forbidden :: "string \<Rightarrow> http_error" where
  "forbidden detail = HTTPException 403 detail"

text \<open>The claims after the check, with the tenant the token carries.\<close>

definition require_client :: "claims \<Rightarrow> int http" where
  "require_client user =
     (if cm_role user \<notin> {Some ''tenant_admin'', Some ''agent''}
      then Inl (forbidden ''Client account required. Platform admins use /admin/*.'')
      else case cm_client_id user of
        None \<Rightarrow> Inl (forbidden ''Token has no tenant assigned. Contact your administrator.'')
      | Some c \<Rightarrow>
          if c = 0 then Inl (forbidden ''Token has no tenant assigned. Contact your administrator.'')
          else Inr c)"

definition require_client_admin :: "claims \<Rightarrow> int http" where
  "require_client_admin user =
     (case require_client user of
        Inl e \<Rightarrow> Inl e
      | Inr c \<Rightarrow>
          if cm_role user \<noteq> Some ''tenant_admin'' then Inl (forbidden ''Client administrator role required.'')
          else Inr c)"

section \<open>Responses\<close>

record client_profile =
  cf_user_id :: string
  cf_email :: string
  cf_full_name :: string
  cf_role :: string
  cf_permissions :: "string list"
  cf_tenant_id :: string
  cf_tenant_name :: string
  cf_tenant_slug :: "string option"
  cf_plan :: "string option"
  cf_tenant_status :: "string option"
  cf_contact_email :: "string option"
  cf_contact_phone :: "string option"
  cf_max_concurrent_calls :: "int option"
  cf_api_limit :: "int option"
  cf_country :: "string option"
  cf_timezone :: "string option"
  cf_currency :: "string option"
  cf_default_language :: "string option"
  cf_phone_country_code :: "string option"

text \<open>An account without its password hash.\<close>

record user_response =
  ur_user_id :: string
  ur_email :: string
  ur_full_name :: string
  ur_role :: "string option"
  ur_status :: "string option"
  ur_created_at :: datetime

definition user_response_of :: "user \<Rightarrow> user_response" where
  "user_response_of u =
     \<lparr>ur_user_id = us_id u, ur_email = us_email u, ur_full_name = us_full_name u, ur_role = us_role u,
      ur_status = us_status u, ur_created_at = us_created_at u\<rparr>"

record analytics_response =
  an_total_calls :: int
  an_calls_this_month :: int
  an_calls_this_week :: int
  an_daily_volume :: "(string \<times> int) list"

text \<open>What a tenant is told of a call: no recording, no notes, no telephony identifier.\<close>

record call_response =
  cr_id :: int
  cr_customer_name :: "string option"
  cr_phone_number :: "string option"
  cr_hotel_name :: "string option"
  cr_check_in_date :: "string option"
  cr_check_out_date :: "string option"
  cr_created_at :: datetime
  cr_status :: string
  cr_call_type :: string
  cr_is_simulation :: bool
  cr_customer_id :: "string option"
  cr_connection_status :: string
  cr_failure_reason :: "string option"
  cr_duration_seconds :: "int option"
  cr_outcome :: "string option"

definition call_response_of :: "caller \<Rightarrow> call_response" where
  "call_response_of c =
     \<lparr>cr_id = ca_id c, cr_customer_name = ca_customer_name c, cr_phone_number = ca_phone_number c,
      cr_hotel_name = ca_hotel_name c, cr_check_in_date = ca_check_in_date c, cr_check_out_date = ca_check_out_date c,
      cr_created_at = ca_created_at c, cr_status = ca_status c, cr_call_type = ca_call_type c,
      cr_is_simulation = ca_is_simulation c, cr_customer_id = ca_customer_id c,
      cr_connection_status = ca_connection_status c, cr_failure_reason = ca_failure_reason c,
      cr_duration_seconds = ca_duration_seconds c, cr_outcome = ca_outcome c\<rparr>"

text \<open>What is told of a customer: everything but the metadata.\<close>

record customer_response =
  ct_id :: string
  ct_client_id :: int
  ct_name :: "string option"
  ct_phone :: string
  ct_email :: "string option"
  ct_language_code :: "string option"
  ct_timezone :: "string option"
  ct_country_code :: "string option"
  ct_notes :: "string option"
  ct_external_id :: "string option"
  ct_created_at :: datetime
  ct_updated_at :: datetime

definition customer_response_of :: "customer \<Rightarrow> customer_response" where
  "customer_response_of c =
     \<lparr>ct_id = cu_id c, ct_client_id = cu_client_id c, ct_name = cu_name c, ct_phone = cu_phone c,
      ct_email = cu_email c, ct_language_code = cu_language_code c, ct_timezone = cu_timezone c,
      ct_country_code = cu_country_code c, ct_notes = cu_notes c, ct_external_id = cu_external_id c,
      ct_created_at = cu_created_at c, ct_updated_at = cu_updated_at c\<rparr>"

text \<open>The provider is a required string here, and a column that may be NULL.\<close>

record phone_number_response =
  pn_number :: string
  pn_tenant_id :: string
  pn_agent_id :: string
  pn_provider :: string
  pn_created_at :: datetime

definition phone_number_response_of :: "phone_number_route \<Rightarrow> phone_number_response option" where
  "phone_number_response_of r =
     map_option (\<lambda>provider. \<lparr>pn_number = pr_number r, pn_tenant_id = pr_tenant_id r, pn_agent_id = pr_agent_id r,
       pn_provider = provider, pn_created_at = pr_created_at r\<rparr>) (pr_provider r)"

type_synonym paginated_users = "user_response page"
type_synonym paginated_calls = "call_response page"
type_synonym paginated_customers = "customer_response page"
type_synonym paginated_phone_numbers = "phone_number_response page"

record customer_create =
  cw_name :: "string option"
  cw_phone :: string
  cw_email :: "string option"
  cw_language_code :: "string option"
  cw_timezone :: "string option"
  cw_country_code :: "string option"
  cw_notes :: "string option"
  cw_external_id :: "string option"

text \<open>\<open>CustomerUpdate\<close>: the same fields without the phone, which cannot be changed.\<close>

record customer_update =
  cx_name :: "string option"
  cx_email :: "string option"
  cx_language_code :: "string option"
  cx_timezone :: "string option"
  cx_country_code :: "string option"
  cx_notes :: "string option"
  cx_external_id :: "string option"

section \<open>Reading\<close>

definition tenant_view :: "claims \<Rightarrow> database \<Rightarrow> database" where
  "tenant_view user d = rls_view (Some (tenant_value user)) d"

definition get_my_profile :: "claims \<Rightarrow> database \<Rightarrow> client_profile http" where
  "get_my_profile user d =
     (case require_client user of
        Inl e \<Rightarrow> Inl e
      | Inr k \<Rightarrow>
          (case tbl_get cl_id (t_clients d) k of
             None \<Rightarrow> Inl (HTTPException 404 ''Tenant not found'')
           | Some client \<Rightarrow>
               Inr \<lparr>cf_user_id = get_str (cm_sub user), cf_email = get_str (cm_email user),
                    cf_full_name = get_str (cm_full_name user), cf_role = claim_role user,
                    cf_permissions = (case ROLE_PERMISSIONS (claim_role user) of None \<Rightarrow> [] | Some ps \<Rightarrow> ps),
                    cf_tenant_id = int_str (cl_id client), cf_tenant_name = cl_name client,
                    cf_tenant_slug = cl_slug client, cf_plan = cl_plan client,
                    cf_tenant_status = cl_status client, cf_contact_email = cl_contact_email client,
                    cf_contact_phone = cl_contact_phone client,
                    cf_max_concurrent_calls = cl_max_concurrent_calls client,
                    cf_api_limit = cl_api_limit client, cf_country = cl_country client,
                    cf_timezone = cl_timezone client, cf_currency = cl_currency client,
                    cf_default_language = cl_default_language client,
                    cf_phone_country_code = cl_phone_country_code client\<rparr>))"

definition search_calls :: "string option \<Rightarrow> caller list \<Rightarrow> caller list" where
  "search_calls search rows =
     (if truthy search
      then filter (\<lambda>r. ilike (ca_customer_name r) (contains_pattern (the search))
                     \<or> ilike (ca_phone_number r) (contains_pattern (the search))) rows
      else rows)"

definition client_list_calls ::
  "int \<Rightarrow> int \<Rightarrow> string option \<Rightarrow> claims \<Rightarrow> database \<Rightarrow> paginated_calls http" where
  "client_list_calls page per_page search user d =
     (case require_client user of
        Inl e \<Rightarrow> Inl e
      | Inr k \<Rightarrow>
          page_of page per_page (map call_response_of (search_calls search
            (newest_first ca_created_at
              (filter (\<lambda>r. ca_client_id r = Some k) (t_call_requests (tenant_view user d)))))))"

definition client_get_call :: "int \<Rightarrow> claims \<Rightarrow> database \<Rightarrow> call_response http" where
  "client_get_call i user d =
     (case require_client user of
        Inl e \<Rightarrow> Inl e
      | Inr k \<Rightarrow>
          (case get_by_int ca_id (t_call_requests (tenant_view user d)) i ''Call not found'' of
             Inl e \<Rightarrow> Inl e
           | Inr call \<Rightarrow>
               if ca_client_id call \<noteq> Some k then Inl (HTTPException 404 ''Call not found'')
               else Inr (call_response_of call)))"

text \<open>The statement groups by day and orders by day.\<close>

definition daily_volume :: "caller list \<Rightarrow> (string \<times> int) list" where
  "daily_volume rows =
     (let days = map (\<lambda>r. day_number (ca_created_at r)) rows
      in map (\<lambda>day. (date_str day, int (length (filter (\<lambda>x. x = day) days)))) (sort (remdups days)))"

text \<open>The clock is read three times: \<open>now1\<close>, \<open>now2\<close> and \<open>now3\<close>.\<close>

definition get_analytics ::
  "datetime \<Rightarrow> datetime \<Rightarrow> datetime \<Rightarrow> claims \<Rightarrow> database \<Rightarrow> analytics_response http" where
  "get_analytics now1 now2 now3 user d =
     (case require_client_admin user of
        Inl e \<Rightarrow> Inl e
      | Inr k \<Rightarrow>
          let base = filter (\<lambda>r. ca_client_id r = Some k) (t_call_requests (tenant_view user d));
              since = (\<lambda>t. filter (\<lambda>r. t \<le> ca_created_at r) base)
          in Inr \<lparr>an_total_calls = int (length base),
                  an_calls_this_month = int (length (since (start_of_month now1))),
                  an_calls_this_week = int (length (since (now2 - seconds (7 * 86400)))),
                  an_daily_volume = daily_volume (since (now3 - seconds (30 * 86400)))\<rparr>)"

definition client_list_users ::
  "int \<Rightarrow> int \<Rightarrow> string option \<Rightarrow> string option \<Rightarrow> claims \<Rightarrow> database \<Rightarrow> paginated_users http" where
  "client_list_users page per_page role status user d =
     (case require_client_admin user of
        Inl e \<Rightarrow> Inl e
      | Inr k \<Rightarrow>
          page_of page per_page (map user_response_of
            (filter (\<lambda>u. (truthy role \<longrightarrow> us_role u = role) \<and> (truthy status \<longrightarrow> us_status u = status))
              (newest_first us_created_at
                (filter (\<lambda>u. us_tenant_id u = Some k) (t_admin_users (tenant_view user d)))))))"

definition client_get_user :: "string \<Rightarrow> claims \<Rightarrow> database \<Rightarrow> user_response http" where
  "client_get_user uid user d =
     (case require_client_admin user of
        Inl e \<Rightarrow> Inl e
      | Inr k \<Rightarrow>
          (case tbl_get us_id (t_admin_users (tenant_view user d)) uid of
             None \<Rightarrow> Inl (HTTPException 404 ''User not found'')
           | Some fetched \<Rightarrow>
               if us_tenant_id fetched \<noteq> Some k then Inl (HTTPException 404 ''User not found'')
               else Inr (user_response_of fetched)))"

text \<open>Building the page validates its rows; one that does not fit makes the request fail.\<close>

definition list_phone_numbers ::
  "int \<Rightarrow> int \<Rightarrow> claims \<Rightarrow> database \<Rightarrow> paginated_phone_numbers http" where
  "list_phone_numbers page per_page user d =
     (case require_client_admin user of
        Inl e \<Rightarrow> Inl e
      | Inr k \<Rightarrow>
          (case page_of page per_page (filter (\<lambda>r. pr_tenant_id r = int_str k) (t_phone_number_routes d)) of
             Inl e \<Rightarrow> Inl e
           | Inr p \<Rightarrow>
               if \<exists>r \<in> set (pg_data p). phone_number_response_of r = None then Inl (Unhandled ''ValidationError'')
               else Inr (map_page (the \<circ> phone_number_response_of) p)))"

definition search_customers :: "string option \<Rightarrow> customer list \<Rightarrow> customer list" where
  "search_customers search rows =
     (if truthy search
      then filter (\<lambda>r. ilike (cu_name r) (contains_pattern (the search))
                     \<or> ilike (Some (cu_phone r)) (contains_pattern (the search))
                     \<or> ilike (cu_email r) (contains_pattern (the search))) rows
      else rows)"

definition list_customers ::
  "int \<Rightarrow> int \<Rightarrow> string option \<Rightarrow> claims \<Rightarrow> database \<Rightarrow> customer page http" where
  "list_customers page per_page search user d =
     (case require_client user of
        Inl e \<Rightarrow> Inl e
      | Inr k \<Rightarrow>
          page_of page per_page (search_customers search
            (newest_first cu_created_at
              (filter (\<lambda>r. cu_client_id r = k) (t_customers (tenant_view user d))))))"

definition get_customer :: "string \<Rightarrow> claims \<Rightarrow> database \<Rightarrow> customer http" where
  "get_customer i user d =
     (case require_client user of
        Inl e \<Rightarrow> Inl e
      | Inr k \<Rightarrow>
          (case tbl_get cu_id (t_customers (tenant_view user d)) i of
             None \<Rightarrow> Inl (HTTPException 404 ''Customer not found'')
           | Some c \<Rightarrow>
               if cu_client_id c \<noteq> k then Inl (HTTPException 404 ''Customer not found'') else Inr c))"

section \<open>Writing customers\<close>

text \<open>The fields of the body that are not \<open>None\<close> replace the row's.\<close>

definition opt_set :: "'a option \<Rightarrow> 'a option \<Rightarrow> 'a option" where
  "opt_set new old = (case new of None \<Rightarrow> old | Some v \<Rightarrow> Some v)"

definition merge_customer :: "customer_create \<Rightarrow> customer \<Rightarrow> customer" where
  "merge_customer b c =
     c\<lparr>cu_name := opt_set (cw_name b) (cu_name c), cu_email := opt_set (cw_email b) (cu_email c),
       cu_language_code := opt_set (cw_language_code b) (cu_language_code c),
       cu_timezone := opt_set (cw_timezone b) (cu_timezone c),
       cu_country_code := opt_set (cw_country_code b) (cu_country_code c),
       cu_notes := opt_set (cw_notes b) (cu_notes c),
       cu_external_id := opt_set (cw_external_id b) (cu_external_id c)\<rparr>"

text \<open>The flushed row: \<open>onupdate\<close> moves \<open>updated_at\<close> when a column changed; otherwise no UPDATE is sent.\<close>

definition touch_customer :: "datetime \<Rightarrow> customer_create \<Rightarrow> customer \<Rightarrow> customer" where
  "touch_customer now b c =
     (let c' = merge_customer b c in if c' = c then c else c'\<lparr>cu_updated_at := now\<rparr>)"

definition new_customer :: "datetime \<Rightarrow> string \<Rightarrow> int \<Rightarrow> customer_create \<Rightarrow> customer" where
  "new_customer now uuid k b =
     \<lparr>cu_id = uuid, cu_client_id = k, cu_name = cw_name b, cu_phone = cw_phone b, cu_email = cw_email b,
      cu_language_code = cw_language_code b, cu_timezone = cw_timezone b,
      cu_country_code = cw_country_code b, cu_notes = cw_notes b, cu_external_id = cw_external_id b,
      cu_metadata_json = None, cu_created_at = now, cu_updated_at = now\<rparr>"

definition save_customer :: "customer \<Rightarrow> database \<Rightarrow> database \<times> customer http" where
  "save_customer c d =
     (if \<not> customer_widths c then (d, Inl (Unhandled ''DataError''))
      else (d\<lparr>t_customers := tbl_update (\<lambda>x. cu_id x = cu_id c) (\<lambda>_. c) (t_customers d)\<rparr>, Inr c))"

definition create_or_update_customer ::
  "datetime \<Rightarrow> string \<Rightarrow> customer_create \<Rightarrow> claims \<Rightarrow> database \<Rightarrow> database \<times> customer http" where
  "create_or_update_customer now uuid b user d =
     (case require_client user of
        Inl e \<Rightarrow> (d, Inl e)
      | Inr k \<Rightarrow>
          (case filter (\<lambda>c. cu_client_id c = k \<and> cu_phone c = cw_phone b) (t_customers (tenant_view user d)) of
             [existing] \<Rightarrow> save_customer (touch_customer now b existing) d
           | [] \<Rightarrow>
               let c = new_customer now uuid k b in
               if \<not> customer_widths c then (d, Inl (Unhandled ''DataError''))
               else if \<not> tenant_isolation (Some (tenant_value user)) (Some (int_str k))
               then (d, Inl (Unhandled ''InsufficientPrivilegeError''))
               else if uuid \<in> cu_id ` set (t_customers d) \<or> customer_key c \<in> customer_key ` set (t_customers d)
                 \<or> tbl_get cl_id (t_clients d) k = None
               then (d, Inl (Unhandled ''IntegrityError''))
               else (d\<lparr>t_customers := t_customers d @ [c]\<rparr>, Inr c)
           | _ \<Rightarrow> (d, Inl (Unhandled ''MultipleResultsFound''))))"

text \<open>The same assignments as for an existing customer, with the phone the row has.\<close>

definition update_fields :: "customer_update \<Rightarrow> customer \<Rightarrow> customer_create" where
  "update_fields b c =
     \<lparr>cw_name = cx_name b, cw_phone = cu_phone c, cw_email = cx_email b, cw_language_code = cx_language_code b,
      cw_timezone = cx_timezone b, cw_country_code = cx_country_code b, cw_notes = cx_notes b,
      cw_external_id = cx_external_id b\<rparr>"

definition update_customer ::
  "datetime \<Rightarrow> string \<Rightarrow> customer_update \<Rightarrow> claims \<Rightarrow> database \<Rightarrow> database \<times> customer http" where
  "update_customer now i b user d =
     (case get_customer i user d of
        Inl e \<Rightarrow> (d, Inl e)
      | Inr c \<Rightarrow> save_customer (touch_customer now (update_fields b c) c) d)"

text \<open>The customer routes return rows, which the response models then cut down.\<close>

definition serve_customer :: "customer http \<Rightarrow> customer_response http" where
  "serve_customer r = map_sum id customer_response_of r"

definition serve_customers :: "customer page http \<Rightarrow> paginated_customers http" where
  "serve_customers r = map_sum id (map_page customer_response_of) r"

section \<open>What a tenant's session sees\<close>

lemma require_client_Inr:
  "require_client user = Inr k \<longleftrightarrow>
     cm_role user \<in> {Some ''tenant_admin'', Some ''agent''} \<and> cm_client_id user = Some k \<and> k \<noteq> 0"
  by (auto simp: require_client_def split: option.splits)

lemma require_client_admin_Inr:
  "require_client_admin user = Inr k \<longleftrightarrow> require_client user = Inr k \<and> cm_role user = Some ''tenant_admin''"
  by (auto simp: require_client_admin_def split: sum.splits)

lemma client_tenant_value: "require_client user = Inr k \<Longrightarrow> tenant_value user = int_str k"
  by (auto simp: require_client_Inr tenant_value_def claim_role_def)

lemma map_option_int_str: "map_option int_str x = Some (int_str k) \<longleftrightarrow> x = Some k"
  by (cases x) auto

lemma tenant_view_own:
  assumes "require_client user = Inr k"
  shows "t_customers (tenant_view user d) = filter (\<lambda>r. cu_client_id r = k) (t_customers d)"
    and "t_call_requests (tenant_view user d) = filter (\<lambda>r. ca_client_id r = Some k) (t_call_requests d)"
    and "t_admin_users (tenant_view user d) = filter (\<lambda>r. us_tenant_id r = Some k) (t_admin_users d)"
  using client_tenant_value [OF assms]
  by (simp_all add: tenant_view_def rls_view_def map_option_int_str)

text \<open>Two databases that agree on everything of one tenant.\<close>

definition same_tenant :: "int \<Rightarrow> database \<Rightarrow> database \<Rightarrow> bool" where
  "same_tenant k d d' =
     (filter (\<lambda>r. cu_client_id r = k) (t_customers d) = filter (\<lambda>r. cu_client_id r = k) (t_customers d')
      \<and> filter (\<lambda>r. ca_client_id r = Some k) (t_call_requests d)
          = filter (\<lambda>r. ca_client_id r = Some k) (t_call_requests d')
      \<and> filter (\<lambda>r. us_tenant_id r = Some k) (t_admin_users d)
          = filter (\<lambda>r. us_tenant_id r = Some k) (t_admin_users d')
      \<and> filter (\<lambda>r. pr_tenant_id r = int_str k) (t_phone_number_routes d)
          = filter (\<lambda>r. pr_tenant_id r = int_str k) (t_phone_number_routes d')
      \<and> tbl_get cl_id (t_clients d) k = tbl_get cl_id (t_clients d') k)"

lemma touch_kept [simp]:
  "cu_id (touch_customer now b c) = cu_id c" "cu_client_id (touch_customer now b c) = cu_client_id c"
  "cu_phone (touch_customer now b c) = cu_phone c" "customer_key (touch_customer now b c) = customer_key c"
  by (simp_all add: touch_customer_def merge_customer_def Let_def customer_key_def)

lemma opt_set_idem [simp]: "opt_set x (opt_set x y) = opt_set x y"
  by (simp add: opt_set_def split: option.splits)

lemma merge_touch: "merge_customer b (touch_customer now b c) = touch_customer now b c"
  by (simp add: touch_customer_def merge_customer_def Let_def)

lemma touch_touch: "touch_customer now' b (touch_customer now b c) = touch_customer now b c"
  by (simp add: touch_customer_def [of now'] merge_touch)

lemma touch_new: "touch_customer now' b (new_customer now uuid k b) = new_customer now uuid k b"
proof -
  have "merge_customer b (new_customer now uuid k b) = new_customer now uuid k b"
    by (simp add: merge_customer_def new_customer_def opt_set_def split: option.splits)
  then show ?thesis by (simp add: touch_customer_def)
qed

lemma tbl_update_same:
  assumes "distinct (map key rows)" "r \<in> set rows"
  shows "tbl_update (\<lambda>x. key x = key r) (\<lambda>_. r) rows = rows"
proof -
  have "x = r" if "x \<in> set rows" "key x = key r" for x
    using key_unique [OF assms(1)] assms(2) that by blast
  then show ?thesis unfolding tbl_update_def by (intro map_idI) auto
qed

text \<open>Replacing a row by one with the same keys.\<close>

lemma replace_row:
  assumes "distinct (map key rows)" "r \<in> set rows" "key r' = key r" "f r' = f r"
  shows "map f (tbl_update (\<lambda>x. key x = key r') (\<lambda>_. r') rows) = map f rows"
    and "set (tbl_update (\<lambda>x. key x = key r') (\<lambda>_. r') rows) = insert r' (set rows - {r})"
proof -
  have u: "x = r" if "x \<in> set rows" "key x = key r" for x
    using key_unique [OF assms(1)] assms(2) that by blast
  show "map f (tbl_update (\<lambda>x. key x = key r') (\<lambda>_. r') rows) = map f rows"
    using assms(3,4) u by (auto simp: tbl_update_def)
  show "set (tbl_update (\<lambda>x. key x = key r') (\<lambda>_. r') rows) = insert r' (set rows - {r})"
    using assms(2,3) u by (auto simp: set_tbl_update)
qed

text \<open>A row that holds every field a body gives.\<close>

definition holds_fields :: "customer_create \<Rightarrow> customer \<Rightarrow> bool" where
  "holds_fields b c =
     (cw_name b \<in> {None, cu_name c} \<and> cw_phone b = cu_phone c \<and> cw_email b \<in> {None, cu_email c}
      \<and> cw_language_code b \<in> {None, cu_language_code c} \<and> cw_timezone b \<in> {None, cu_timezone c}
      \<and> cw_country_code b \<in> {None, cu_country_code c} \<and> cw_notes b \<in> {None, cu_notes c}
      \<and> cw_external_id b \<in> {None, cu_external_id c})"

text \<open>A row that keeps of another everything a body does not give.\<close>

definition keeps_rest :: "customer_create \<Rightarrow> customer \<Rightarrow> customer \<Rightarrow> bool" where
  "keeps_rest b e c =
     (cu_id c = cu_id e \<and> cu_created_at c = cu_created_at e \<and> cu_metadata_json c = cu_metadata_json e
      \<and> (cw_name b = None \<longrightarrow> cu_name c = cu_name e) \<and> (cw_email b = None \<longrightarrow> cu_email c = cu_email e)
      \<and> (cw_language_code b = None \<longrightarrow> cu_language_code c = cu_language_code e)
      \<and> (cw_timezone b = None \<longrightarrow> cu_timezone c = cu_timezone e)
      \<and> (cw_country_code b = None \<longrightarrow> cu_country_code c = cu_country_code e)
      \<and> (cw_notes b = None \<longrightarrow> cu_notes c = cu_notes e)
      \<and> (cw_external_id b = None \<longrightarrow> cu_external_id c = cu_external_id e))"

lemma touch_keeps_rest: "keeps_rest b c (touch_customer now b c)"
  by (simp add: keeps_rest_def touch_customer_def merge_customer_def opt_set_def Let_def)

lemma opt_set_holds: "x \<in> {None, opt_set x y}"
  by (simp add: opt_set_def split: option.split)

lemma merge_holds_fields: "cu_phone c = cw_phone b \<Longrightarrow> holds_fields b (merge_customer b c)"
  by (simp add: holds_fields_def merge_customer_def opt_set_holds del: insert_iff)

lemma touch_holds_fields: "cu_phone c = cw_phone b \<Longrightarrow> holds_fields b (touch_customer now b c)"
  using merge_holds_fields [of c b]
  by (cases "merge_customer b c = c") (simp_all add: touch_customer_def Let_def holds_fields_def)

lemma new_holds_fields: "holds_fields b (new_customer now uuid k b)"
  by (simp add: holds_fields_def new_customer_def)

definition customers_ok :: "database \<Rightarrow> bool" where
  "customers_ok d = (distinct (map cu_id (t_customers d)) \<and> distinct (map customer_key (t_customers d)))"

lemma customer_by_key:
  assumes "customers_ok d" "c \<in> set (t_customers d)" "cu_client_id c = k" "cu_phone c = p"
  shows "filter (\<lambda>x. cu_client_id x = k \<and> cu_phone x = p) (t_customers d) = [c]"
proof -
  have f: "filter (\<lambda>x. customer_key x = customer_key c) rows = [c]"
    if "distinct (map customer_key rows)" "c \<in> set rows" for rows
    using that
  proof (induction rows)
    case (Cons x rows)
    then show ?case by (cases "x = c") (force simp: filter_empty_conv image_iff)+
  qed simp
  have "(\<lambda>x. cu_client_id x = k \<and> cu_phone x = p) = (\<lambda>x. customer_key x = customer_key c)"
    using assms(3,4) by (auto simp: customer_key_def fun_eq_iff)
  then show ?thesis using f assms(1,2) by (simp add: customers_ok_def)
qed

lemma upsert_existing:
  assumes "customers_ok d" "require_client user = Inr k" "c \<in> set (t_customers d)"
    and "cu_client_id c = k" "cu_phone c = cw_phone b"
  shows "create_or_update_customer now uuid b user d = save_customer (touch_customer now b c) d"
proof -
  have "filter (\<lambda>x. cu_client_id x = k \<and> cu_phone x = cw_phone b) (t_customers (tenant_view user d)) = [c]"
    using customer_by_key [OF assms(1,3-5)] tenant_view_own(1) [OF assms(2), of d]
    by (simp add: conj_commute conj_left_commute)
  with assms(2) show ?thesis by (simp add: create_or_update_customer_def)
qed

lemma upsert_new:
  assumes "customers_ok d" "require_client user = Inr k"
    and "\<not> (\<exists>c \<in> set (t_customers d). cu_client_id c = k \<and> cu_phone c = cw_phone b)"
    and "create_or_update_customer now uuid b user d = (d', Inr c)"
  shows "c = new_customer now uuid k b \<and> d' = d\<lparr>t_customers := t_customers d @ [c]\<rparr> \<and> customers_ok d' \<and> customer_widths c"
proof -
  have "filter (\<lambda>x. cu_client_id x = k \<and> cu_phone x = cw_phone b) (t_customers (tenant_view user d)) = []"
    using assms(3) tenant_view_own(1) [OF assms(2), of d] by (auto simp: filter_empty_conv)
  with assms show ?thesis
    by (auto simp: create_or_update_customer_def Let_def customers_ok_def new_customer_def split: if_splits)
qed

lemma save_customer_ok:
  assumes "customers_ok d" "c \<in> set (t_customers d)" "save_customer (touch_customer now b c) d = (d', Inr r)"
  shows "r = touch_customer now b c \<and> customers_ok d' \<and> customer_widths r
    \<and> d' = d\<lparr>t_customers := t_customers d'\<rparr>
    \<and> set (t_customers d') = insert r (set (t_customers d) - {c})"
proof -
  let ?r = "touch_customer now b c"
  have d': "r = ?r" "customer_widths ?r"
    "d' = d\<lparr>t_customers := tbl_update (\<lambda>x. cu_id x = cu_id ?r) (\<lambda>_. ?r) (t_customers d)\<rparr>"
    using assms(3) by (auto simp: save_customer_def split: if_splits)
  have dist: "distinct (map cu_id (t_customers d))" "distinct (map customer_key (t_customers d))"
    using assms(1) by (simp_all add: customers_ok_def)
  show ?thesis
    using d' dist replace_row(1) [OF dist(1) assms(2), of ?r cu_id] replace_row(1) [OF dist(1) assms(2), of ?r customer_key]
      replace_row(2) [OF dist(1) assms(2), of ?r cu_id]
    by (simp add: customers_ok_def)
qed

section \<open>Properties\<close>

definition demo_client_db :: database where
  "demo_client_db =
     empty_database\<lparr>t_clients :=
       [\<lparr>cl_id = 7, cl_name = ''Hotel'', cl_slug = Some ''hotel'', cl_plan = Some ''pro'', cl_status = Some ''active'',
         cl_contact_email = None, cl_contact_phone = None, cl_api_limit = Some 100, cl_max_concurrent_calls = Some 5,
         cl_created_at = 0, cl_updated_at = 0, cl_country = None, cl_timezone = None, cl_currency = None,
         cl_default_language = None, cl_phone_country_code = None\<rparr>]\<rparr>"

definition demo_customer_body :: customer_create where
  "demo_customer_body = \<lparr>cw_name = Some ''Ann'', cw_phone = ''+911'', cw_email = None, cw_language_code = None,
     cw_timezone = None, cw_country_code = None, cw_notes = None, cw_external_id = None\<rparr>"

text \<open>The client routes cannot tell other tenants' data apart: for a user of tenant \<open>k\<close>, every
  listing, lookup, search and statistic of the router gives the same answer on any two databases
  that agree on tenant \<open>k\<close>'s own rows, whatever else they hold.\<close>

lemma client_routes_depend_on_own_tenant:
  assumes "require_client user = Inr k" "same_tenant k d d'"
  shows "get_my_profile user d = get_my_profile user d'
    \<and> client_list_calls page per_page search user d = client_list_calls page per_page search user d'
    \<and> client_get_call i user d = client_get_call i user d'
    \<and> get_analytics now1 now2 now3 user d = get_analytics now1 now2 now3 user d'
    \<and> client_list_users page per_page role status user d = client_list_users page per_page role status user d'
    \<and> client_get_user uid user d = client_get_user uid user d'
    \<and> list_phone_numbers page per_page user d = list_phone_numbers page per_page user d'
    \<and> list_customers page per_page search user d = list_customers page per_page search user d'
    \<and> get_customer cid user d = get_customer cid user d'"
  using assms
  by (simp add: get_my_profile_def client_list_calls_def client_get_call_def get_analytics_def
      client_list_users_def client_get_user_def list_phone_numbers_def list_customers_def get_customer_def
      require_client_admin_def tenant_view_own [OF assms(1)] same_tenant_def)

text \<open>C33. Saving a customer is an idempotent upsert by phone within the tenant: after a successful
  request there is exactly one row with the tenant and phone, the returned one, holding every field
  the body gave and, if there was one before, its identity and every other field; unique keys are kept; rows of other tenants and other phones are untouched; and
  repeating the request returns the same row and changes nothing.\<close>

theorem customer_upsert:
  assumes "customers_ok d" "require_client user = Inr k"
    and "create_or_update_customer now uuid b user d = (d', Inr c)"
  shows "customers_ok d' \<and> customer_key c = (k, cw_phone b)
    \<and> holds_fields b c
    \<and> (\<forall>e \<in> set (t_customers d). customer_key e = (k, cw_phone b) \<longrightarrow> keeps_rest b e c)
    \<and> {x \<in> set (t_customers d'). customer_key x = (k, cw_phone b)} = {c}
    \<and> {x \<in> set (t_customers d'). customer_key x \<noteq> (k, cw_phone b)}
        = {x \<in> set (t_customers d). customer_key x \<noteq> (k, cw_phone b)}
    \<and> create_or_update_customer now' uuid' b user d' = (d', Inr c)"
proof (cases "\<exists>c \<in> set (t_customers d). cu_client_id c = k \<and> cu_phone c = cw_phone b")
  case True
  then obtain e where e: "e \<in> set (t_customers d)" "cu_client_id e = k" "cu_phone e = cw_phone b" by blast
  note sv = save_customer_ok [OF assms(1) e(1), of now b d' c]
  have s: "c = touch_customer now b e" "customers_ok d'" "customer_widths c"
    "set (t_customers d') = insert c (set (t_customers d) - {e})"
    using sv upsert_existing [OF assms(1,2) e, of now uuid] assms(3) by auto
  have key: "customer_key c = (k, cw_phone b)" "customer_key e = (k, cw_phone b)"
    using s(1) e by (simp_all add: customer_key_def)
  have u: "x = e" if "x \<in> set (t_customers d)" "customer_key x = (k, cw_phone b)" for x
    using key_unique [of customer_key "t_customers d" x e] assms(1) that e(1) key(2) by (simp add: customers_ok_def)
  have again: "create_or_update_customer now' uuid' b user d' = (d', Inr c)"
    using upsert_existing [OF s(2) assms(2), of c b now' uuid'] s(1,3,4) key(1) touch_touch
      tbl_update_same [of cu_id "t_customers d'" c] s(2)
    by (simp add: customer_key_def save_customer_def customers_ok_def)
  have "holds_fields b c" "keeps_rest b e c" using s(1) touch_holds_fields [OF e(3)] touch_keeps_rest by simp_all
  then show ?thesis using s(2,4) key u again by auto
next
  case False
  from upsert_new [OF assms(1,2) False assms(3)]
  have s: "c = new_customer now uuid k b" "d' = d\<lparr>t_customers := t_customers d @ [c]\<rparr>" "customers_ok d'" "customer_widths c"
    by auto
  have key: "customer_key c = (k, cw_phone b)" using s(1) by (simp add: customer_key_def new_customer_def)
  have none: "customer_key x \<noteq> (k, cw_phone b)" if "x \<in> set (t_customers d)" for x
    using False that by (auto simp: customer_key_def)
  have again: "create_or_update_customer now' uuid' b user d' = (d', Inr c)"
    using upsert_existing [OF s(3) assms(2), of c b now' uuid'] s key touch_new
      tbl_update_same [of cu_id "t_customers d'" c]
    by (simp add: customer_key_def save_customer_def customers_ok_def)
  have "holds_fields b c" using s(1) new_holds_fields by simp
  then show ?thesis using s(2,3) key none again by auto
qed

theorem customer_upsert_witness:
  "\<exists>d' c. create_or_update_customer 5 ''id1'' demo_customer_body (demo_user ''agent'' (Some 7)) demo_client_db = (d', Inr c)
     \<and> create_or_update_customer 9 ''id2'' demo_customer_body (demo_user ''agent'' (Some 7)) d' = (d', Inr c)"
proof -
  let ?r = "create_or_update_customer 5 ''id1'' demo_customer_body (demo_user ''agent'' (Some 7)) demo_client_db"
  have "snd ?r = Inr (new_customer 5 ''id1'' 7 demo_customer_body)" by code_simp
  then have r: "?r = (fst ?r, Inr (new_customer 5 ''id1'' 7 demo_customer_body))" by (metis prod.collapse)
  have ok: "customers_ok demo_client_db" by (simp add: customers_ok_def demo_client_db_def empty_database_def)
  have req: "require_client (demo_user ''agent'' (Some 7)) = Inr 7" by (simp add: require_client_Inr demo_user_def)
  from customer_upsert [OF ok req r, of 9 "''id2''"] r show ?thesis by blast
qed

text \<open>A customer's metadata stays inside: two databases that differ in nothing else are served alike.\<close>

definition without_metadata :: "database \<Rightarrow> database" where
  "without_metadata d = d\<lparr>t_customers := map (\<lambda>c. c\<lparr>cu_metadata_json := None\<rparr>) (t_customers d)\<rparr>"

lemma metadata_is_not_served:
  assumes "require_client user = Inr k"
  shows "serve_customers (list_customers page per_page search user (without_metadata d))
      = serve_customers (list_customers page per_page search user d)"
    and "serve_customer (get_customer i user (without_metadata d)) = serve_customer (get_customer i user d)"
proof -
  let ?f = "\<lambda>c :: customer. c\<lparr>cu_metadata_json := None\<rparr>"
  have r: "customer_response_of \<circ> ?f = customer_response_of" by (simp add: fun_eq_iff customer_response_of_def)
  have t: "tbl_get cu_id (map ?f rows) i = map_option ?f (tbl_get cu_id rows i)" for rows
    by (induction rows) auto
  have s: "search_customers search (map ?f rows) = map ?f (search_customers search rows)" for rows
    by (simp add: search_customers_def filter_map comp_def)
  show "serve_customers (list_customers page per_page search user (without_metadata d))
      = serve_customers (list_customers page per_page search user d)"
  proof -
    have "list_customers page per_page search user (without_metadata d)
        = map_sum id (map_page ?f) (list_customers page per_page search user d)"
      using newest_first_map [of cu_created_at ?f] s
      by (simp add: list_customers_def assms tenant_view_own [OF assms] without_metadata_def filter_map comp_def page_of_map)
    then show ?thesis
      by (cases "list_customers page per_page search user d") (simp_all add: serve_customers_def map_page_comp r)
  qed
  show "serve_customer (get_customer i user (without_metadata d)) = serve_customer (get_customer i user d)"
    by (simp add: serve_customer_def get_customer_def assms tenant_view_own [OF assms] without_metadata_def
        filter_map comp_def t customer_response_of_def split: option.split)
qed

text \<open>A route whose provider is NULL hides the tenant's whole page of numbers behind a status 500.\<close>

lemma null_provider_hides_numbers:
  assumes "require_client_admin user = Inr k" "page_of page per_page
      (filter (\<lambda>r. pr_tenant_id r = int_str k) (t_phone_number_routes d)) = Inr p"
    and "r \<in> set (pg_data p)" "pr_provider r = None"
  shows "list_phone_numbers page per_page user d = Inl (Unhandled ''ValidationError'')"
  using assms by (auto simp: list_phone_numbers_def phone_number_response_of_def)

lemma null_provider_hides_numbers_example:
  "list_phone_numbers 1 20 (demo_user ''tenant_admin'' (Some 7)) (demo_client_db\<lparr>t_phone_number_routes :=
     [\<lparr>pr_number = ''+91'', pr_tenant_id = ''7'', pr_agent_id = ''b'', pr_provider = Some ''exotel'', pr_created_at = 0\<rparr>,
      \<lparr>pr_number = ''+92'', pr_tenant_id = ''7'', pr_agent_id = ''b'', pr_provider = None, pr_created_at = 0\<rparr>]\<rparr>)
   = Inl (Unhandled ''ValidationError'')"
  by code_simp

text \<open>Paging loses and repeats nothing: for every page size the API accepts, the customer pages one
  to \<open>total_pages\<close> put together are exactly the tenant's matching customers, newest first.\<close>

lemma customer_pages_cover_listing:
  assumes "require_client user = Inr k" "1 \<le> per_page" "per_page \<le> 100"
    and "rows = search_customers search
      (newest_first cu_created_at (filter (\<lambda>r. cu_client_id r = k) (t_customers d)))"
  shows "concat (map (\<lambda>i. projr (map_sum id pg_data (list_customers (int i + 1) per_page search user d)))
      [0..<nat (paginate (int (length rows)) 1 per_page)]) = rows"
proof -
  have "list_customers p per_page search user d = page_of p per_page rows" for p
    using assms(1,4) tenant_view_own(1) [OF assms(1), of d] by (simp add: list_customers_def)
  then show ?thesis using pages_partition [OF assms(2,3), of rows] by simp
qed

lemma customer_pages_cover_listing_example:
  "projr (map_sum id pg_data (list_customers 1 20 None (demo_user ''agent'' (Some 7))
     (demo_client_db\<lparr>t_customers := [new_customer 0 ''x'' 9 demo_customer_body, new_customer 0 ''y'' 7 demo_customer_body]\<rparr>)))
   = [new_customer 0 ''y'' 7 demo_customer_body]"
proof -
  have req: "require_client (demo_user ''agent'' (Some 7)) = Inr 7" by (simp add: require_client_Inr demo_user_def)
  let ?d = "demo_client_db\<lparr>t_customers := [new_customer 0 ''x'' 9 demo_customer_body, new_customer 0 ''y'' 7 demo_customer_body]\<rparr>"
  have rows: "[new_customer 0 ''y'' 7 demo_customer_body] =
      search_customers None (newest_first cu_created_at (filter (\<lambda>r. cu_client_id r = 7) (t_customers ?d)))"
    by (simp add: search_customers_def newest_first_def new_customer_def)
  from customer_pages_cover_listing [OF req _ _ rows, of 20] show ?thesis
    by (simp add: paginate_def)
qed

end
