(* ===== verification/Floats.thy ===== *)
theory Floats
  imports Prelude Complex_Main
begin

text \<open>
  The part of Python's floating point the services compute with: quotients of integers, products with
  small integers, comparison, truncation, and rounding to tenths. A finite nonnegative double is a
  pair \<open>(m, e)\<close> for \<open>m * 2 ^ e\<close>. Division of two integers and multiplication round the exact result to
  53 bits, ties to even. The magnitudes here stay far away from the limits of the exponent.
\<close>

type_synonym double = "int \<times> int"

text \<open>\<open>a / b\<close> to the nearest integer, ties to even.\<close>

definition round_div :: "int \<Rightarrow> int \<Rightarrow> int" where
  "round_div a b =
     (let q = a div b; r = a mod b in
      if 2 * r < b then q else if b < 2 * r then q + 1 else if even q then q else q + 1)"

function bit_length :: "int \<Rightarrow> int" where
  "bit_length n = (if n \<le> 0 then 0 else 1 + bit_length (n div 2))"
  by pat_completeness auto

termination bit_length
  by (relation "measure nat") auto

declare bit_length.simps [simp del]

text \<open>A fraction equal to \<open>(a / b) / 2 ^ e\<close>.\<close>

definition scaled :: "int \<Rightarrow> int \<Rightarrow> int \<Rightarrow> int \<times> int" where
  "scaled a b e = (if 0 \<le> e then (a, b * 2 ^ nat e) else (a * 2 ^ nat (- e), b))"

definition double_exponent :: "int \<Rightarrow> int \<Rightarrow> int" where
  "double_exponent a b =
     (let e = bit_length a - bit_length b - 52
      in case scaled a b e of (p, q) \<Rightarrow> if p < 2 ^ 52 * q then e - 1 else e)"

definition double_of_ratio :: "int \<Rightarrow> int \<Rightarrow> double" where
  "double_of_ratio a b =
     (if a = 0 then (0, 0)
      else let e = double_exponent a b in (case scaled a b e of (p, q) \<Rightarrow> (round_div p q, e)))"

definition double_times :: "int \<Rightarrow> double \<Rightarrow> double" where
  "double_times k x = (case scaled (k * fst x) 1 (- snd x) of (p, q) \<Rightarrow> double_of_ratio p q)"

definition double_less :: "double \<Rightarrow> double \<Rightarrow> bool" where
  "double_less x y = (let e = min (snd x) (snd y) in fst x * 2 ^ nat (snd x - e) < fst y * 2 ^ nat (snd y - e))"

text \<open>\<open>int(x)\<close> of a nonnegative double.\<close>

definition double_trunc :: "double \<Rightarrow> int" where
  "double_trunc x = (case scaled (fst x) 1 (- snd x) of (p, q) \<Rightarrow> p div q)"

text \<open>\<open>round(x, 1)\<close> and the format \<open>.1f\<close>, in tenths.\<close>

definition tenths :: "double \<Rightarrow> int" where
  "tenths x = (case scaled (10 * fst x) 1 (- snd x) of (p, q) \<Rightarrow> round_div p q)"

definition tenths_str :: "int \<Rightarrow> string" where
  "tenths_str t = int_str (t div 10) @ CHR 46 # int_str (t mod 10)"

section \<open>Correct rounding\<close>

definition double_val :: "double \<Rightarrow> real" where
  "double_val x = of_int (fst x) * 2 powr of_int (snd x)"

lemma round_div_near: "0 < b \<Longrightarrow> \<bar>of_int (round_div a b) - (of_int a / of_int b :: real)\<bar> \<le> 1 / 2"
proof -
  assume b: "0 < b"
  define q r where "q = a div b" and "r = a mod b"
  have a: "a = q * b + r" and r: "0 \<le> r" "r < b" using b by (simp_all add: q_def r_def)
  have d: "of_int a / of_int b = (of_int q + of_int r / of_int b :: real)"
    using b by (simp add: a add_divide_distrib)
  have "2 * r \<le> b \<Longrightarrow> of_int r / of_int b \<le> (1 / 2 :: real)" "b \<le> 2 * r \<Longrightarrow> (1 / 2 :: real) \<le> of_int r / of_int b"
    using b by (simp_all add: divide_le_eq le_divide_eq)
  moreover have "0 \<le> (of_int r / of_int b :: real)" "of_int r / of_int b \<le> (1 :: real)"
    using b r by (simp_all add: divide_le_eq)
  moreover define x :: real where "x = of_int r / of_int b"
  moreover have "round_div a b = (if 2 * r < b then q else if b < 2 * r then q + 1 else if even q then q else q + 1)"
    by (simp only: round_div_def Let_def q_def [symmetric] r_def [symmetric])
  ultimately show ?thesis unfolding d x_def [symmetric] by (auto simp: abs_le_iff)
qed

lemma bit_length_bounds: "0 < n \<Longrightarrow> 0 < bit_length n \<and> 2 ^ nat (bit_length n - 1) \<le> n \<and> n < 2 ^ nat (bit_length n)"
proof (induction n rule: bit_length.induct)
  case (1 n)
  show ?case
  proof (cases "n = 1")
    case True
    then show ?thesis by (simp add: bit_length.simps)
  next
    case False
    with "1.prems" have n: "\<not> n \<le> 0" "0 < n div 2" by auto
    define l where "l = bit_length (n div 2)"
    have IH: "0 < l" "2 ^ nat (l - 1) \<le> n div 2" "n div 2 < 2 ^ nat l" using "1.IH" [OF n] by (simp_all add: l_def)
    have bl: "bit_length n = 1 + l" using n(1) by (subst bit_length.simps) (simp add: l_def)
    have "2 ^ nat l = (2 * 2 ^ nat (l - 1) :: int)" using IH(1) by (simp add: nat_diff_distrib' power_Suc [symmetric] del: power_Suc)
    moreover have "2 ^ nat (1 + l) = (2 * 2 ^ nat l :: int)" using IH(1) by (simp add: nat_add_distrib)
    ultimately show ?thesis using IH by (simp add: bl) linarith
  qed
qed

lemma scaled_ratio:
  assumes "0 < b" "scaled a b e = (p, q)"
  shows "0 < q" "(of_int p / of_int q :: real) = (of_int a / of_int b) / 2 powr of_int e"
proof -
  show q: "0 < q" using assms by (auto simp: scaled_def split: if_splits)
  show "(of_int p / of_int q :: real) = (of_int a / of_int b) / 2 powr of_int e"
  proof (cases "0 \<le> e")
    case True
    then have "(2 :: real) powr of_int e = 2 ^ nat e" by (simp add: powr_real_of_int)
    with True assms show ?thesis by (auto simp: scaled_def)
  next
    case False
    then have "(2 :: real) powr of_int e = 1 / 2 ^ nat (- e)" by (simp add: powr_real_of_int divide_inverse)
    with False assms show ?thesis by (auto simp: scaled_def)
  qed
qed

text \<open>The exponent puts the quotient into the range of 53-bit mantissas, and is the only one that does.\<close>

lemma double_exponent_range:
  assumes "0 < a" "0 < b"
  shows "2 ^ 52 * 2 powr of_int (double_exponent a b) \<le> (of_int a / of_int b :: real)"
    and "(of_int a / of_int b :: real) < 2 ^ 53 * 2 powr of_int (double_exponent a b)"
proof -
  define la lb where "la = bit_length a" and "lb = bit_length b"
  define e where "e = la - lb - 52"
  define x :: real where "x = of_int a / of_int b"
  have powr_nat: "2 powr of_int k = (of_int (2 ^ nat k) :: real)" if "0 \<le> k" for k :: int
    using that by (simp add: powr_real_of_int)
  have A: "2 powr of_int (la - 1) \<le> (of_int a :: real)" "(of_int a :: real) < 2 powr of_int la"
    using bit_length_bounds [OF assms(1)] unfolding la_def [symmetric]
    by (simp_all add: powr_nat del: of_int_diff of_int_power)
  have B: "2 powr of_int (lb - 1) \<le> (of_int b :: real)" "(of_int b :: real) < 2 powr of_int lb"
    using bit_length_bounds [OF assms(2)] unfolding lb_def [symmetric]
    by (simp_all add: powr_nat del: of_int_diff of_int_power)
  have pos: "0 < (of_int b :: real)" using assms by simp
  have E: "2 powr of_int e = (2 powr of_int la / 2 powr of_int lb / 2 ^ 52 :: real)"
    by (simp add: e_def powr_diff)
  have "2 powr (of_int (la - 1) - of_int lb) \<le> x"
    using A(1) B(2) pos assms unfolding x_def powr_diff by (intro frac_le) auto
  then have lo: "2 ^ 51 * 2 powr of_int e \<le> x"
    by (simp add: E powr_diff)
  have "x < 2 powr (of_int la - of_int (lb - 1))"
    using A(2) B(1) pos assms unfolding x_def powr_diff by (intro frac_less) auto
  then have hi: "x < 2 ^ 53 * 2 powr of_int e"
    by (simp add: E powr_diff mult.commute)
  obtain p q where pq: "scaled a b e = (p, q)" by (metis prod.collapse)
  have q: "0 < q" and r: "of_int p / of_int q = x / 2 powr of_int e"
    using scaled_ratio [OF assms(2) pq] by (simp_all add: x_def)
  have "p < 2 ^ 52 * q \<longleftrightarrow> (of_int p :: real) < of_int (2 ^ 52 * q)"
    by (simp only: of_int_less_iff)
  also have "\<dots> \<longleftrightarrow> (of_int p / of_int q :: real) < 2 ^ 52"
    using q by (simp add: divide_less_eq)
  also have "\<dots> \<longleftrightarrow> x < 2 ^ 52 * 2 powr of_int e"
    unfolding r by (simp add: divide_less_eq)
  finally have c: "p < 2 ^ 52 * q \<longleftrightarrow> x < 2 ^ 52 * 2 powr of_int e" .
  have de: "double_exponent a b = (if x < 2 ^ 52 * 2 powr of_int e then e - 1 else e)"
    unfolding c [symmetric]
    by (simp add: double_exponent_def Let_def la_def [symmetric] lb_def [symmetric] e_def [symmetric] pq)
  have h: "2 powr of_int (e - 1) = (2 powr of_int e / 2 :: real)" by (simp add: powr_diff)
  show "2 ^ 52 * 2 powr of_int (double_exponent a b) \<le> (of_int a / of_int b :: real)"
    unfolding de x_def [symmetric] using lo by (simp add: h del: of_int_diff)
  show "(of_int a / of_int b :: real) < 2 ^ 53 * 2 powr of_int (double_exponent a b)"
    unfolding de x_def [symmetric] using hi by (simp add: h del: of_int_diff)
qed

lemma binary_exponent_unique:
  fixes x :: real
  assumes "2 ^ 52 * 2 powr of_int d \<le> x" "x < 2 ^ 53 * 2 powr of_int d"
    and "2 ^ 52 * 2 powr of_int e \<le> x" "x < 2 ^ 53 * 2 powr of_int e"
  shows "d = e"
proof -
  have "(2 :: real) powr of_int d < 2 powr (of_int e + 1)" "(2 :: real) powr of_int e < 2 powr (of_int d + 1)"
    using assms by (simp_all add: powr_add)
  then show ?thesis by simp
qed

lemma double_of_ratio_parts:
  assumes "0 < a" "0 < b"
  obtains m e where "double_of_ratio a b = (m, e)"
    and "2 ^ 52 * 2 powr of_int e \<le> (of_int a / of_int b :: real)" "(of_int a / of_int b :: real) < 2 ^ 53 * 2 powr of_int e"
    and "\<bar>of_int m - (of_int a / of_int b) / 2 powr of_int e\<bar> \<le> (1 / 2 :: real)"
proof -
  define e where "e = double_exponent a b"
  obtain p q where pq: "scaled a b e = (p, q)" by (metis prod.collapse)
  show thesis
  proof (rule that)
    show "double_of_ratio a b = (round_div p q, e)"
      using assms pq by (simp add: double_of_ratio_def e_def [symmetric])
    show "\<bar>of_int (round_div p q) - (of_int a / of_int b) / 2 powr of_int e\<bar> \<le> (1 / 2 :: real)"
      using scaled_ratio [OF assms(2) pq] round_div_near [of q p] by simp
  qed (use double_exponent_range [OF assms] in \<open>simp_all only: e_def\<close>)
qed

text \<open>Half a unit in the last place: the relative error of a quotient is at most \<open>2 ^ (-53)\<close>.\<close>

lemma double_of_ratio_error:
  assumes "0 < a" "0 < b"
  shows "\<bar>double_val (double_of_ratio a b) - of_int a / of_int b\<bar> \<le> (of_int a / of_int b) / 2 ^ 53"
proof -
  define x :: real where "x = of_int a / of_int b"
  obtain m e where d: "double_of_ratio a b = (m, e)" and lo: "2 ^ 52 * 2 powr of_int e \<le> x"
    and near: "\<bar>of_int m - x / 2 powr of_int e\<bar> \<le> 1 / 2"
    using double_of_ratio_parts [OF assms] unfolding x_def by metis
  define u :: real where "u = 2 powr of_int e"
  have u: "0 < u" by (simp add: u_def)
  have "\<bar>of_int m * u - x\<bar> = \<bar>of_int m - x / u\<bar> * u"
  proof -
    have "\<bar>of_int m - x / u\<bar> * u = \<bar>(of_int m - x / u) * u\<bar>" using u by (simp add: abs_mult)
    then show ?thesis using u by (simp add: left_diff_distrib)
  qed
  also have "\<dots> \<le> 1 / 2 * u" using near u by (simp add: u_def)
  finally show ?thesis using lo unfolding d x_def [symmetric] double_val_def by (simp add: u_def)
qed

text \<open>The double depends on the quotient only, not on the fraction that represents it.\<close>

lemma double_of_ratio_cancel:
  assumes "0 < a" "0 < b" "0 < k"
  shows "double_of_ratio (k * a) (k * b) = double_of_ratio a b"
proof -
  have ratio: "(of_int (k * a) / of_int (k * b) :: real) = of_int a / of_int b" using assms by simp
  have pos: "0 < k * a" "0 < k * b" using assms by simp_all
  have "double_exponent (k * a) (k * b) = double_exponent a b"
    using double_exponent_range [OF pos] double_exponent_range [OF assms(1,2)]
    unfolding ratio by (intro binary_exponent_unique)
  moreover have "scaled (k * a) (k * b) e = (k * p, k * q)" if "scaled a b e = (p, q)" for e p q
    using that by (auto simp: scaled_def split: if_splits)
  moreover have "round_div (k * p) (k * q) = round_div p q" if "0 < q" for p q
    using assms(3) by (simp add: round_div_def Let_def mult.left_commute [of 2 k])
  ultimately show ?thesis
    using assms scaled_ratio(1) [OF assms(2)] by (auto simp: double_of_ratio_def Let_def split: prod.splits)
qed

lemma double_less_val: "double_less x y \<longleftrightarrow> double_val x < double_val y"
proof -
  define e where "e = min (snd x) (snd y)"
  have m: "double_val z = of_int (fst z * 2 ^ nat (snd z - e)) * 2 powr of_int e" if "e \<le> snd z" for z
  proof -
    have "(2 :: real) powr of_int (snd z) = 2 powr of_int (snd z - e) * 2 powr of_int e"
      by (simp add: powr_add [symmetric])
    also have "(2 :: real) powr of_int (snd z - e) = of_int (2 ^ nat (snd z - e))"
      using that by (simp add: powr_real_of_int del: of_int_diff)
    finally show ?thesis by (simp add: double_val_def)
  qed
  have "double_val x < double_val y \<longleftrightarrow>
      (of_int (fst x * 2 ^ nat (snd x - e)) :: real) < of_int (fst y * 2 ^ nat (snd y - e))"
    using m [of x] m [of y] by (simp add: e_def)
  also have "\<dots> \<longleftrightarrow> double_less x y"
    by (simp only: of_int_less_iff double_less_def e_def Let_def)
  finally show ?thesis by simp
qed

text \<open>
  Comparing two quotients as doubles is comparing them exactly, as long as the product of the
  denominators and the quotient stay small against \<open>2 ^ 53\<close>.
\<close>

lemma double_less_ratio:
  assumes "0 < a" "0 < b" "0 < c" "0 < d" "2 * a * d \<le> 2 ^ 51" "2 * c * b \<le> 2 ^ 51"
  shows "double_less (double_of_ratio a b) (double_of_ratio c d) \<longleftrightarrow> a * d < c * b"
proof -
  define x y :: real where "x = of_int a / of_int b" and "y = of_int c / of_int d"
  define x' y' where "x' = double_val (double_of_ratio a b)" and "y' = double_val (double_of_ratio c d)"
  have E: "\<bar>x' - x\<bar> \<le> x / 2 ^ 53" "\<bar>y' - y\<bar> \<le> y / 2 ^ 53"
    using double_of_ratio_error assms by (simp_all add: x_def x'_def y_def y'_def)
  have pos: "0 < x" "0 < y" "0 < (of_int (b * d) :: real)" using assms by (simp_all add: x_def y_def)
  have X: "x * of_int (b * d) = of_int (a * d)" "y * of_int (b * d) = of_int (c * b)"
    using assms by (simp_all add: x_def y_def)
  have gap: "u' < v'"
    if "\<bar>u' - u\<bar> \<le> u / 2 ^ 53" "\<bar>v' - v\<bar> \<le> v / 2 ^ 53" "u * of_int (b * d) = of_int m" "v * of_int (b * d) = of_int n"
      "m < n" "2 * m \<le> 2 ^ 51" "2 * n \<le> 2 ^ 51" for u u' v v' :: real and m n :: int
  proof -
    have "of_int m + 1 \<le> (of_int n :: real)" using that(5) by linarith
    moreover have "of_int (2 * m) \<le> (of_int (2 ^ 51) :: real)" "of_int (2 * n) \<le> (of_int (2 ^ 51) :: real)"
      using that(6,7) by (simp_all only: of_int_le_iff)
    ultimately have "of_int m + of_int m / 2 ^ 53 < (of_int n - of_int n / 2 ^ 53 :: real)" by simp
    then have "(u + u / 2 ^ 53) * of_int (b * d) < (v - v / 2 ^ 53) * of_int (b * d)"
      unfolding that(3) [symmetric] that(4) [symmetric] by (simp add: field_simps)
    then have "u + u / 2 ^ 53 < v - v / 2 ^ 53" using pos(3) by (simp only: mult_less_cancel_right_pos)
    with that(1,2) show ?thesis by linarith
  qed
  consider "a * d < c * b" | "c * b < a * d" | "a * d = c * b" by linarith
  then show ?thesis
  proof cases
    case 1
    with gap [OF E(1,2) X(1,2)] assms show ?thesis
      by (simp add: double_less_val x'_def y'_def mult.assoc)
  next
    case 2
    with gap [OF E(2,1) X(2,1)] assms show ?thesis
      by (simp add: double_less_val x'_def y'_def mult.assoc)
  next
    case 3
    have "double_of_ratio a b = double_of_ratio (d * a) (d * b)" using assms double_of_ratio_cancel [of a b d] by simp
    also have "\<dots> = double_of_ratio (b * c) (b * d)" using 3 by (simp add: ac_simps)
    also have "\<dots> = double_of_ratio c d" using assms double_of_ratio_cancel [of c d b] by simp
    finally show ?thesis using 3 by (simp add: double_less_def)
  qed
qed

text \<open>Truncation is the floor, and an index \<open>int(n * 0.95)\<close> is the exact one.\<close>

lemma double_trunc_floor: "double_trunc x = \<lfloor>double_val x\<rfloor>"
proof -
  obtain p q where pq: "scaled (fst x) 1 (- snd x) = (p, q)" by (metis prod.collapse)
  have "(of_int p / of_int q :: real) = double_val x"
    using scaled_ratio(2) [OF zero_less_one pq] by (simp add: double_val_def powr_minus_divide)
  then have "p div q = \<lfloor>double_val x\<rfloor>" by (metis floor_divide_of_int_eq)
  with pq show ?thesis by (simp add: double_trunc_def)
qed

lemma double_095: "double_of_ratio 95 100 = (8556839292003942, - 53)"
  by code_simp

lemma double_of_ratio_below_integer:
  assumes "0 < a" "0 < b" "0 < k" "k < 2 ^ 40"
    and "of_int a / of_int b \<le> (of_int k :: real)" "of_int k * (1 - 9 / (20 * 2 ^ 53)) \<le> (of_int a / of_int b :: real)"
  shows "of_int k \<le> double_val (double_of_ratio a b)"
proof -
  define x :: real where "x = of_int a / of_int b"
  obtain m e where d: "double_of_ratio a b = (m, e)" and lo: "2 ^ 52 * 2 powr of_int e \<le> x"
    and hi: "x < 2 ^ 53 * 2 powr of_int e" and near: "\<bar>of_int m - x / 2 powr of_int e\<bar> \<le> 1 / 2"
    using double_of_ratio_parts [OF assms(1,2)] unfolding x_def by metis
  define u :: real where "u = 2 powr of_int e"
  have u: "0 < u" by (simp add: u_def)
  have "(of_int k :: real) < of_int (2 ^ 40)" using assms(4) by (simp only: of_int_less_iff)
  then have "2 ^ 52 * u < 2 ^ 40" using lo assms(5) by (simp add: u_def x_def)
  then have "u < 2 powr 0" by simp
  then have e: "e < 0" unfolding u_def by (metis powr_less_cancel_iff one_less_numeral_iff semiring_norm(76) of_int_less_0_iff)
  define K where "K = k * 2 ^ nat (- e)"
  have u': "u = 1 / of_int (2 ^ nat (- e))" using e by (simp add: u_def powr_real_of_int divide_inverse)
  then have K: "of_int K * u = of_int k" by (simp add: K_def)
  define c :: real where "c = 1 - 9 / (20 * 2 ^ 53)"
  have Kc: "of_int K * c * u = of_int k * c" by (simp only: K [symmetric] mult_ac)
  then have "of_int K * c * u < 2 ^ 53 * u" using assms(6) hi unfolding c_def x_def u_def by linarith
  then have "of_int K * c < (2 ^ 53 :: real)" using u by (simp only: mult_less_cancel_right_pos)
  moreover have "of_int K * c \<le> x / u"
    using assms(6) Kc u unfolding c_def x_def by (simp only: pos_le_divide_eq)
  moreover define y where "y = x / u"
  moreover have "y \<le> of_int m + 1 / 2" using near unfolding u_def [symmetric] y_def by linarith
  ultimately have "of_int K - 1 < (of_int m :: real)" unfolding c_def by simp
  then have "K \<le> m" by linarith
  then have "of_int K * u \<le> of_int m * u" using u by simp
  then show ?thesis unfolding K by (simp add: d double_val_def u_def)
qed

lemma index_bounds:
  fixes d n k r :: real
  assumes "1 \<le> n" "n \<le> 10000" "19 * n = 20 * k + r"
  defines "x \<equiv> 19 * n / 20 - n * (2 / 5) / 2 ^ 53"
  shows "r \<le> 19 \<Longrightarrow> d \<le> x + x / 2 ^ 53 \<Longrightarrow> d < k + 1" and "1 \<le> r \<Longrightarrow> x - x / 2 ^ 53 \<le> d \<Longrightarrow> k \<le> d"
proof -
  have k: "k = (19 * n - r) / 20" using assms(3) by simp
  show "r \<le> 19 \<Longrightarrow> d \<le> x + x / 2 ^ 53 \<Longrightarrow> d < k + 1" using assms(1,2) unfolding x_def k by (simp add: field_simps)
  show "1 \<le> r \<Longrightarrow> x - x / 2 ^ 53 \<le> d \<Longrightarrow> k \<le> d" using assms(1,2) unfolding x_def k by simp
qed

lemma index_095:
  assumes "0 < n" "n \<le> 10000"
  shows "double_trunc (double_times n (double_of_ratio 95 100)) = 19 * n div 20"
proof -
  define a k r where "a = n * 8556839292003942" and "k = 19 * n div 20" and "r = 19 * n mod 20"
  define x :: real where "x = of_int a / of_int (2 ^ 53)"
  define d where "d = double_of_ratio a (2 ^ 53)"
  have pos: "0 < a" "0 < (2 :: int) ^ 53" using assms by (simp_all add: a_def)
  have dt: "double_times n (double_of_ratio 95 100) = d"
    by (simp add: double_095 double_times_def scaled_def a_def d_def)
  have kr: "19 * n = 20 * k + r" "0 \<le> r" "r < 20" by (simp_all add: k_def r_def)
  have n: "1 \<le> (of_int n :: real)" "of_int n \<le> (10000 :: real)" using assms by simp_all
  have x: "x = 19 * of_int n / 20 - of_int n * (2 / 5) / 2 ^ 53" by (simp add: x_def a_def)
  have krn: "19 * of_int n = (20 * of_int k + of_int r :: real)" using kr(1) by (simp flip: of_int_mult of_int_add)
  have "\<bar>double_val d - x\<bar> \<le> x / 2 ^ 53" using double_of_ratio_error [OF pos] by (simp add: d_def x_def)
  then have near: "double_val d \<le> x + x / 2 ^ 53" "x - x / 2 ^ 53 \<le> double_val d" by linarith+
  have "of_int r \<le> (19 :: real)" using kr(3) by simp
  with near(1) have "double_val d < of_int k + 1" unfolding x using index_bounds(1) [OF n krn] by blast
  moreover have "of_int k \<le> double_val d"
  proof (cases "r = 0")
    case True
    with kr assms have "0 < k" "k < 2 ^ 40" by auto
    moreover have "x \<le> of_int k" "of_int k * (1 - 9 / (20 * 2 ^ 53)) \<le> x" using True krn n by (simp_all add: x)
    ultimately show ?thesis unfolding d_def by (intro double_of_ratio_below_integer pos) (simp_all add: x_def)
  next
    case False
    then have "1 \<le> (of_int r :: real)" using kr(2) by simp
    with near(2) show ?thesis unfolding x using index_bounds(2) [OF n krn] by blast
  qed
  ultimately show ?thesis by (simp add: dt double_trunc_floor floor_eq_iff k_def)
qed

end
