(* ===== verification/AdminApi.thy ===== *)
theory AdminApi
  imports ClientApi Floats
begin

text \<open>
  The platform administration routes (\<^verbatim>\<open>services/api/src/routers/admin.py\<close>): tenants under their two
  names (clients and tenants), accounts, call requests and the audit trail.

  A handler that writes takes the identifiers and times it draws as arguments, and \<open>conn\<close>, the tenant
  setting of the connection the session uses after its commit (with one connection, the setting the
  request made). Its first transaction runs with the setting \<open>get_tenant_scoped_db\<close> made, which for
  the super administrators these routes require shows every row.

  An audit row that cannot be stored is given up with a rollback. SQLAlchemy's rollback expires every
  loaded object whatever \<open>expire_on_commit\<close> says, and an asynchronous session cannot reload one on
  attribute access: building the response from the row then raises \<open>MissingGreenlet\<close>.
\<close>

section \<open>Authorization\<close>

definition require_super_admin :: "claims \<Rightarrow> bool" where
  "require_super_admin user = (cm_role user = Some ''super_admin'')"

definition require_admin :: "claims \<Rightarrow> bool" where
  "require_admin user = (cm_role user \<in> {Some ''super_admin'', Some ''tenant_admin''})"

definition super_admin_required :: http_error where
  "super_admin_required = forbidden ''super_admin role required''"

definition admin_required :: http_error where
  "admin_required = forbidden ''admin role required''"

definition VALID_PLANS :: "string list" where
  "VALID_PLANS = [''enterprise'', ''pro'', ''starter'']"

definition VALID_CLIENT_STATUSES :: "string list" where
  "VALID_CLIENT_STATUSES = [''active'', ''inactive'', ''suspended'']"

definition VALID_USER_ROLES :: "string list" where
  "VALID_USER_ROLES = [''agent'', ''super_admin'', ''tenant_admin'']"

definition VALID_USER_STATUSES :: "string list" where
  "VALID_USER_STATUSES = [''active'', ''suspended'']"

text \<open>\<open>f"{field} must be one of {sorted(\<dots>)}"\<close>; the lists above are in sorted order.\<close>

fun join :: "string \<Rightarrow> string list \<Rightarrow> string" where
  "join sep [] = []"
| "join sep [x] = x"
| "join sep (x # y # ys) = x @ sep @ join sep (y # ys)"

definition must_be_one_of :: "string \<Rightarrow> string list \<Rightarrow> http_error" where
  "must_be_one_of field vs =
     HTTPException 400 (field @ '' must be one of ['' @ join '', '' (map quoted vs) @ '']'')"

section \<open>Requests and responses\<close>

record client_create =
  cc_name :: string
  cc_slug :: string
  cc_plan :: string
  cc_contact_email :: "string option"
  cc_contact_phone :: "string option"
  cc_api_limit :: int
  cc_max_concurrent_calls :: int

record client_update =
  cd_name :: "string option"
  cd_slug :: "string option"
  cd_plan :: "string option"
  cd_status :: "string option"
  cd_contact_email :: "string option"
  cd_contact_phone :: "string option"
  cd_api_limit :: "int option"
  cd_max_concurrent_calls :: "int option"

record client_response =
  cr_id :: int
  cr_name :: string
  cr_slug :: "string option"
  cr_plan :: "string option"
  cr_status :: "string option"
  cr_contact_email :: "string option"
  cr_contact_phone :: "string option"
  cr_api_limit :: "int option"
  cr_max_concurrent_calls :: "int option"
  cr_created_at :: datetime
  cr_updated_at :: datetime

definition client_response_of :: "client \<Rightarrow> client_response" where
  "client_response_of c =
     \<lparr>cr_id = cl_id c, cr_name = cl_name c, cr_slug = cl_slug c, cr_plan = cl_plan c, cr_status = cl_status c,
      cr_contact_email = cl_contact_email c, cr_contact_phone = cl_contact_phone c,
      cr_api_limit = cl_api_limit c, cr_max_concurrent_calls = cl_max_concurrent_calls c,
      cr_created_at = cl_created_at c, cr_updated_at = cl_updated_at c\<rparr>"

text \<open>The same row with a string for its key.\<close>

record tenant_response =
  te_tenant_id :: string
  te_name :: string
  te_slug :: "string option"
  te_plan :: "string option"
  te_status :: "string option"
  te_contact_email :: "string option"
  te_contact_phone :: "string option"
  te_api_limit :: "int option"
  te_max_concurrent_calls :: "int option"
  te_created_at :: datetime
  te_updated_at :: datetime

type_synonym paginated_clients = "client_response page"
type_synonym paginated_tenants = "tenant_response page"

definition client_to_tenant :: "client \<Rightarrow> tenant_response" where
  "client_to_tenant c =
     \<lparr>te_tenant_id = int_str (cl_id c), te_name = cl_name c, te_slug = cl_slug c, te_plan = cl_plan c,
      te_status = cl_status c, te_contact_email = cl_contact_email c,
      te_contact_phone = cl_contact_phone c, te_api_limit = cl_api_limit c,
      te_max_concurrent_calls = cl_max_concurrent_calls c, te_created_at = cl_created_at c,
      te_updated_at = cl_updated_at c\<rparr>"

record user_create =
  uc_email :: string
  uc_full_name :: string
  uc_role :: string
  uc_tenant_id :: "int option"
  uc_password :: "string option"

record user_update =
  uu_full_name :: "string option"
  uu_role :: "string option"
  uu_status :: "string option"
  uu_password :: "string option"

text \<open>\<open>Field(min_length=8, max_length=72)\<close>.\<close>

definition valid_password :: "string option \<Rightarrow> bool" where
  "valid_password p = (case p of None \<Rightarrow> True | Some s \<Rightarrow> 8 \<le> length s \<and> length s \<le> 72)"

record admin_user_response =
  ar_user_id :: string
  ar_email :: string
  ar_full_name :: string
  ar_role :: "string option"
  ar_tenant_id :: "string option"
  ar_status :: "string option"
  ar_created_at :: datetime

type_synonym paginated_admin_users = "admin_user_response page"

definition user_to_response :: "user \<Rightarrow> admin_user_response" where
  "user_to_response u =
     \<lparr>ar_user_id = us_id u, ar_email = us_email u, ar_full_name = us_full_name u, ar_role = us_role u,
      ar_tenant_id = map_option int_str (us_tenant_id u), ar_status = us_status u,
      ar_created_at = us_created_at u\<rparr>"

section \<open>The audit trail\<close>

definition json_opt :: "('a \<Rightarrow> json) \<Rightarrow> 'a option \<Rightarrow> json" where
  "json_opt f x = (case x of None \<Rightarrow> JNull | Some v \<Rightarrow> f v)"

definition client_audit_snapshot :: "client \<Rightarrow> json_object" where
  "client_audit_snapshot c =
     [(''id'', JInt (cl_id c)), (''name'', JStr (cl_name c)), (''slug'', json_opt JStr (cl_slug c)),
      (''plan'', json_opt JStr (cl_plan c)), (''status'', json_opt JStr (cl_status c)),
      (''contact_email'', json_opt JStr (cl_contact_email c)),
      (''contact_phone'', json_opt JStr (cl_contact_phone c)),
      (''api_limit'', json_opt JInt (cl_api_limit c)),
      (''max_concurrent_calls'', json_opt JInt (cl_max_concurrent_calls c))]"

definition user_audit_snapshot :: "user \<Rightarrow> json_object" where
  "user_audit_snapshot u =
     [(''user_id'', JStr (us_id u)), (''email'', JStr (us_email u)), (''full_name'', JStr (us_full_name u)),
      (''role'', json_opt JStr (us_role u)), (''tenant_id'', json_opt JInt (us_tenant_id u)),
      (''status'', json_opt JStr (us_status u))]"

text \<open>What a request draws: the generated keys, the salt, the clock, and the setting of the connection
  the session uses after its commit.\<close>

record request_env =
  ev_conn :: "string option"
  ev_now :: datetime
  ev_client_id :: int
  ev_user_id :: string
  ev_salt :: string
  ev_audit_id :: string
  ev_audit_now :: datetime

definition new_audit_log ::
  "request_env \<Rightarrow> claims \<Rightarrow> string \<Rightarrow> int option \<Rightarrow> json_object option \<Rightarrow> json_object option \<Rightarrow> audit_log" where
  "new_audit_log ev actor action tenant before after =
     \<lparr>au_id = ev_audit_id ev, au_tenant_id = map_option int_str tenant, au_user_id = cm_sub actor,
      au_action = action, au_before_value = before, au_after_value = after,
      au_occurred_at = ev_audit_now ev\<rparr>"

text \<open>The row goes in when it fits its columns and keys and the policy of \<open>audit_logs\<close> lets it.\<close>

definition audit_accepts :: "string option \<Rightarrow> audit_log \<Rightarrow> database \<Rightarrow> bool" where
  "audit_accepts conn a d =
     (audit_widths a \<and> au_id a \<notin> au_id ` set (t_audit_logs d)
      \<and> fk_null us_id (t_admin_users d) (au_user_id a) \<and> tenant_isolation conn (au_tenant_id a))"

text \<open>The result says whether the session had to roll back.\<close>

definition write_audit_log ::
  "request_env \<Rightarrow> claims \<Rightarrow> string \<Rightarrow> int option \<Rightarrow> json_object option \<Rightarrow> json_object option
     \<Rightarrow> database \<Rightarrow> database \<times> bool" where
  "write_audit_log ev actor action tenant before after d =
     (let a = new_audit_log ev actor action tenant before after in
      if audit_accepts (ev_conn ev) a d then (d\<lparr>t_audit_logs := t_audit_logs d @ [a]\<rparr>, False) else (d, True))"

text \<open>Reading a row's attributes after that.\<close>

definition from_row :: "'a \<Rightarrow> database \<times> bool \<Rightarrow> database \<times> 'a http" where
  "from_row r w = (case w of (d, expired) \<Rightarrow> (d, if expired then Inl (Unhandled ''MissingGreenlet'') else Inr r))"

section \<open>Clients and tenants\<close>

definition new_client :: "request_env \<Rightarrow> client_create \<Rightarrow> client" where
  "new_client ev b =
     \<lparr>cl_id = ev_client_id ev, cl_name = cc_name b, cl_slug = Some (cc_slug b), cl_plan = Some (cc_plan b),
      cl_status = Some ''active'', cl_contact_email = cc_contact_email b, cl_contact_phone = cc_contact_phone b,
      cl_api_limit = Some (cc_api_limit b), cl_max_concurrent_calls = Some (cc_max_concurrent_calls b),
      cl_created_at = ev_now ev, cl_updated_at = ev_now ev, cl_country = None, cl_timezone = None,
      cl_currency = None, cl_default_language = None, cl_phone_country_code = None\<rparr>"

text \<open>The two routes that create a tenant differ in the action they log and the response they build.\<close>

definition insert_client ::
  "string \<Rightarrow> (client \<Rightarrow> 'r) \<Rightarrow> request_env \<Rightarrow> client_create \<Rightarrow> claims \<Rightarrow> database \<Rightarrow> database \<times> 'r http" where
  "insert_client action resp ev b user d =
     (if \<not> require_super_admin user then (d, Inl super_admin_required)
      else if cc_plan b \<notin> set VALID_PLANS then (d, Inl (must_be_one_of ''plan'' VALID_PLANS))
      else case scalar_one_or_none (filter (\<lambda>c. cl_slug c = Some (cc_slug b)) (t_clients d)) of
        Inl e \<Rightarrow> (d, Inl e)
      | Inr (Some _) \<Rightarrow> (d, Inl (HTTPException 409 ''Slug already exists''))
      | Inr None \<Rightarrow>
          let c = new_client ev b in
          if \<not> client_widths c then (d, Inl (Unhandled ''DataError''))
          else if cl_id c \<in> cl_id ` set (t_clients d) then (d, Inl (Unhandled ''IntegrityError''))
          else from_row (resp c)
            (write_audit_log ev user action (Some (cl_id c)) None (Some (client_audit_snapshot c))
              (d\<lparr>t_clients := t_clients d @ [c]\<rparr>)))"

definition create_client ::
  "request_env \<Rightarrow> client_create \<Rightarrow> claims \<Rightarrow> database \<Rightarrow> database \<times> client_response http" where
  "create_client = insert_client ''client.create'' client_response_of"

definition create_tenant ::
  "request_env \<Rightarrow> client_create \<Rightarrow> claims \<Rightarrow> database \<Rightarrow> database \<times> tenant_response http" where
  "create_tenant = insert_client ''tenant.create'' client_to_tenant"

definition search_clients :: "string option \<Rightarrow> string option \<Rightarrow> client list \<Rightarrow> client list" where
  "search_clients status search rows =
     filter (\<lambda>c. (truthy status \<longrightarrow> cl_status c = status)
               \<and> (truthy search \<longrightarrow> ilike (Some (cl_name c)) (contains_pattern (the search)))) rows"

definition list_clients ::
  "int \<Rightarrow> int \<Rightarrow> string option \<Rightarrow> string option \<Rightarrow> claims \<Rightarrow> database \<Rightarrow> paginated_clients http" where
  "list_clients page per_page status search user d =
     (if \<not> require_super_admin user then Inl super_admin_required
      else page_of page per_page (map client_response_of (search_clients status search (t_clients d))))"

definition list_tenants ::
  "int \<Rightarrow> int \<Rightarrow> string option \<Rightarrow> string option \<Rightarrow> claims \<Rightarrow> database \<Rightarrow> paginated_tenants http" where
  "list_tenants page per_page status search user d =
     (if \<not> require_super_admin user then Inl super_admin_required
      else page_of page per_page (map client_to_tenant (search_clients status search (t_clients d))))"

definition get_client :: "int \<Rightarrow> claims \<Rightarrow> database \<Rightarrow> client_response http" where
  "get_client i user d =
     (if \<not> require_super_admin user then Inl super_admin_required
      else map_sum id client_response_of (get_by_int cl_id (t_clients d) i ''Client not found''))"

definition get_tenant :: "int \<Rightarrow> claims \<Rightarrow> database \<Rightarrow> tenant_response http" where
  "get_tenant i user d =
     (if \<not> require_super_admin user then Inl super_admin_required
      else map_sum id client_to_tenant (get_by_int cl_id (t_clients d) i ''Tenant not found''))"

text \<open>The body's fields that are not \<open>None\<close> replace the row's.\<close>

definition merge_client :: "client_update \<Rightarrow> client \<Rightarrow> client" where
  "merge_client b c =
     c\<lparr>cl_name := (case cd_name b of None \<Rightarrow> cl_name c | Some n \<Rightarrow> n),
       cl_slug := opt_set (cd_slug b) (cl_slug c), cl_plan := opt_set (cd_plan b) (cl_plan c),
       cl_status := opt_set (cd_status b) (cl_status c),
       cl_contact_email := opt_set (cd_contact_email b) (cl_contact_email c),
       cl_contact_phone := opt_set (cd_contact_phone b) (cl_contact_phone c),
       cl_api_limit := opt_set (cd_api_limit b) (cl_api_limit c),
       cl_max_concurrent_calls := opt_set (cd_max_concurrent_calls b) (cl_max_concurrent_calls c)\<rparr>"

text \<open>The flushed row: \<open>onupdate\<close> moves \<open>updated_at\<close> when a column changed.\<close>

definition touch_client :: "datetime \<Rightarrow> client \<Rightarrow> client \<Rightarrow> client" where
  "touch_client now c c' = (if c' = c then c else c'\<lparr>cl_updated_at := now\<rparr>)"

definition put_client :: "client \<Rightarrow> database \<Rightarrow> database" where
  "put_client c d = d\<lparr>t_clients := tbl_update (\<lambda>x. cl_id x = cl_id c) (\<lambda>_. c) (t_clients d)\<rparr>"

definition valid_client_update :: "client_update \<Rightarrow> client \<Rightarrow> database \<Rightarrow> unit http" where
  "valid_client_update b c d =
     (if \<not> in_check VALID_PLANS (cd_plan b) then Inl (must_be_one_of ''plan'' VALID_PLANS)
      else if \<not> in_check VALID_CLIENT_STATUSES (cd_status b)
      then Inl (must_be_one_of ''status'' VALID_CLIENT_STATUSES)
      else if cd_slug b = None \<or> cd_slug b = cl_slug c then Inr ()
      else case scalar_one_or_none (filter (\<lambda>x. cl_slug x = cd_slug b) (t_clients d)) of
        Inl e \<Rightarrow> Inl e
      | Inr (Some _) \<Rightarrow> Inl (HTTPException 409 ''Slug already exists'')
      | Inr None \<Rightarrow> Inr ())"

definition modify_client ::
  "string \<Rightarrow> string \<Rightarrow> (client \<Rightarrow> 'r) \<Rightarrow> request_env \<Rightarrow> int \<Rightarrow> client_update \<Rightarrow> claims \<Rightarrow> database
     \<Rightarrow> database \<times> 'r http" where
  "modify_client action missing resp ev i b user d =
     (if \<not> require_super_admin user then (d, Inl super_admin_required)
      else case get_by_int cl_id (t_clients d) i missing of
        Inl e \<Rightarrow> (d, Inl e)
      | Inr c \<Rightarrow>
          (case valid_client_update b c d of
             Inl e \<Rightarrow> (d, Inl e)
           | Inr _ \<Rightarrow>
               let c' = touch_client (ev_now ev) c (merge_client b c) in
               if \<not> client_widths c' then (d, Inl (Unhandled ''DataError''))
               else from_row (resp c')
                 (write_audit_log ev user action (Some (cl_id c')) (Some (client_audit_snapshot c))
                   (Some (client_audit_snapshot c')) (put_client c' d))))"

definition update_client ::
  "request_env \<Rightarrow> int \<Rightarrow> client_update \<Rightarrow> claims \<Rightarrow> database \<Rightarrow> database \<times> client_response http" where
  "update_client = modify_client ''client.update'' ''Client not found'' client_response_of"

definition update_tenant ::
  "request_env \<Rightarrow> int \<Rightarrow> client_update \<Rightarrow> claims \<Rightarrow> database \<Rightarrow> database \<times> tenant_response http" where
  "update_tenant = modify_client ''tenant.update'' ''Tenant not found'' client_to_tenant"

text \<open>Soft deletion answers nothing, so it does not read the row again.\<close>

definition deactivate_client ::
  "string \<Rightarrow> string \<Rightarrow> request_env \<Rightarrow> int \<Rightarrow> claims \<Rightarrow> database \<Rightarrow> database \<times> unit http" where
  "deactivate_client action missing ev i user d =
     (if \<not> require_super_admin user then (d, Inl super_admin_required)
      else case get_by_int cl_id (t_clients d) i missing of
        Inl e \<Rightarrow> (d, Inl e)
      | Inr c \<Rightarrow>
          let c' = touch_client (ev_now ev) c (c\<lparr>cl_status := Some ''inactive''\<rparr>) in
          (fst (write_audit_log ev user action (Some (cl_id c')) (Some (client_audit_snapshot c))
             (Some (client_audit_snapshot c')) (put_client c' d)), Inr ()))"

definition delete_client :: "request_env \<Rightarrow> int \<Rightarrow> claims \<Rightarrow> database \<Rightarrow> database \<times> unit http" where
  "delete_client = deactivate_client ''client.delete'' ''Client not found''"

definition delete_tenant :: "request_env \<Rightarrow> int \<Rightarrow> claims \<Rightarrow> database \<Rightarrow> database \<times> unit http" where
  "delete_tenant = deactivate_client ''tenant.delete'' ''Tenant not found''"

section \<open>Statistics\<close>

text \<open>\<open>round((total / limit) * 100, 1)\<close>, in tenths.\<close>

definition usage_pct :: "int \<Rightarrow> int \<Rightarrow> int" where
  "usage_pct calls limit =
     (if limit = 0 then 0 else sgn limit * tenths (double_times 100 (double_of_ratio calls \<bar>limit\<bar>)))"

record client_stats =
  st_client_id :: int
  st_total_calls :: int
  st_calls_this_month :: int
  st_active_users :: int
  st_plan_call_limit :: int
  st_plan_usage_pct :: int

text \<open>Counts under the request's setting, which shows a super administrator every row.\<close>

definition stats_of :: "string \<Rightarrow> datetime \<Rightarrow> int \<Rightarrow> claims \<Rightarrow> database \<Rightarrow> client_stats http" where
  "stats_of missing now i user d =
     (if \<not> require_super_admin user then Inl super_admin_required
      else case get_by_int cl_id (t_clients d) i missing of
        Inl e \<Rightarrow> Inl e
      | Inr c \<Rightarrow>
          let calls = filter (\<lambda>r. ca_client_id r = Some i) (t_call_requests (tenant_view user d));
              limit = (case cl_api_limit c of None \<Rightarrow> 0 | Some l \<Rightarrow> l)
          in Inr \<lparr>st_client_id = i, st_total_calls = int (length calls),
                  st_calls_this_month = int (length (filter (\<lambda>r. start_of_month now \<le> ca_created_at r) calls)),
                  st_active_users = int (length (filter (\<lambda>u. us_tenant_id u = Some i \<and> us_status u = Some ''active'')
                    (t_admin_users (tenant_view user d)))),
                  st_plan_call_limit = limit, st_plan_usage_pct = usage_pct (int (length calls)) limit\<rparr>)"

definition get_client_stats :: "datetime \<Rightarrow> int \<Rightarrow> claims \<Rightarrow> database \<Rightarrow> client_stats http" where
  "get_client_stats = stats_of ''Client not found''"

text \<open>\<open>TenantStats\<close> has the key as a string.\<close>

record tenant_stats =
  ts_tenant_id :: string
  ts_total_calls :: int
  ts_calls_this_month :: int
  ts_active_users :: int
  ts_plan_call_limit :: int
  ts_plan_usage_pct :: int

definition get_tenant_stats :: "datetime \<Rightarrow> int \<Rightarrow> claims \<Rightarrow> database \<Rightarrow> tenant_stats http" where
  "get_tenant_stats now i user d =
     map_sum id (\<lambda>st. \<lparr>ts_tenant_id = int_str i, ts_total_calls = st_total_calls st,
         ts_calls_this_month = st_calls_this_month st, ts_active_users = st_active_users st,
         ts_plan_call_limit = st_plan_call_limit st, ts_plan_usage_pct = st_plan_usage_pct st\<rparr>)
       (stats_of ''Tenant not found'' now i user d)"

section \<open>Accounts\<close>

definition new_user :: "bcrypt_lib \<Rightarrow> request_env \<Rightarrow> user_create \<Rightarrow> user" where
  "new_user bc ev b =
     \<lparr>us_id = ev_user_id ev, us_email = uc_email b, us_full_name = uc_full_name b,
      us_password_hash = (if truthy (uc_password b) then Some (hash_password bc (ev_salt ev) (the (uc_password b))) else None),
      us_role = Some (uc_role b), us_tenant_id = uc_tenant_id b, us_status = Some ''active'',
      us_created_at = ev_now ev\<rparr>"

text \<open>
  \<open>refresh\<close> selects the row on the connection used after the commit and raises when the policy of
  \<open>admin_users\<close> hides it; the audit row follows.
\<close>

definition refresh_and_audit ::
  "request_env \<Rightarrow> claims \<Rightarrow> string \<Rightarrow> json_object option \<Rightarrow> user \<Rightarrow> database \<Rightarrow> database \<times> admin_user_response http" where
  "refresh_and_audit ev actor action before u d =
     (if \<not> tenant_isolation (ev_conn ev) (map_option int_str (us_tenant_id u))
      then (d, Inl (Unhandled ''InvalidRequestError''))
      else from_row (user_to_response u)
        (write_audit_log ev actor action (us_tenant_id u) before (Some (user_audit_snapshot u)) d))"

definition tenant_missing :: "int option \<Rightarrow> database \<Rightarrow> http_error option" where
  "tenant_missing t d =
     (case t of
        None \<Rightarrow> None
      | Some k \<Rightarrow>
          (case get_by_int cl_id (t_clients d) k ''Tenant not found'' of Inl e \<Rightarrow> Some e | Inr _ \<Rightarrow> None))"

definition create_user ::
  "bcrypt_lib \<Rightarrow> request_env \<Rightarrow> user_create \<Rightarrow> claims \<Rightarrow> database \<Rightarrow> database \<times> admin_user_response http" where
  "create_user bc ev b actor d =
     (if \<not> require_super_admin actor then (d, Inl super_admin_required)
      else if \<not> valid_password (uc_password b) then (d, Inl (HTTPException 422 ''validation error''))
      else if uc_role b \<notin> set VALID_USER_ROLES then (d, Inl (must_be_one_of ''role'' VALID_USER_ROLES))
      else case scalar_one_or_none (filter (\<lambda>u. us_email u = uc_email b) (t_admin_users (tenant_view actor d))) of
        Inl e \<Rightarrow> (d, Inl e)
      | Inr (Some _) \<Rightarrow> (d, Inl (HTTPException 409 ''Email already exists''))
      | Inr None \<Rightarrow>
          (case tenant_missing (uc_tenant_id b) d of
             Some e \<Rightarrow> (d, Inl e)
           | None \<Rightarrow>
               let u = new_user bc ev b in
               if \<not> user_widths u then (d, Inl (Unhandled ''DataError''))
               else if us_id u \<in> us_id ` set (t_admin_users d) then (d, Inl (Unhandled ''IntegrityError''))
               else refresh_and_audit ev actor ''user.create'' None u
                 (d\<lparr>t_admin_users := t_admin_users d @ [u]\<rparr>)))"

text \<open>A tenant administrator is bound to the tenant of the token; the query parameter is ignored.\<close>

definition tenant_scope :: "claims \<Rightarrow> int option \<Rightarrow> int option http" where
  "tenant_scope user tenant_id =
     (if cm_role user = Some ''tenant_admin'' then
        (case cm_client_id user of
           None \<Rightarrow> Inl (forbidden ''tenant_admin token has no tenant assigned'')
         | Some k \<Rightarrow>
             if k = 0 then Inl (forbidden ''tenant_admin token has no tenant assigned'') else Inr (Some k))
      else if \<not> (case tenant_id of None \<Rightarrow> True | Some k \<Rightarrow> int4 k) then Inl (Unhandled ''DataError'')
      else Inr tenant_id)"

text \<open>A listing of the rows in scope, \<open>key\<close> being the tenant column.\<close>

definition scoped_page ::
  "int \<Rightarrow> int \<Rightarrow> claims \<Rightarrow> int option \<Rightarrow> (int option \<Rightarrow> 'r list) \<Rightarrow> 'r page http" where
  "scoped_page page per_page user tenant_id rows =
     (if \<not> require_admin user then Inl admin_required
      else case tenant_scope user tenant_id of Inl e \<Rightarrow> Inl e | Inr scope \<Rightarrow> page_of page per_page (rows scope))"

definition admin_list_users ::
  "int \<Rightarrow> int \<Rightarrow> int option \<Rightarrow> string option \<Rightarrow> string option \<Rightarrow> claims \<Rightarrow> database \<Rightarrow> paginated_admin_users http" where
  "admin_list_users page per_page tenant_id role status user d =
     scoped_page page per_page user tenant_id (\<lambda>scope.
       map user_to_response
         (filter (\<lambda>u. (scope \<noteq> None \<longrightarrow> us_tenant_id u = scope) \<and> (truthy role \<longrightarrow> us_role u = role)
                    \<and> (truthy status \<longrightarrow> us_status u = status))
           (t_admin_users (tenant_view user d))))"

definition admin_get_user :: "string \<Rightarrow> claims \<Rightarrow> database \<Rightarrow> admin_user_response http" where
  "admin_get_user uid user d =
     (if \<not> require_admin user then Inl admin_required
      else case tbl_get us_id (t_admin_users (tenant_view user d)) uid of
        None \<Rightarrow> Inl (HTTPException 404 ''User not found'')
      | Some u \<Rightarrow>
          if cm_role user = Some ''tenant_admin'' \<and> us_tenant_id u \<noteq> cm_client_id user
          then Inl (forbidden ''Access denied'') else Inr (user_to_response u))"

definition valid_user_update :: "user_update \<Rightarrow> unit http" where
  "valid_user_update b =
     (if \<not> in_check VALID_USER_ROLES (uu_role b) then Inl (must_be_one_of ''role'' VALID_USER_ROLES)
      else if \<not> in_check VALID_USER_STATUSES (uu_status b)
      then Inl (must_be_one_of ''status'' VALID_USER_STATUSES) else Inr ())"

definition merge_user :: "bcrypt_lib \<Rightarrow> string \<Rightarrow> user_update \<Rightarrow> user \<Rightarrow> user" where
  "merge_user bc salt b u =
     u\<lparr>us_password_hash := (case uu_password b of None \<Rightarrow> us_password_hash u | Some p \<Rightarrow> Some (hash_password bc salt p)),
       us_full_name := (case uu_full_name b of None \<Rightarrow> us_full_name u | Some n \<Rightarrow> n),
       us_role := opt_set (uu_role b) (us_role u), us_status := opt_set (uu_status b) (us_status u)\<rparr>"

definition put_user :: "user \<Rightarrow> database \<Rightarrow> database" where
  "put_user u d = d\<lparr>t_admin_users := tbl_update (\<lambda>x. us_id x = us_id u) (\<lambda>_. u) (t_admin_users d)\<rparr>"

definition update_user ::
  "bcrypt_lib \<Rightarrow> request_env \<Rightarrow> string \<Rightarrow> user_update \<Rightarrow> claims \<Rightarrow> database \<Rightarrow> database \<times> admin_user_response http" where
  "update_user bc ev uid b actor d =
     (if \<not> require_super_admin actor then (d, Inl super_admin_required)
      else if \<not> valid_password (uu_password b) then (d, Inl (HTTPException 422 ''validation error''))
      else case tbl_get us_id (t_admin_users (tenant_view actor d)) uid of
        None \<Rightarrow> (d, Inl (HTTPException 404 ''User not found''))
      | Some u \<Rightarrow>
          (case valid_user_update b of
             Inl e \<Rightarrow> (d, Inl e)
           | Inr _ \<Rightarrow>
               let u' = merge_user bc (ev_salt ev) b u in
               if \<not> user_widths u' then (d, Inl (Unhandled ''DataError''))
               else refresh_and_audit ev actor ''user.update'' (Some (user_audit_snapshot u)) u' (put_user u' d)))"

definition delete_user :: "request_env \<Rightarrow> string \<Rightarrow> claims \<Rightarrow> database \<Rightarrow> database \<times> unit http" where
  "delete_user ev uid actor d =
     (if \<not> require_super_admin actor then (d, Inl super_admin_required)
      else case tbl_get us_id (t_admin_users (tenant_view actor d)) uid of
        None \<Rightarrow> (d, Inl (HTTPException 404 ''User not found''))
      | Some u \<Rightarrow>
          let u' = u\<lparr>us_status := Some ''suspended''\<rparr> in
          (fst (write_audit_log ev actor ''user.delete'' (us_tenant_id u') (Some (user_audit_snapshot u))
             (Some (user_audit_snapshot u')) (put_user u' d)), Inr ()))"

section \<open>Call requests and audit rows\<close>

text \<open>An administrator also sees whose call it is.\<close>

type_synonym admin_call_response = "int option \<times> call_response"
type_synonym paginated_admin_calls = "admin_call_response page"

definition admin_call_response_of :: "caller \<Rightarrow> admin_call_response" where
  "admin_call_response_of c = (ca_client_id c, call_response_of c)"

definition admin_list_calls ::
  "int \<Rightarrow> int \<Rightarrow> int option \<Rightarrow> string option \<Rightarrow> claims \<Rightarrow> database \<Rightarrow> paginated_admin_calls http" where
  "admin_list_calls page per_page tenant_id search user d =
     scoped_page page per_page user tenant_id (\<lambda>scope.
       map admin_call_response_of (search_calls search
         (filter (\<lambda>r. scope \<noteq> None \<longrightarrow> ca_client_id r = scope) (t_call_requests (tenant_view user d)))))"

definition admin_get_call :: "int \<Rightarrow> claims \<Rightarrow> database \<Rightarrow> admin_call_response http" where
  "admin_get_call i user d =
     (if \<not> require_admin user then Inl admin_required
      else case get_by_int ca_id (t_call_requests (tenant_view user d)) i ''Call not found'' of
        Inl e \<Rightarrow> Inl e
      | Inr c \<Rightarrow>
          if cm_role user = Some ''tenant_admin'' \<and> ca_client_id c \<noteq> cm_client_id user
          then Inl (forbidden ''Access denied'') else Inr (admin_call_response_of c))"

text \<open>\<open>AuditLogResponse\<close> has the columns of the table.\<close>

type_synonym audit_log_response = audit_log
type_synonym paginated_audit_logs = "audit_log_response page"

text \<open>The audit table's tenant column is text, so any integer can be asked for.\<close>

definition list_audit_logs ::
  "int \<Rightarrow> int \<Rightarrow> int option \<Rightarrow> string option \<Rightarrow> claims \<Rightarrow> database \<Rightarrow> paginated_audit_logs http" where
  "list_audit_logs page per_page tenant_id action user d =
     (if \<not> require_admin user then Inl admin_required
      else case (if cm_role user = Some ''tenant_admin'' then tenant_scope user None else Inr tenant_id) of
        Inl e \<Rightarrow> Inl e
      | Inr scope \<Rightarrow>
          page_of page per_page (newest_first au_occurred_at
            (filter (\<lambda>a. (scope \<noteq> None \<longrightarrow> au_tenant_id a = map_option int_str scope)
                       \<and> (truthy action \<longrightarrow> Some (au_action a) = action))
              (t_audit_logs (tenant_view user d)))))"

section \<open>Changes\<close>

datatype admin_op =
    Create_client client_create
  | Create_tenant client_create
  | Update_client int client_update
  | Update_tenant int client_update
  | Delete_client int
  | Delete_tenant int
  | Create_user user_create
  | Update_user string user_update
  | Delete_user string

definition ack :: "database \<times> 'a http \<Rightarrow> database \<times> unit http" where
  "ack r = map_prod id (map_sum id (\<lambda>_. ())) r"

fun admin_step :: "bcrypt_lib \<Rightarrow> request_env \<Rightarrow> claims \<Rightarrow> admin_op \<Rightarrow> database \<Rightarrow> database \<times> unit http" where
  "admin_step bc ev user (Create_client b) d = ack (create_client ev b user d)"
| "admin_step bc ev user (Create_tenant b) d = ack (create_tenant ev b user d)"
| "admin_step bc ev user (Update_client i b) d = ack (update_client ev i b user d)"
| "admin_step bc ev user (Update_tenant i b) d = ack (update_tenant ev i b user d)"
| "admin_step bc ev user (Delete_client i) d = delete_client ev i user d"
| "admin_step bc ev user (Delete_tenant i) d = delete_tenant ev i user d"
| "admin_step bc ev user (Create_user b) d = ack (create_user bc ev b user d)"
| "admin_step bc ev user (Update_user i b) d = ack (update_user bc ev i b user d)"
| "admin_step bc ev user (Delete_user i) d = delete_user ev i user d"

lemma ack_simps [simp]: "ack (d, Inl e) = (d, Inl e)" "ack (d, Inr x) = (d, Inr ())" "fst (ack r) = fst r"
  by (simp_all add: ack_def)

text \<open>
  What a change writes before it is audited: a new or a changed client, a new or a changed account.
\<close>

datatype edit = Add_client client | Set_client client client | Add_user user | Set_user user user

fun apply_edit :: "edit \<Rightarrow> database \<Rightarrow> database" where
  "apply_edit (Add_client c) d = d\<lparr>t_clients := t_clients d @ [c]\<rparr>"
| "apply_edit (Set_client c c') d = put_client c' d"
| "apply_edit (Add_user u) d = d\<lparr>t_admin_users := t_admin_users d @ [u]\<rparr>"
| "apply_edit (Set_user u u') d = put_user u' d"

fun edit_ok :: "database \<Rightarrow> edit \<Rightarrow> bool" where
  "edit_ok d (Add_client c) =
     (cl_id c \<notin> cl_id ` set (t_clients d) \<and> cl_slug c \<notin> cl_slug ` set (t_clients d)
      \<and> client_widths c \<and> client_checks c)"
| "edit_ok d (Set_client c c') =
     (c \<in> set (t_clients d) \<and> cl_id c' = cl_id c
      \<and> (cl_slug c' = cl_slug c \<or> cl_slug c' \<notin> cl_slug ` set (t_clients d))
      \<and> client_widths c' \<and> client_checks c')"
| "edit_ok d (Add_user u) =
     (us_id u \<notin> us_id ` set (t_admin_users d) \<and> us_email u \<notin> us_email ` set (t_admin_users d)
      \<and> fk_null cl_id (t_clients d) (us_tenant_id u) \<and> user_widths u \<and> user_checks u)"
| "edit_ok d (Set_user u u') =
     (u \<in> set (t_admin_users d) \<and> us_id u' = us_id u \<and> us_email u' = us_email u
      \<and> us_tenant_id u' = us_tenant_id u \<and> user_widths u' \<and> user_checks u')"

text \<open>What the handlers keep of the tables they write.\<close>

definition accounts_ok :: "database \<Rightarrow> bool" where
  "accounts_ok d =
     (schema_ok d \<and> (\<forall>c \<in> set (t_clients d). client_widths c \<and> client_checks c)
      \<and> (\<forall>u \<in> set (t_admin_users d). user_widths u \<and> user_checks u)
      \<and> (\<forall>a \<in> set (t_audit_logs d). audit_widths a))"

lemma slugs_update:
  assumes "distinct (map cl_id cs)" "unique_slugs cs" "c \<in> set cs" "cl_id c' = cl_id c"
    and "cl_slug c' = cl_slug c \<or> cl_slug c' \<notin> cl_slug ` set cs"
  shows "unique_slugs (tbl_update (\<lambda>x. cl_id x = cl_id c') (\<lambda>_. c') cs)"
  using assms
proof (induction cs)
  case (Cons x cs)
  have tail: "unique_slugs cs" and new: "\<And>y. cl_slug x = Some y \<Longrightarrow> y \<notin> set (List.map_filter cl_slug cs)"
    using Cons.prems(2) by (auto simp: unique_slugs_def List.map_filter_simps split: option.splits)
  show ?case
  proof (cases "x = c")
    case True
    have "tbl_update (\<lambda>x. cl_id x = cl_id c') (\<lambda>_. c') cs = cs"
      using Cons.prems(1,4) True by (intro tbl_update_cong_none) (auto simp: image_iff)
    then show ?thesis using Cons.prems(4,5) True tail new
      by (auto simp: unique_slugs_def List.map_filter_simps set_map_filter image_iff split: option.splits)
  next
    case False
    then have c: "c \<in> set cs" "cl_id x \<noteq> cl_id c'" using Cons.prems(1,3,4) by force+
    have IH: "unique_slugs (tbl_update (\<lambda>x. cl_id x = cl_id c') (\<lambda>_. c') cs)"
      using Cons c tail by auto
    have "y \<notin> set (List.map_filter cl_slug (tbl_update (\<lambda>x. cl_id x = cl_id c') (\<lambda>_. c') cs))"
      if "cl_slug x = Some y" for y
      using new [OF that] that Cons.prems(5) c(1) by (auto simp: set_map_filter set_tbl_update image_iff)
    with IH c(2) show ?thesis
      by (auto simp: unique_slugs_def List.map_filter_simps split: option.splits)
  qed
qed simp

lemma edit_keeps: "accounts_ok d \<Longrightarrow> edit_ok d e \<Longrightarrow> accounts_ok (apply_edit e d)"
proof (cases e)
  case (Add_client c)
  assume a: "accounts_ok d" "edit_ok d e"
  have "unique_slugs (t_clients d @ [c])"
    using a Add_client by (auto simp: accounts_ok_def schema_ok_def unique_slugs_def set_map_filter image_iff split: option.splits)
  with a Add_client show ?thesis
    by (auto simp: accounts_ok_def schema_ok_def intro: fk_null_mono [rotated])
next
  case (Set_client c c')
  assume a: "accounts_ok d" "edit_ok d e"
  define cs where "cs = tbl_update (\<lambda>x. cl_id x = cl_id c') (\<lambda>_. c') (t_clients d)"
  have d: "distinct (map cl_id (t_clients d))" "c \<in> set (t_clients d)" "cl_id c' = cl_id c"
    using a Set_client by (auto simp: accounts_ok_def schema_ok_def)
  have ids: "map cl_id cs = map cl_id (t_clients d)" using replace_row(1) [OF d, of cl_id] d(3) by (simp add: cs_def)
  then have dist: "distinct (map cl_id cs)" and "set (map cl_id cs) = set (map cl_id (t_clients d))"
    using d(1) by presburger+
  then have im: "cl_id ` set cs = cl_id ` set (t_clients d)" by simp
  have fk: "fk_null cl_id cs x = fk_null cl_id (t_clients d) x"
    "(tbl_get cl_id cs i = None) = (tbl_get cl_id (t_clients d) i = None)" for x i
    by (cases x) (simp_all only: im fk_null_Some fk_null_None tbl_get_None_iff)
  have "unique_slugs cs"
    using slugs_update [of "t_clients d" c c'] a d Set_client by (auto simp: accounts_ok_def schema_ok_def cs_def)
  moreover have "\<forall>x \<in> set cs. client_widths x \<and> client_checks x"
    using a Set_client by (auto simp: accounts_ok_def set_tbl_update cs_def)
  moreover have "apply_edit e d = d\<lparr>t_clients := cs\<rparr>" using Set_client by (simp add: put_client_def cs_def)
  ultimately show ?thesis using a(1) dist by (simp add: accounts_ok_def schema_ok_def fk)
next
  case (Add_user u)
  assume "accounts_ok d" "edit_ok d e"
  with Add_user show ?thesis by (auto simp: accounts_ok_def schema_ok_def intro: fk_null_mono [rotated])
next
  case (Set_user u u')
  assume a: "accounts_ok d" "edit_ok d e"
  define us where "us = tbl_update (\<lambda>x. us_id x = us_id u') (\<lambda>_. u') (t_admin_users d)"
  have d: "distinct (map us_id (t_admin_users d))" "u \<in> set (t_admin_users d)" "us_id u' = us_id u"
    using a Set_user by (auto simp: accounts_ok_def schema_ok_def)
  have ids: "map us_id us = map us_id (t_admin_users d)" and mails: "map us_email us = map us_email (t_admin_users d)"
    using replace_row(1) [OF d, of us_id] replace_row(1) [OF d, of us_email] d(3) a Set_user by (simp_all add: us_def)
  then have "set (map us_id us) = set (map us_id (t_admin_users d))" by presburger
  then have fk: "fk_null us_id us x = fk_null us_id (t_admin_users d) x" for x by (cases x) simp_all
  have "\<forall>x \<in> set us. user_widths x \<and> user_checks x \<and> fk_null cl_id (t_clients d) (us_tenant_id x)"
    using a Set_user d(2) by (auto simp: accounts_ok_def schema_ok_def set_tbl_update us_def)
  moreover have "apply_edit e d = d\<lparr>t_admin_users := us\<rparr>" using Set_user by (simp add: put_user_def us_def)
  ultimately show ?thesis using a(1) ids mails by (simp add: accounts_ok_def schema_ok_def fk)
qed

subsection \<open>Every change is one edit and its audit row\<close>

fun edit_target :: "edit \<Rightarrow> int + string" where
  "edit_target (Add_client c) = Inl (cl_id c)"
| "edit_target (Set_client c c') = Inl (cl_id c')"
| "edit_target (Add_user u) = Inr (us_id u)"
| "edit_target (Set_user u u') = Inr (us_id u')"

fun edit_tenant :: "edit \<Rightarrow> int option" where
  "edit_tenant (Add_client c) = Some (cl_id c)"
| "edit_tenant (Set_client c c') = Some (cl_id c')"
| "edit_tenant (Add_user u) = us_tenant_id u"
| "edit_tenant (Set_user u u') = us_tenant_id u'"

fun edit_before :: "edit \<Rightarrow> json_object option" where
  "edit_before (Add_client c) = None"
| "edit_before (Set_client c c') = Some (client_audit_snapshot c)"
| "edit_before (Add_user u) = None"
| "edit_before (Set_user u u') = Some (user_audit_snapshot u)"

fun edit_after :: "edit \<Rightarrow> json_object" where
  "edit_after (Add_client c) = client_audit_snapshot c"
| "edit_after (Set_client c c') = client_audit_snapshot c'"
| "edit_after (Add_user u) = user_audit_snapshot u"
| "edit_after (Set_user u u') = user_audit_snapshot u'"

definition commit_edit :: "request_env \<Rightarrow> claims \<Rightarrow> string \<Rightarrow> edit \<Rightarrow> database \<Rightarrow> database \<times> bool" where
  "commit_edit ev user action e d =
     write_audit_log ev user action (edit_tenant e) (edit_before e) (Some (edit_after e)) (apply_edit e d)"

fun op_action :: "admin_op \<Rightarrow> string" where
  "op_action (Create_client b) = ''client.create''"
| "op_action (Create_tenant b) = ''tenant.create''"
| "op_action (Update_client i b) = ''client.update''"
| "op_action (Update_tenant i b) = ''tenant.update''"
| "op_action (Delete_client i) = ''client.delete''"
| "op_action (Delete_tenant i) = ''tenant.delete''"
| "op_action (Create_user b) = ''user.create''"
| "op_action (Update_user i b) = ''user.update''"
| "op_action (Delete_user i) = ''user.delete''"

fun op_target :: "request_env \<Rightarrow> admin_op \<Rightarrow> int + string" where
  "op_target ev (Create_client b) = Inl (ev_client_id ev)"
| "op_target ev (Create_tenant b) = Inl (ev_client_id ev)"
| "op_target ev (Update_client i b) = Inl i"
| "op_target ev (Update_tenant i b) = Inl i"
| "op_target ev (Delete_client i) = Inl i"
| "op_target ev (Delete_tenant i) = Inl i"
| "op_target ev (Create_user b) = Inr (ev_user_id ev)"
| "op_target ev (Update_user i b) = Inr i"
| "op_target ev (Delete_user i) = Inr i"

text \<open>
  A result is a refusal that changed nothing, or that of an edit: committed and audited, committed
  without an audit row, or committed and lost to the refresh on a connection that hides the row.
\<close>

definition refused :: "database \<Rightarrow> database \<times> 'a http \<Rightarrow> bool" where
  "refused d r = (fst r = d \<and> \<not> is_ok (snd r))"

definition by_edit :: "request_env \<Rightarrow> claims \<Rightarrow> string \<Rightarrow> int + string \<Rightarrow> database \<Rightarrow> database \<times> 'a http \<Rightarrow> bool" where
  "by_edit ev user action target d r =
     (require_super_admin user
      \<and> (\<exists>e. edit_ok d e \<and> edit_target e = target
          \<and> ((\<exists>lost. commit_edit ev user action e d = (fst r, lost) \<and> (lost \<or> is_ok (snd r)))
             \<or> \<not> tenant_isolation (ev_conn ev) (map_option int_str (edit_tenant e)) \<and> fst r = apply_edit e d)))"

lemma by_editI:
  assumes "require_super_admin user" "edit_ok d e" "edit_target e = target"
    and "fst r = fst (commit_edit ev user action e d)" "snd (commit_edit ev user action e d) \<or> is_ok (snd r)"
  shows "by_edit ev user action target d r"
proof -
  have "commit_edit ev user action e d = (fst r, snd (commit_edit ev user action e d))"
    using assms(4) by simp
  with assms show ?thesis unfolding by_edit_def by blast
qed

lemma from_row_simps [simp]: "fst (from_row x w) = fst w" "is_ok (snd (from_row x w)) = (\<not> snd w)"
  by (simp_all add: from_row_def split: prod.splits)

lemma refused_simps [simp]: "refused d (d', Inl e) \<longleftrightarrow> d' = d" "\<not> refused d (d', Inr x)"
  by (simp_all add: refused_def)

lemma super_admin_view: "require_super_admin user \<Longrightarrow> tenant_view user d = d"
  by (simp add: tenant_view_def require_super_admin_def tenant_value_def claim_role_def view_all)

lemma scalar_none: "scalar_one_or_none rows = Inr None \<longleftrightarrow> rows = []"
  by (simp add: scalar_one_or_none_def split: list.splits)

lemma touch_client_fields [simp]:
  "cl_id (touch_client now c c') = cl_id c'" "cl_slug (touch_client now c c') = cl_slug c'"
  "client_checks (touch_client now c c') = client_checks c'"
  "client_widths (touch_client now c c') = client_widths c'"
  by (simp_all add: touch_client_def client_checks_def client_widths_def)

lemma merge_client_checks:
  "client_checks c \<Longrightarrow> in_check VALID_PLANS (cd_plan b) \<Longrightarrow> in_check VALID_CLIENT_STATUSES (cd_status b) \<Longrightarrow>
   client_checks (merge_client b c)"
  by (auto simp: client_checks_def merge_client_def opt_set_def in_check_def VALID_PLANS_def
      VALID_CLIENT_STATUSES_def split: option.splits)

lemma insert_client_edit:
  "refused d (insert_client action resp ev b user d)
   \<or> by_edit ev user action (Inl (ev_client_id ev)) d (insert_client action resp ev b user d)"
proof (cases "refused d (insert_client action resp ev b user d)")
  case False
  let ?c = "new_client ev b"
  have g: "require_super_admin user" "cc_plan b \<in> set VALID_PLANS"
    "filter (\<lambda>c. cl_slug c = Some (cc_slug b)) (t_clients d) = []"
    "client_widths ?c" "cl_id ?c \<notin> cl_id ` set (t_clients d)"
    "insert_client action resp ev b user d = from_row (resp ?c) (commit_edit ev user action (Add_client ?c) d)"
    using False by (auto simp: insert_client_def Let_def scalar_none commit_edit_def split: if_splits sum.splits option.splits)
  have "edit_ok d (Add_client ?c)"
    using g by (auto simp: new_client_def filter_empty_conv client_checks_def in_check_def VALID_PLANS_def)
  then have "by_edit ev user action (Inl (ev_client_id ev)) d (insert_client action resp ev b user d)"
    using g(1,6) by (intro by_editI [where e = "Add_client ?c"]) (auto simp: new_client_def)
  then show ?thesis ..
qed simp

lemma modify_client_edit:
  assumes "accounts_ok d"
  shows "refused d (modify_client action missing resp ev i b user d)
   \<or> by_edit ev user action (Inl i) d (modify_client action missing resp ev i b user d)"
proof (cases "refused d (modify_client action missing resp ev i b user d)")
  case False
  then obtain c where c: "require_super_admin user" "get_by_int cl_id (t_clients d) i missing = Inr c" "valid_client_update b c d = Inr ()"
    by (auto simp: modify_client_def split: if_splits sum.splits)
  let ?c = "touch_client (ev_now ev) c (merge_client b c)"
  have m: "client_widths ?c"
    "modify_client action missing resp ev i b user d = from_row (resp ?c) (commit_edit ev user action (Set_client c ?c) d)"
    using False c by (auto simp: modify_client_def Let_def commit_edit_def split: if_splits)
  have v: "in_check VALID_PLANS (cd_plan b)" "in_check VALID_CLIENT_STATUSES (cd_status b)"
    "cd_slug b = None \<or> cd_slug b = cl_slug c \<or> filter (\<lambda>x. cl_slug x = cd_slug b) (t_clients d) = []"
    using c(3) by (auto simp: valid_client_update_def scalar_none split: if_splits sum.splits option.splits)
  have k: "cl_id (merge_client b c) = cl_id c" "cl_slug (merge_client b c) = opt_set (cd_slug b) (cl_slug c)"
    by (simp_all add: merge_client_def)
  have c': "c \<in> set (t_clients d)" "cl_id c = i" using c(2) tbl_get_SomeD [of cl_id "t_clients d" i c] by (simp_all add: get_by_int_Inr)
  then have "client_checks (merge_client b c)"
    using assms merge_client_checks [OF _ v(1,2)] by (simp add: accounts_ok_def)
  then have "edit_ok d (Set_client c ?c)"
    using m(1) v(3) k c' by (auto simp: opt_set_def filter_empty_conv split: option.splits)
  then have "by_edit ev user action (Inl i) d (modify_client action missing resp ev i b user d)"
    using c(1) c' k m(2) by (intro by_editI [where e = "Set_client c ?c"]) auto
  then show ?thesis ..
qed simp

lemma deactivate_client_edit:
  assumes "accounts_ok d"
  shows "refused d (deactivate_client action missing ev i user d)
   \<or> by_edit ev user action (Inl i) d (deactivate_client action missing ev i user d)"
proof (cases "refused d (deactivate_client action missing ev i user d)")
  case False
  then obtain c where c: "require_super_admin user" "get_by_int cl_id (t_clients d) i missing = Inr c"
    by (auto simp: deactivate_client_def split: if_splits sum.splits)
  let ?c = "touch_client (ev_now ev) c (c\<lparr>cl_status := Some ''inactive''\<rparr>)"
  have m: "deactivate_client action missing ev i user d = (fst (commit_edit ev user action (Set_client c ?c) d), Inr ())"
    using False c by (auto simp: deactivate_client_def Let_def commit_edit_def)
  have c': "c \<in> set (t_clients d)" "cl_id c = i" using c(2) tbl_get_SomeD [of cl_id "t_clients d" i c] by (simp_all add: get_by_int_Inr)
  then have "client_widths c" "client_checks c" using assms by (simp_all add: accounts_ok_def)
  then have "client_widths (c\<lparr>cl_status := Some ''inactive''\<rparr>)" "client_checks (c\<lparr>cl_status := Some ''inactive''\<rparr>)"
    by (simp_all add: client_checks_def client_widths_def in_check_def varchar_null_def [of 20] varchar_def)
  then have "edit_ok d (Set_client c ?c)" using c' by simp
  then have "by_edit ev user action (Inl i) d (deactivate_client action missing ev i user d)"
    using c(1) c' m by (intro by_editI [where e = "Set_client c ?c"]) auto
  then show ?thesis ..
qed simp

lemma refresh_and_audit_edit:
  assumes "require_super_admin actor" "edit_ok d e" "e = Add_user u \<and> before = None \<or> e = Set_user u0 u \<and> before = Some (user_audit_snapshot u0)"
  shows "by_edit ev actor action (Inr (us_id u)) d (refresh_and_audit ev actor action before u (apply_edit e d))"
proof (cases "tenant_isolation (ev_conn ev) (map_option int_str (us_tenant_id u))")
  case True
  with assms show ?thesis by (intro by_editI [where e = e]) (auto simp: refresh_and_audit_def commit_edit_def)
next
  case False
  with assms show ?thesis unfolding by_edit_def by (intro conjI exI [of _ e]) (auto simp: refresh_and_audit_def)
qed

lemma create_user_edit:
  assumes "accounts_ok d"
  shows "refused d (create_user bc ev b user d)
   \<or> by_edit ev user ''user.create'' (Inr (ev_user_id ev)) d (create_user bc ev b user d)"
proof (cases "refused d (create_user bc ev b user d)")
  case False
  let ?u = "new_user bc ev b"
  have g: "require_super_admin user" "uc_role b \<in> set VALID_USER_ROLES"
    "filter (\<lambda>u. us_email u = uc_email b) (t_admin_users d) = []"
    "tenant_missing (uc_tenant_id b) d = None" "user_widths ?u" "us_id ?u \<notin> us_id ` set (t_admin_users d)"
    "create_user bc ev b user d = refresh_and_audit ev user ''user.create'' None ?u (apply_edit (Add_user ?u) d)"
    using False by (auto simp: create_user_def Let_def scalar_none super_admin_view split: if_splits sum.splits option.splits)
  have "fk_null cl_id (t_clients d) (uc_tenant_id b)"
    using g(4) tbl_get_SomeD by (fastforce simp: tenant_missing_def get_by_int_Inr split: option.splits sum.splits)
  then have "edit_ok d (Add_user ?u)"
    using g by (auto simp: new_user_def filter_empty_conv user_checks_def in_check_def VALID_USER_ROLES_def)
  then show ?thesis using refresh_and_audit_edit [OF g(1), of d "Add_user ?u" ?u None] g(7)
    by (simp add: new_user_def)
qed simp

lemma merge_user_fields [simp]:
  "us_id (merge_user bc salt b u) = us_id u" "us_email (merge_user bc salt b u) = us_email u"
  "us_tenant_id (merge_user bc salt b u) = us_tenant_id u"
  by (simp_all add: merge_user_def)

lemma update_user_edit:
  assumes "accounts_ok d"
  shows "refused d (update_user bc ev i b user d)
   \<or> by_edit ev user ''user.update'' (Inr i) d (update_user bc ev i b user d)"
proof (cases "refused d (update_user bc ev i b user d)")
  case False
  then obtain u where u: "require_super_admin user" "tbl_get us_id (t_admin_users d) i = Some u" "valid_user_update b = Inr ()"
    by (auto simp: update_user_def super_admin_view split: if_splits option.splits sum.splits)
  let ?u = "merge_user bc (ev_salt ev) b u"
  have m: "user_widths ?u" "update_user bc ev i b user d =
      refresh_and_audit ev user ''user.update'' (Some (user_audit_snapshot u)) ?u (apply_edit (Set_user u ?u) d)"
    using False u by (auto simp: update_user_def super_admin_view Let_def split: if_splits)
  have u': "u \<in> set (t_admin_users d)" "us_id u = i" using tbl_get_SomeD [OF u(2)] by simp_all
  then have "user_checks u" using assms by (simp add: accounts_ok_def)
  then have "user_checks ?u" using u(3)
    by (auto simp: user_checks_def merge_user_def valid_user_update_def in_check_def opt_set_def
        VALID_USER_ROLES_def VALID_USER_STATUSES_def split: if_splits option.splits)
  then have "edit_ok d (Set_user u ?u)" using u' m(1) by simp
  from refresh_and_audit_edit [OF u(1) this, of ?u "Some (user_audit_snapshot u)" u] u'(2) m(2) show ?thesis by simp
qed simp

lemma delete_user_edit:
  assumes "accounts_ok d"
  shows "refused d (delete_user ev i user d)
   \<or> by_edit ev user ''user.delete'' (Inr i) d (delete_user ev i user d)"
proof (cases "refused d (delete_user ev i user d)")
  case False
  then obtain u where u: "require_super_admin user" "tbl_get us_id (t_admin_users d) i = Some u"
    by (auto simp: delete_user_def super_admin_view split: if_splits option.splits)
  let ?u = "u\<lparr>us_status := Some ''suspended''\<rparr>"
  have m: "delete_user ev i user d = (fst (commit_edit ev user ''user.delete'' (Set_user u ?u) d), Inr ())"
    using u by (auto simp: delete_user_def super_admin_view Let_def commit_edit_def)
  have u': "u \<in> set (t_admin_users d)" "us_id u = i" using tbl_get_SomeD [OF u(2)] by simp_all
  then have w: "user_widths u" "user_checks u" using assms by (simp_all add: accounts_ok_def)
  then have "user_widths ?u" "user_checks ?u"
    by (simp_all add: user_widths_def user_checks_def in_check_def varchar_null_def varchar_def)
  then have "by_edit ev user ''user.delete'' (Inr i) d (delete_user ev i user d)"
    using u(1) u' m by (intro by_editI [where e = "Set_user u ?u"]) auto
  then show ?thesis ..
qed simp

lemma ack_edit [simp]:
  "refused d (ack r) = refused d r" "by_edit ev user action target d (ack r) = by_edit ev user action target d r"
  by (cases r; cases "snd r"; simp add: refused_def by_edit_def ack_def)+

lemma admin_step_edit:
  assumes "accounts_ok d"
  shows "refused d (admin_step bc ev user op d)
   \<or> by_edit ev user (op_action op) (op_target ev op) d (admin_step bc ev user op d)"
  by (cases op) (simp_all add: create_client_def create_tenant_def update_client_def update_tenant_def
      delete_client_def delete_tenant_def insert_client_edit modify_client_edit [OF assms]
      deactivate_client_edit [OF assms] create_user_edit [OF assms] update_user_edit [OF assms]
      delete_user_edit [OF assms])

subsection \<open>Facts about edits\<close>

lemma write_audit_keeps: "accounts_ok d \<Longrightarrow> accounts_ok (fst (write_audit_log ev user action t before after d))"
  by (auto simp: write_audit_log_def Let_def audit_accepts_def accounts_ok_def schema_ok_def)

lemma by_edit_keeps: "accounts_ok d \<Longrightarrow> by_edit ev user action target d r \<Longrightarrow> accounts_ok (fst r)"
  using write_audit_keeps edit_keeps unfolding by_edit_def commit_edit_def by (metis fst_conv)

lemma get_replaced:
  "key r' \<in> key ` set rows \<Longrightarrow> tbl_get key (tbl_update (\<lambda>x. key x = key r') (\<lambda>_. r') rows) (key r') = Some r'"
  by (induction rows) auto

lemma replaced_keys: "key ` set rows \<subseteq> key ` set (tbl_update (\<lambda>x. key x = key r') (\<lambda>_. r') rows)"
  by (induction rows) auto

fun stored_snapshot :: "int + string \<Rightarrow> database \<Rightarrow> json_object option" where
  "stored_snapshot (Inl i) d = map_option client_audit_snapshot (tbl_get cl_id (t_clients d) i)"
| "stored_snapshot (Inr i) d = map_option user_audit_snapshot (tbl_get us_id (t_admin_users d) i)"

lemma edit_snapshots:
  assumes "accounts_ok d" "edit_ok d e"
  shows "stored_snapshot (edit_target e) d = edit_before e"
    and "stored_snapshot (edit_target e) (apply_edit e d) = Some (edit_after e)"
proof -
  have dist: "distinct (map cl_id (t_clients d))" "distinct (map us_id (t_admin_users d))"
    using assms(1) by (simp_all add: accounts_ok_def schema_ok_def)
  show "stored_snapshot (edit_target e) d = edit_before e"
    using assms(2) dist by (cases e) (auto simp: tbl_get_None_iff tbl_get_eq_Some_iff)
  show "stored_snapshot (edit_target e) (apply_edit e d) = Some (edit_after e)"
  proof (cases e)
    case (Set_client c c')
    then have "cl_id c' \<in> cl_id ` set (t_clients d)" using assms(2) by simp
    from get_replaced [of cl_id c', OF this] Set_client show ?thesis by (simp add: put_client_def)
  next
    case (Set_user u u')
    then have "us_id u' \<in> us_id ` set (t_admin_users d)" using assms(2) by simp
    from get_replaced [of us_id u', OF this] Set_user show ?thesis by (simp add: put_user_def)
  qed (use assms(2) in \<open>auto simp: image_iff split: option.splits dest!: tbl_get_SomeD\<close>)
qed

lemma apply_edit_rest [simp]:
  "t_audit_logs (apply_edit e d) = t_audit_logs d"
  by (cases e) (simp_all add: put_client_def put_user_def)

lemma apply_edit_users: "edit_ok d e \<Longrightarrow> us_id ` set (t_admin_users d) \<subseteq> us_id ` set (t_admin_users (apply_edit e d))"
  using replaced_keys [of us_id "t_admin_users d"]
  by (cases e) (simp_all add: put_client_def put_user_def subset_insertI del: edit_ok.simps)

lemma nat_digits_length: "n < 10 ^ Suc k \<Longrightarrow> length (nat_digits n) \<le> Suc k"
proof (induction k arbitrary: n)
  case (Suc k)
  then have "n div 10 < 10 ^ Suc k" by (simp add: less_mult_imp_div_less)
  from Suc.IH [OF this] show ?case by (subst nat_digits.simps) simp
qed (simp add: nat_digits.simps)

lemma int4_str: "int4 i \<Longrightarrow> length (int_str i) \<le> 255"
  using nat_digits_length [of "nat i" 9] nat_digits_length [of "nat (- i)" 9]
  by (auto simp: int4_def int_str_def nat_less_iff)

lemma edit_tenant_width:
  assumes "accounts_ok d" "edit_ok d e"
  shows "varchar_null 255 (map_option int_str (edit_tenant e))"
proof -
  have fits: "varchar_null 255 (map_option int_str x)" if "fk_null cl_id (t_clients d) x" for x
  proof (cases x)
    case (Some k)
    with that obtain c where "c \<in> set (t_clients d)" "cl_id c = k" by auto
    then have "int4 k" using assms(1) by (auto simp: accounts_ok_def client_widths_def)
    then show ?thesis using Some int4_str by (simp add: varchar_null_def varchar_def)
  qed (simp add: varchar_null_def)
  have users: "fk_null cl_id (t_clients d) (us_tenant_id u)" if "u \<in> set (t_admin_users d)" for u
    using that assms(1) by (simp add: accounts_ok_def schema_ok_def)
  show ?thesis
  proof (cases e)
    case (Add_client c)
    then have "int4 (cl_id c)" using assms(2) by (simp add: client_widths_def)
    then show ?thesis using Add_client int4_str by (simp add: varchar_null_def varchar_def)
  next
    case (Set_client c c')
    then have "fk_null cl_id (t_clients d) (Some (cl_id c'))" using assms(2) by simp
    from fits [OF this] Set_client show ?thesis by simp
  next
    case (Add_user u)
    then show ?thesis using fits assms(2) by simp
  next
    case (Set_user u u')
    then show ?thesis using fits [OF users] assms(2) by simp
  qed
qed

lemma op_action_width: "length (op_action op) \<le> 100"
  by (cases op) simp_all

text \<open>When the actor has an account and the connection shows every tenant, the audit row goes in.\<close>

lemma commit_edit_accepted:
  assumes "accounts_ok d" "edit_ok d e" "ev_conn ev = Some ALL_TENANTS_SENTINEL"
    and "cm_sub user = Some uid" "uid \<in> us_id ` set (t_admin_users d)"
    and "ev_audit_id ev \<notin> au_id ` set (t_audit_logs d)" "length (ev_audit_id ev) \<le> 36" "length action \<le> 100"
  shows "commit_edit ev user action e d =
    ((apply_edit e d)\<lparr>t_audit_logs := t_audit_logs d @
       [new_audit_log ev user action (edit_tenant e) (edit_before e) (Some (edit_after e))]\<rparr>, False)"
proof -
  have "length uid \<le> 36" using assms(1,5) by (auto simp: accounts_ok_def user_widths_def varchar_def)
  moreover have "uid \<in> us_id ` set (t_admin_users (apply_edit e d))"
    using apply_edit_users [OF assms(2)] assms(5) by blast
  ultimately have "audit_accepts (ev_conn ev)
      (new_audit_log ev user action (edit_tenant e) (edit_before e) (Some (edit_after e))) (apply_edit e d)"
    using assms(3,4,6-8) edit_tenant_width [OF assms(1,2)]
    by (simp add: audit_accepts_def new_audit_log_def audit_widths_def varchar_def isolation_all varchar_null_def [of 36])
  then show ?thesis by (simp add: commit_edit_def write_audit_log_def)
qed

text \<open>Every request is a step of the administration machine.\<close>

definition admin_request :: "bcrypt_lib \<Rightarrow> database \<Rightarrow> request_env \<times> claims \<times> admin_op \<Rightarrow> database" where
  "admin_request bc d q = (case q of (ev, user, op) \<Rightarrow> fst (admin_step bc ev user op d))"

interpretation admin: machine "admin_request bc" accounts_ok for bc
proof (unfold_locales)
  fix d and q :: "request_env \<times> claims \<times> admin_op"
  assume ok: "accounts_ok d"
  obtain ev user op where q: "q = (ev, user, op)" by (cases q)
  have "accounts_ok (fst (admin_step bc ev user op d))"
    using admin_step_edit [OF ok, of bc ev user op]
  proof
    assume "by_edit ev user (op_action op) (op_target ev op) d (admin_step bc ev user op d)"
    then show ?thesis by (rule by_edit_keeps [OF ok])
  qed (simp add: refused_def ok)
  then show "accounts_ok (admin_request bc d q)" by (simp add: admin_request_def q)
qed

section \<open>Properties\<close>

text \<open>Whatever requests the administration routes get, from whomever, accepted, refused or failing
  after their commit, the tables stay consistent: unique keys, slugs and emails, foreign keys, the
  CHECK constraints on plans, roles and statuses, and the column widths.\<close>

lemma admin_changes_keep_schema:
  assumes "accounts_ok d"
  shows "accounts_ok (run (admin_request bc) d requests)"
  by (rule admin.run_inv) (rule assms)

definition demo_env :: request_env where
  "demo_env = \<lparr>ev_conn = Some ALL_TENANTS_SENTINEL, ev_now = 5, ev_client_id = 7, ev_user_id = ''n1'',
     ev_salt = ''s'', ev_audit_id = ''a1'', ev_audit_now = 6\<rparr>"

definition demo_root :: claims where
  "demo_root = demo_user ''super_admin'' None"

definition demo_admin_db :: database where
  "demo_admin_db = empty_database\<lparr>t_admin_users :=
     [\<lparr>us_id = ''u1'', us_email = ''a@x'', us_full_name = ''A'', us_password_hash = None,
       us_role = Some ''super_admin'', us_tenant_id = None, us_status = Some ''active'', us_created_at = 0\<rparr>]\<rparr>"

definition demo_client_body :: client_create where
  "demo_client_body = \<lparr>cc_name = ''Hotel'', cc_slug = ''hotel'', cc_plan = ''pro'', cc_contact_email = None,
     cc_contact_phone = None, cc_api_limit = 100, cc_max_concurrent_calls = 10\<rparr>"

lemma demo_admin_db_ok: "accounts_ok demo_admin_db"
  by (simp add: accounts_ok_def schema_ok_def demo_admin_db_def empty_database_def unique_slugs_def
      unique_event_def List.map_filter_def user_widths_def user_checks_def varchar_def varchar_null_def in_check_def)

lemma admin_changes_keep_schema_example:
  "accounts_ok (run (admin_request demo_bcrypt) demo_admin_db
     [(demo_env, demo_root, Create_tenant demo_client_body), (demo_env, demo_root, Delete_tenant 7)])"
  by (rule admin_changes_keep_schema) (rule demo_admin_db_ok)

text \<open>C34. Administrative changes are all or nothing and leave a trace: for an actor with an account, on
  a connection that still shows every tenant, a request that is answered with an error has changed
  nothing, and one that succeeds has added exactly one audit row, which names the actor and the
  action and holds the state of the client or account before and after the change.\<close>

theorem admin_change_is_audited:
  assumes "accounts_ok d" "ev_conn ev = Some ALL_TENANTS_SENTINEL"
    and "cm_sub user = Some uid" "uid \<in> us_id ` set (t_admin_users d)"
    and "ev_audit_id ev \<notin> au_id ` set (t_audit_logs d)" "length (ev_audit_id ev) \<le> 36"
    and "admin_step bc ev user op d = (d', r)"
  shows "case r of
      Inl e \<Rightarrow> d' = d
    | Inr _ \<Rightarrow> \<exists>a. t_audit_logs d' = t_audit_logs d @ [a] \<and> au_user_id a = Some uid
        \<and> au_action a = op_action op
        \<and> au_before_value a = stored_snapshot (op_target ev op) d
        \<and> au_after_value a = stored_snapshot (op_target ev op) d' \<and> au_after_value a \<noteq> None"
proof (cases "refused d (d', r)")
  case True
  then show ?thesis by (cases r) simp_all
next
  case False
  then have "by_edit ev user (op_action op) (op_target ev op) d (d', r)"
    using admin_step_edit [OF assms(1), of bc ev user op] assms(7) by simp
  then obtain e lost where e: "edit_ok d e" "edit_target e = op_target ev op"
      "commit_edit ev user (op_action op) e d = (d', lost)" "lost \<or> is_ok r"
    using assms(2) by (auto simp: by_edit_def isolation_all)
  note c = commit_edit_accepted [OF assms(1) e(1) assms(2-6) op_action_width [of op]]
  have "is_ok r" using e(3,4) c by simp
  have snap: "stored_snapshot t (d\<lparr>t_audit_logs := x\<rparr>) = stored_snapshot t d" for t d x by (cases t) simp_all
  let ?a = "new_audit_log ev user (op_action op) (edit_tenant e) (edit_before e) (Some (edit_after e))"
  have d': "d' = (apply_edit e d)\<lparr>t_audit_logs := t_audit_logs d @ [?a]\<rparr>" using e(3) c by simp
  have a: "t_audit_logs d' = t_audit_logs d @ [?a] \<and> au_user_id ?a = Some uid \<and> au_action ?a = op_action op
      \<and> au_before_value ?a = stored_snapshot (op_target ev op) d
      \<and> au_after_value ?a = stored_snapshot (op_target ev op) d' \<and> au_after_value ?a \<noteq> None"
    using edit_snapshots [OF assms(1) e(1)] e(2) assms(3) by (simp add: d' snap new_audit_log_def)
  obtain x where r: "r = Inr x" using \<open>is_ok r\<close> by (cases r) simp_all
  show ?thesis unfolding r sum.case using a by (rule exI [of _ ?a])
qed

theorem admin_change_is_audited_witness:
  "\<exists>a d'. admin_step demo_bcrypt demo_env demo_root (Create_tenant demo_client_body) demo_admin_db = (d', Inr ())
     \<and> t_audit_logs d' = [a] \<and> au_user_id a = Some ''u1'' \<and> au_before_value a = None"
proof -
  let ?r = "admin_step demo_bcrypt demo_env demo_root (Create_tenant demo_client_body) demo_admin_db"
  have "snd ?r = Inr ()" by code_simp
  then have r: "?r = (fst ?r, Inr ())" by (metis prod.collapse)
  from admin_change_is_audited [OF demo_admin_db_ok _ _ _ _ _ r, of "''u1''"]
  obtain a where "t_audit_logs (fst ?r) = [a]" "au_user_id a = Some ''u1''" "au_before_value a = None"
    by (auto simp: demo_env_def demo_root_def demo_user_def demo_admin_db_def empty_database_def)
  with r show ?thesis by blast
qed

text \<open>C35. The bootstrap administrator's changes are reported as failures: the token's subject is an
  email and no account's id, so the audit row violates its foreign key, the rollback expires the new
  client and the request ends in status 500, although the tenant is stored and no audit row is.
  Repeating the request is refused with 409.\<close>

theorem unaudited_change_reports_failure:
  assumes "require_super_admin user" "cm_sub user = Some uid" "uid \<notin> us_id ` set (t_admin_users d)"
    and "cc_plan b \<in> set VALID_PLANS" "Some (cc_slug b) \<notin> cl_slug ` set (t_clients d)"
    and "client_widths (new_client ev b)" "ev_client_id ev \<notin> cl_id ` set (t_clients d)"
  shows "create_tenant ev b user d =
      (d\<lparr>t_clients := t_clients d @ [new_client ev b]\<rparr>, Inl (Unhandled ''MissingGreenlet''))
    \<and> create_tenant ev' b user (d\<lparr>t_clients := t_clients d @ [new_client ev b]\<rparr>) =
      (d\<lparr>t_clients := t_clients d @ [new_client ev b]\<rparr>, Inl (HTTPException 409 ''Slug already exists''))"
proof -
  have none: "filter (\<lambda>c. cl_slug c = Some (cc_slug b)) (t_clients d) = []"
    using assms(5) by (auto simp: filter_empty_conv image_iff)
  show ?thesis using assms none
    by (simp add: create_tenant_def insert_client_def scalar_one_or_none_def Let_def write_audit_log_def
        audit_accepts_def new_audit_log_def from_row_def new_client_def)
qed

theorem unaudited_change_reports_failure_witness:
  "status_code (projl (snd (create_tenant demo_env demo_client_body (demo_root\<lparr>cm_sub := Some ''root@x''\<rparr>) demo_admin_db))) = 500
   \<and> length (t_clients (fst (create_tenant demo_env demo_client_body (demo_root\<lparr>cm_sub := Some ''root@x''\<rparr>) demo_admin_db))) = 1"
proof -
  have "client_widths (new_client demo_env demo_client_body)" by code_simp
  with unaudited_change_reports_failure [of "demo_root\<lparr>cm_sub := Some ''root@x''\<rparr>" "''root@x''" demo_admin_db
      demo_client_body demo_env demo_env]
  show ?thesis
    by (simp add: demo_root_def demo_user_def require_super_admin_def demo_admin_db_def empty_database_def
        demo_client_body_def VALID_PLANS_def)
qed

text \<open>A tenant administrator cannot leave the own tenant through the administration routes: the
  listings of accounts, call requests and audit rows and the two lookups depend only on the rows of
  the token's tenant, whatever \<open>tenant_id\<close> the query asks for, and every change is refused with 403.\<close>

lemma tenant_admin_is_confined:
  assumes "cm_role user = Some ''tenant_admin''" "cm_client_id user = Some k" "k \<noteq> 0"
    and "same_tenant k d d'"
    and "filter (\<lambda>a. au_tenant_id a = Some (int_str k)) (t_audit_logs d)
       = filter (\<lambda>a. au_tenant_id a = Some (int_str k)) (t_audit_logs d')"
  shows "admin_list_users page per_page t role status user d = admin_list_users page per_page t' role status user d'
    \<and> admin_list_calls page per_page t search user d = admin_list_calls page per_page t' search user d'
    \<and> list_audit_logs page per_page t action user d = list_audit_logs page per_page t' action user d'
    \<and> admin_get_user uid user d = admin_get_user uid user d'
    \<and> admin_get_call i user d = admin_get_call i user d'
    \<and> admin_step bc ev user op d = (d, Inl (HTTPException 403 ''super_admin role required''))"
proof -
  have req: "require_client user = Inr k" using assms(1-3) by (simp add: require_client_Inr)
  note view = tenant_view_own [OF req]
  have audit: "t_audit_logs (tenant_view user x) = filter (\<lambda>a. au_tenant_id a = Some (int_str k)) (t_audit_logs x)" for x
    using client_tenant_value [OF req] by (simp add: tenant_view_def rls_view_def)
  have scope: "tenant_scope user x = Inr (Some k)" "require_admin user" "\<not> require_super_admin user" for x
    using assms(1-3) by (simp_all add: tenant_scope_def require_admin_def require_super_admin_def)
  have lists: "admin_list_users page per_page t role status user d = admin_list_users page per_page t' role status user d'"
    "admin_list_calls page per_page t search user d = admin_list_calls page per_page t' search user d'"
    "list_audit_logs page per_page t action user d = list_audit_logs page per_page t' action user d'"
    using assms(1,4,5) scope by (simp_all add: admin_list_users_def admin_list_calls_def list_audit_logs_def
        scoped_page_def view audit same_tenant_def)
  have gets: "admin_get_user uid user d = admin_get_user uid user d'" "admin_get_call i user d = admin_get_call i user d'"
    using assms(4) by (simp_all add: admin_get_user_def admin_get_call_def view same_tenant_def)
  have "admin_step bc ev user op d = (d, Inl (HTTPException 403 ''super_admin role required''))"
    using scope(3) by (cases op) (simp_all add: create_client_def create_tenant_def insert_client_def update_client_def
        update_tenant_def modify_client_def delete_client_def delete_tenant_def deactivate_client_def create_user_def
        update_user_def delete_user_def super_admin_required_def forbidden_def)
  with lists gets show ?thesis by blast
qed

text \<open>A password set by an administrator works at the next login: after a successful update with a
  new password, the account logs in with it, as the updated role and in its tenant, exactly when its
  status is then active.\<close>

lemma password_reset_takes_effect:
  assumes "accounts_ok d" "bcrypt_ok bc" "uu_password b = Some p"
    and "update_user bc ev uid b actor d = (d', Inr r)"
  shows "ar_user_id r = uid \<and>
    (\<exists>t. map_option int_str t = ar_tenant_id r \<and>
      login j bc cfg now \<lparr>lr_email = ar_email r, lr_password = p\<rparr> d' =
        (if ar_status r = Some ''active''
         then Inr (token_pair j cfg now uid (the (py_or (ar_role r) (Some ''agent''))) t (ar_email r) (ar_full_name r))
         else Inl invalid_credentials))"
proof -
  obtain u where u: "tbl_get us_id (t_admin_users d) uid = Some u" "require_super_admin actor"
    using assms(4) by (auto simp: update_user_def super_admin_view split: if_splits option.splits)
  define u' where "u' = merge_user bc (ev_salt ev) b u"
  have d': "t_admin_users d' = t_admin_users (put_user u' d)" "r = user_to_response u'"
    using assms(4) u by (auto simp: update_user_def super_admin_view Let_def refresh_and_audit_def from_row_def
        write_audit_log_def u'_def split: if_splits sum.splits prod.splits)
  have ok': "accounts_ok d'"
    using admin.step_inv [OF assms(1), of bc "(ev, actor, Update_user uid b)"] assms(4) by (simp add: admin_request_def)
  have id: "us_id u' = uid" "us_id u' \<in> us_id ` set (t_admin_users d)"
    using tbl_get_SomeD [OF u(1)] by (auto simp: u'_def)
  have "u' \<in> set (t_admin_users d')"
    using tbl_get_SomeD [OF get_replaced [of us_id u', OF id(2)]] d'(1) by (simp add: put_user_def)
  then have f: "filter (\<lambda>v. us_email v = us_email u') (t_admin_users d') = [u']"
    using unique_email_filter [of "t_admin_users d'" u'] ok' by (simp add: accounts_ok_def schema_ok_def)
  have hash: "us_password_hash u' = Some (bc_hashpw bc p (ev_salt ev))"
    using assms(3) by (simp add: u'_def merge_user_def hash_password_def)
  show ?thesis
    using assms(2) by (intro conjI exI [of _ "us_tenant_id u'"])
      (simp_all add: login_def f hash verify_password_def bcrypt_ok_def d'(2) user_to_response_def id(1))
qed

definition demo_hash :: bcrypt_lib where
  "demo_hash = \<lparr>bc_hashpw = (\<lambda>p salt. CHR 36 # p), bc_checkpw = (\<lambda>p h. Some (h = CHR 36 # p))\<rparr>"

definition demo_user_update :: "string \<Rightarrow> user_update" where
  "demo_user_update p = \<lparr>uu_full_name = None, uu_role = None, uu_status = None, uu_password = Some p\<rparr>"

lemma password_reset_takes_effect_example:
  "\<exists>d' r. update_user demo_hash demo_env ''u1'' (demo_user_update ''secret123'') demo_root demo_admin_db = (d', Inr r)
     \<and> is_ok (login demo_jwt demo_hash demo_auth 0 \<lparr>lr_email = ''a@x'', lr_password = ''secret123''\<rparr> d')"
proof -
  let ?u = "update_user demo_hash demo_env ''u1'' (demo_user_update ''secret123'') demo_root demo_admin_db"
  let ?r = "projr (snd ?u)"
  have "is_ok (snd ?u)" "ar_email ?r = ''a@x''" "ar_status ?r = Some ''active''" by code_simp+
  then have u: "?u = (fst ?u, Inr ?r)" by (cases "snd ?u") (auto simp: prod_eq_iff)
  have "bcrypt_ok demo_hash" by (simp add: bcrypt_ok_def demo_hash_def)
  from password_reset_takes_effect [OF demo_admin_db_ok this _ u, of "''secret123''" demo_jwt demo_auth 0]
  have "is_ok (login demo_jwt demo_hash demo_auth 0 \<lparr>lr_email = ''a@x'', lr_password = ''secret123''\<rparr> (fst ?u))"
    using \<open>ar_email ?r = ''a@x''\<close> \<open>ar_status ?r = Some ''active''\<close> by (auto simp: demo_user_update_def)
  with u show ?thesis by blast
qed

text \<open>Databases, accounts and results up to stored hashes.\<close>

definition without_hash :: "user \<Rightarrow> user" where
  "without_hash u = u\<lparr>us_password_hash := None\<rparr>"

definition without_hashes :: "database \<Rightarrow> database" where
  "without_hashes d = d\<lparr>t_admin_users := map without_hash (t_admin_users d)\<rparr>"

definition same_but_hashes :: "database \<times> 'a http \<Rightarrow> database \<times> 'a http \<Rightarrow> bool" where
  "same_but_hashes r r' = (without_hashes (fst r) = without_hashes (fst r') \<and> snd r = snd r')"

lemma without_hash_eq:
  assumes "without_hash u = without_hash u'"
  shows "us_id u = us_id u'" "us_tenant_id u = us_tenant_id u'" "user_audit_snapshot u = user_audit_snapshot u'"
    "user_to_response u = user_to_response u'"
  using assms by (cases u; cases u'; simp add: without_hash_def user_audit_snapshot_def user_to_response_def)+

lemma without_hashes_eq:
  assumes "without_hashes d = without_hashes d'"
  shows "d' = d\<lparr>t_admin_users := t_admin_users d'\<rparr>" "us_id ` set (t_admin_users d) = us_id ` set (t_admin_users d')"
proof -
  show "d' = d\<lparr>t_admin_users := t_admin_users d'\<rparr>"
    using assms by (cases d; cases d') (simp add: without_hashes_def)
  have "map us_id (map without_hash us) = map us_id us" for us by (simp add: without_hash_def)
  moreover have "map without_hash (t_admin_users d) = map without_hash (t_admin_users d')"
    using assms by (cases d; cases d') (simp add: without_hashes_def)
  ultimately have "map us_id (t_admin_users d) = map us_id (t_admin_users d')" by metis
  then show "us_id ` set (t_admin_users d) = us_id ` set (t_admin_users d')" by (metis list.set_map)
qed

lemma write_audit_hashes:
  assumes "without_hashes d = without_hashes d'"
  shows "without_hashes (fst (write_audit_log ev user action t before after d))
      = without_hashes (fst (write_audit_log ev user action t before after d'))"
    and "snd (write_audit_log ev user action t before after d) = snd (write_audit_log ev user action t before after d')"
proof -
  obtain us where d': "d' = d\<lparr>t_admin_users := us\<rparr>" using without_hashes_eq(1) [OF assms] by blast
  have "fk_null us_id (t_admin_users d) x = fk_null us_id us x" for x
    using without_hashes_eq(2) [OF assms] by (cases x) (simp_all add: d')
  moreover have "map without_hash (t_admin_users d) = map without_hash us"
    using assms by (cases d) (simp add: without_hashes_def d')
  ultimately show "without_hashes (fst (write_audit_log ev user action t before after d))
      = without_hashes (fst (write_audit_log ev user action t before after d'))"
    and "snd (write_audit_log ev user action t before after d) = snd (write_audit_log ev user action t before after d')"
    by (simp_all add: write_audit_log_def Let_def audit_accepts_def d' without_hashes_def)
qed

lemma refresh_hashes:
  assumes "without_hashes d = without_hashes d'" "without_hash u = without_hash u'"
  shows "same_but_hashes (refresh_and_audit ev actor action before u d) (refresh_and_audit ev actor action before u' d')"
  using assms(1) write_audit_hashes [OF assms(1)] without_hash_eq [OF assms(2)]
  by (auto simp: refresh_and_audit_def same_but_hashes_def from_row_def split: prod.splits)
    (metis fst_conv snd_conv)+

lemma put_user_hashes:
  "without_hash u = without_hash u' \<Longrightarrow> without_hashes (put_user u d) = without_hashes (put_user u' d)"
  using without_hash_eq(1) [of u u'] by (simp add: without_hashes_def put_user_def tbl_update_def)

text \<open>Neither the answers nor the audit trail tell anything about a password: two updates of an
  account, and two creations, that differ only in the new password are answered alike and leave the
  same database but for the stored hashes, audit rows included. (bcrypt's hashes fit their column.)\<close>

lemma passwords_stay_secret:
  assumes "valid_password (Some p)" "valid_password (Some q)"
    and "\<And>x. length (bc_hashpw bc x (ev_salt ev)) \<le> 255"
  shows "same_but_hashes (update_user bc ev uid (b\<lparr>uu_password := Some p\<rparr>) actor d)
      (update_user bc ev uid (b\<lparr>uu_password := Some q\<rparr>) actor d)
    \<and> same_but_hashes (create_user bc ev (n\<lparr>uc_password := Some p\<rparr>) actor d)
      (create_user bc ev (n\<lparr>uc_password := Some q\<rparr>) actor d)"
proof -
  have h: "without_hash (merge_user bc s (b\<lparr>uu_password := Some p\<rparr>) u) = without_hash (merge_user bc s (b\<lparr>uu_password := Some q\<rparr>) u)"
    "without_hash (new_user bc ev (n\<lparr>uc_password := Some p\<rparr>)) = without_hash (new_user bc ev (n\<lparr>uc_password := Some q\<rparr>))" for s u
    by (simp_all add: without_hash_def merge_user_def new_user_def)
  have w: "user_widths (merge_user bc (ev_salt ev) (b\<lparr>uu_password := Some p\<rparr>) u) = user_widths (merge_user bc (ev_salt ev) (b\<lparr>uu_password := Some q\<rparr>) u)"
    "user_widths (new_user bc ev (n\<lparr>uc_password := Some p\<rparr>)) = user_widths (new_user bc ev (n\<lparr>uc_password := Some q\<rparr>))" for u
    using assms by (auto simp: user_widths_def merge_user_def new_user_def hash_password_def varchar_null_def varchar_def)
  have v: "valid_user_update (b\<lparr>uu_password := x\<rparr>) = valid_user_update b" for x by (simp add: valid_user_update_def)
  have refl: "same_but_hashes r r" for r by (simp add: same_but_hashes_def)
  have upd: "same_but_hashes (update_user bc ev uid (b\<lparr>uu_password := Some p\<rparr>) actor d)
      (update_user bc ev uid (b\<lparr>uu_password := Some q\<rparr>) actor d)"
    using assms(1,2) refresh_hashes [OF put_user_hashes [OF h(1)] h(1)]
    by (auto simp: update_user_def v w(1) Let_def refl split: option.splits sum.splits)
  have "without_hashes (d\<lparr>t_admin_users := t_admin_users d @ [new_user bc ev (n\<lparr>uc_password := Some p\<rparr>)]\<rparr>)
      = without_hashes (d\<lparr>t_admin_users := t_admin_users d @ [new_user bc ev (n\<lparr>uc_password := Some q\<rparr>)]\<rparr>)"
    using h(2) by (simp add: without_hashes_def)
  from refresh_hashes [OF this h(2)] have "same_but_hashes (create_user bc ev (n\<lparr>uc_password := Some p\<rparr>) actor d)
      (create_user bc ev (n\<lparr>uc_password := Some q\<rparr>) actor d)"
    using assms(1,2) without_hash_eq(1) [OF h(2)]
    by (auto simp: create_user_def w(2) Let_def refl split: option.splits sum.splits)
  with upd show ?thesis by blast
qed

lemma passwords_stay_secret_example:
  "same_but_hashes
     (update_user (demo_hash\<lparr>bc_hashpw := (\<lambda>p s. CHR 36 # take 60 p)\<rparr>) demo_env ''u1'' (demo_user_update ''secret123'') demo_root demo_admin_db)
     (update_user (demo_hash\<lparr>bc_hashpw := (\<lambda>p s. CHR 36 # take 60 p)\<rparr>) demo_env ''u1'' (demo_user_update ''another45'') demo_root demo_admin_db)"
  using passwords_stay_secret [of "''secret123''" "''another45''" "demo_hash\<lparr>bc_hashpw := (\<lambda>p s. CHR 36 # take 60 p)\<rparr>"
      demo_env "''u1''" "demo_user_update ''secret123''" demo_root demo_admin_db]
  by (simp add: valid_password_def demo_user_update_def)

end
