(* ===== verification/Platform.thy ===== *)
theory Platform
  imports Worker Gateway VoiceCall AdminApi
begin

text \<open>
  The services together. The platform's state is the gateway (with the API's database and Redis list
  it talks to), the integration service's log and the workers; its steps are the requests and
  failures of all of them, in any order: provider callbacks, media streams, gateway restarts, worker
  phases, reaps, and the writes of the dashboards. Only the gateway creates jobs.

  The first part relates a step of the platform to the worker system of \<^verbatim>\<open>Worker\<close>: whatever a request
  does, to the job queue it is one step or none. The second follows one provider event from the
  callback to the integration service, the third one call from its answer to its end.
\<close>

section \<open>The state and its steps\<close>

record platform =
  pf_gw :: gw_world
  pf_log :: "process_event_request list"
  pf_workers :: "worker_pc list"

text \<open>The system of workers inside the platform.\<close>

definition workers_of :: "platform \<Rightarrow> system" where
  "workers_of s =
     \<lparr>sys_world = \<lparr>api = gw_api (pf_gw s), processed = pf_log s\<rparr>, sys_workers = pf_workers s\<rparr>"

definition with_workers :: "platform \<Rightarrow> system \<Rightarrow> platform" where
  "with_workers s q =
     s\<lparr>pf_gw := (pf_gw s)\<lparr>gw_api := api (sys_world q)\<rparr>, pf_log := processed (sys_world q),
       pf_workers := sys_workers q\<rparr>"

definition on_platform_db :: "(database \<Rightarrow> database) \<Rightarrow> platform \<Rightarrow> platform" where
  "on_platform_db f s =
     s\<lparr>pf_gw := (pf_gw s)\<lparr>gw_api := (gw_api (pf_gw s))\<lparr>db := f (db (gw_api (pf_gw s)))\<rparr>\<rparr>\<rparr>"

text \<open>The writes of the signed-in users.\<close>

datatype user_request =
    Rq_admin request_env admin_op
  | Rq_call net datetime int string caller_request
  | Rq_save_customer datetime string customer_create
  | Rq_update_customer datetime string customer_update

fun user_write :: "bcrypt_lib \<Rightarrow> claims \<Rightarrow> user_request \<Rightarrow> database \<Rightarrow> database" where
  "user_write bc user (Rq_admin ev op) d = fst (admin_step bc ev user op d)"
| "user_write bc user (Rq_call n now i sid b) d =
     cp_db (fst (make_call n now i sid user b \<lparr>cp_db = d, cp_redis = None\<rparr>))"
| "user_write bc user (Rq_save_customer now uuid b) d = fst (create_or_update_customer now uuid b user d)"
| "user_write bc user (Rq_update_customer now i b) d = fst (update_customer now i b user d)"

record platform_config =
  pc_gateway :: gateway_tokens
  pc_worker :: tokens
  pc_bcrypt :: bcrypt_lib
  pc_turns :: turn_config
  pc_allow_unresolved :: bool

datatype platform_event =
    Pf_callback callback_env callback_request
  | Pf_stream bool ws_env ws_env string "(string option \<times> string) option" "(provider_env \<times> frame) list"
  | Pf_restart
  | Pf_phase nat phase
  | Pf_reap net datetime datetime
  | Pf_user claims user_request

definition stream ::
  "platform_config \<Rightarrow> bool \<Rightarrow> ws_env \<Rightarrow> ws_env \<Rightarrow> string \<Rightarrow> (string option \<times> string) option
     \<Rightarrow> (provider_env \<times> frame) list \<Rightarrow> gw_world \<Rightarrow> gw_world \<times> admission" where
  "stream c draining env env' cid handshake frames w =
     (case voice_websocket (pc_allow_unresolved c) draining (pc_turns c) env env' cid handshake frames
             (gw_sessions w) of
        (ss, a) \<Rightarrow> (w\<lparr>gw_sessions := ss\<rparr>, a))"

fun platform_step :: "platform_config \<Rightarrow> platform \<Rightarrow> platform_event \<Rightarrow> platform" where
  "platform_step c s (Pf_callback env q) =
     s\<lparr>pf_gw := fst (gateway_callback (pc_gateway c) env q (pf_gw s))\<rparr>"
| "platform_step c s (Pf_stream draining env env' cid handshake frames) =
     s\<lparr>pf_gw := fst (stream c draining env env' cid handshake frames (pf_gw s))\<rparr>"
| "platform_step c s Pf_restart = s\<lparr>pf_gw := gw_step (pc_gateway c) (pf_gw s) Gw_restart\<rparr>"
| "platform_step c s (Pf_phase i ph) =
     with_workers s (sys_step (pc_worker c) (workers_of s) (Ev_worker i ph))"
| "platform_step c s (Pf_reap n now pynow) =
     with_workers s (sys_step (pc_worker c) (workers_of s) (Ev_reap n now pynow))"
| "platform_step c s (Pf_user user r) = on_platform_db (user_write (pc_bcrypt c) user r) s"

section \<open>What a step does to the job queue\<close>

lemma workers_of_with [simp]: "workers_of (with_workers s q) = q"
  by (simp add: workers_of_def with_workers_def)

lemma gw_api_with [simp]: "gw_api (pf_gw (with_workers s q)) = api (sys_world q)"
  by (simp add: with_workers_def)

text \<open>The worker system reads nothing of the API but the job table.\<close>

lemma pc_ok_cong: "jobs_of s = jobs_of s' \<Longrightarrow> pc_ok \<lparr>api = s, processed = l\<rparr> pc = pc_ok \<lparr>api = s', processed = l\<rparr> pc"
  by (cases "(\<lparr>api = s, processed = l\<rparr>, pc)" rule: pc_ok.cases) (auto simp: tracks_def)

lemma sys_inv_cong:
  assumes "jobs_of s = jobs_of s'"
  shows "sys_inv \<lparr>sys_world = \<lparr>api = s, processed = l\<rparr>, sys_workers = ws\<rparr> =
    sys_inv \<lparr>sys_world = \<lparr>api = s', processed = l\<rparr>, sys_workers = ws\<rparr>"
  using assms pc_ok_cong [OF assms] by (simp add: sys_inv_def jobs_inv_def job_account_def)

text \<open>The administration touches clients, accounts and the audit trail; no dashboard touches jobs.\<close>

definition other_tables :: "database \<Rightarrow> customer list \<times> caller list \<times> call list \<times> call_job list" where
  "other_tables d = (t_customers d, t_call_requests d, t_calls d, t_call_jobs d)"

lemma other_tables_written [simp]:
  "other_tables (d\<lparr>t_clients := cs\<rparr>) = other_tables d" "other_tables (d\<lparr>t_admin_users := us\<rparr>) = other_tables d"
  "other_tables (fst (write_audit_log ev user action t before after d)) = other_tables d"
  "other_tables (put_client c d) = other_tables d" "other_tables (put_user u d) = other_tables d"
  by (simp_all add: other_tables_def write_audit_log_def Let_def put_client_def put_user_def)

lemmas admin_write_defs = insert_client_def modify_client_def deactivate_client_def create_client_def
  create_tenant_def update_client_def update_tenant_def delete_client_def delete_tenant_def
  create_user_def update_user_def delete_user_def refresh_and_audit_def

lemma admin_step_tables: "other_tables (fst (admin_step bc ev user op d)) = other_tables d"
  by (cases op) (simp_all add: admin_write_defs Let_def split: option.split sum.split list.split)

lemma admin_step_jobs: "t_call_jobs (fst (admin_step bc ev user op d)) = t_call_jobs d"
  using admin_step_tables [of bc ev user op d] by (simp add: other_tables_def)

lemma user_write_jobs: "t_call_jobs (user_write bc user r d) = t_call_jobs d"
  by (cases r)
    (simp_all add: admin_step_jobs make_call_def create_or_update_customer_def update_customer_def
      save_customer_def Let_def split: option.split sum.split list.split)

text \<open>A callback is to the job table the creation of its event, or nothing.\<close>

lemma record_job_step: "fst (record_job (redis, now, uuid, b) k s) = job_step s (Op_create redis now uuid (event_request b k))"
  by (simp split: prod.split sum.split)

definition callback_op :: "callback_env \<Rightarrow> exotel_callback \<Rightarrow> job_op" where
  "callback_op env p = Op_create (ce_wake env) (ce_now env) (ce_job_uuid env)
     (event_creation (xc_provider_call_id p) (py_lower (xc_event p)) (event_payload p))"

lemma http_record_step:
  "fst (http_record (record_env_of cfg env p) (event_key p) s) \<in> {s, job_step s (callback_op env p)}"
  using record_job_step [of "ce_wake env" "ce_now env" "ce_job_uuid env" "event_creation [] [] (event_payload p)" "event_key p" s]
  by (rule_tac http_record_cases [of "record_env_of cfg env p" "event_key p" s])
    (auto simp del: record_job.simps job_step.simps
      simp: record_env_of_def http_job_def event_key_def event_request_creation callback_op_def)

lemma callback_jobs:
  "gw_jobs (fst (gateway_callback cfg env q w)) = gw_jobs w
   \<or> (\<exists>p. parse_callback q = Some p \<and>
        gw_jobs (fst (gateway_callback cfg env q w)) = jobs_of (job_step (gw_api w) (callback_op env p)))"
proof -
  obtain w' r where r: "gateway_callback cfg env q w = (w', r)" by force
  from r show ?thesis
  proof (cases rule: gateway_callback_cases)
    case (recorded p s)
    with http_record_step [of cfg env p "gw_api w"] r show ?thesis by auto
  next
    case (fresh p s)
    have "gw_jobs w' = jobs_of s"
      using dispatch_jobs [of cfg env "ce_call_uuid env" "ce_py env" p "w\<lparr>gw_api := s\<rparr>"] fresh(3) by simp
    with fresh http_record_step [of cfg env p "gw_api w"] r show ?thesis by (auto simp del: job_step.simps)
  qed (use r in simp)
qed

section \<open>The invariant\<close>

text \<open>Every job came through the gateway: it has a provider event and the default limit.\<close>

definition from_gateway :: "call_job \<Rightarrow> bool" where
  "from_gateway j = (job_event_key j \<noteq> None \<and> job_max_attempts j = 5)"

definition platform_inv :: "platform \<Rightarrow> bool" where
  "platform_inv s =
     (sys_inv (workers_of s) \<and> (\<forall>jid j. job_at (gw_api (pf_gw s)) jid = Some j \<longrightarrow> from_gateway j))"

lemma row_step_from: "from_gateway (row_step j op) = from_gateway j"
  by (cases op)
    (auto simp: from_gateway_def job_event_key_def claim_row_def complete_row_def fail_row_def reap_row_def)

fun creates :: "job_op \<Rightarrow> bool" where
  "creates (Op_create redis now uuid b) = True"
| "creates _ = False"

lemma job_step_from:
  assumes "jobs_inv s" "\<And>jid j. job_at s jid = Some j \<Longrightarrow> from_gateway j" "\<not> creates op"
    and "job_at (job_step s op) jid = Some r"
  shows "from_gateway r"
proof (cases "job_at s jid")
  case (Some j)
  with job_step_row [OF assms(1) Some, of op] assms(2,4) show ?thesis by (auto simp: row_step_from)
next
  case None
  have "job_at (job_step s op) jid = None"
    by (rule non_create_ids [OF None]) (use assms(3) in auto)
  with assms(4) show ?thesis by simp
qed

lemma callback_from:
  assumes "\<And>jid j. job_at s jid = Some j \<Longrightarrow> from_gateway j"
    and "job_at (job_step s (callback_op env p)) jid = Some r"
  shows "from_gateway r"
proof -
  have "job_at s jid = Some r \<or> r = new_job (ce_now env) (ce_job_uuid env)
      (event_creation (xc_provider_call_id p) (py_lower (xc_event p)) (event_payload p))"
    using assms(2)
    by (auto simp: callback_op_def create_event_def Let_def split: if_splits option.splits)
  then show ?thesis
    using assms(1) by (auto simp: from_gateway_def new_job_def event_creation_def job_event_key_def)
qed

text \<open>A worker's phase, and a reap, is to the job table one request or none.\<close>

lemma report_step:
  "\<exists>op. \<not> creates op \<and> api (report_outcome cfg n now pynow j out w) \<in> {api w, job_step (api w) op}"
proof (cases out)
  case (Inl e)
  with jobs_fail_state [of cfg n now pynow "job_id j" "exc_str e" True "api w"] show ?thesis
    by (intro exI [of _ "Op_fail now pynow (job_id j) \<lparr>ef_error = exc_str e, ef_retry = True\<rparr>"])
      (simp add: report_outcome_def)
next
  case (Inr x)
  with jobs_complete_state [of cfg n now "job_id j" "api w"] show ?thesis
    by (intro exI [of _ "Op_complete now (job_id j)"]) (simp add: report_outcome_def)
qed

lemma phase_step:
  "\<exists>op. \<not> creates op \<and> api (snd (worker_phase cfg ph pc w)) \<in> {api w, job_step (api w) op}"
proof (cases "(cfg, ph, pc, w)" rule: worker_phase.cases)
  case (1 cfg' n now jid w')
  have "api (snd (worker_phase cfg ph pc w)) = fst (jobs_claim cfg n now jid (api w))"
    using 1 by (simp add: on_api_def split: prod.split sum.split option.split)
  with jobs_claim_state [of cfg n now jid "api w"] show ?thesis
    by (intro exI [of _ "Op_claim now jid"]) simp
next
  case (2 cfg' n j w')
  then show ?thesis
    by (intro exI [of _ "Op_claim 0 []"]) (simp add: on_log_def split: prod.split)
next
  case (3 cfg' n now pynow j out w')
  with report_step [of cfg n now pynow j out w] show ?thesis by simp
qed (auto intro: exI [of _ "Op_claim 0 []"])

lemma sys_step_job:
  assumes "\<And>redis now uuid b. ev \<noteq> Ev_create redis now uuid b"
  shows "\<exists>op. \<not> creates op \<and> api (sys_world (sys_step cfg q ev)) \<in> {api (sys_world q), job_step (api (sys_world q)) op}"
proof (cases ev)
  case (Ev_reap n now pynow)
  with jobs_reap_state [of cfg n now pynow "api (sys_world q)"] show ?thesis
    by (intro exI [of _ "Op_reap now pynow"]) simp
next
  case (Ev_worker i ph)
  with phase_step [of cfg ph "sys_workers q ! i" "sys_world q"] show ?thesis by (auto split: prod.split)
qed (use assms in blast)

lemma platform_gw_inv:
  assumes "platform_inv s" "gw_jobs w = gw_jobs (pf_gw s)"
  shows "platform_inv (s\<lparr>pf_gw := w\<rparr>)"
  using assms sys_inv_cong [OF assms(2), of "pf_log s" "pf_workers s"]
  by (simp add: platform_inv_def workers_of_def)

lemma platform_callback_inv:
  assumes "platform_inv s"
  shows "platform_inv (s\<lparr>pf_gw := fst (gateway_callback cfg env q (pf_gw s))\<rparr>)"
  using callback_jobs [of cfg env q "pf_gw s"]
proof
  assume "gw_jobs (fst (gateway_callback cfg env q (pf_gw s))) = gw_jobs (pf_gw s)"
  then show ?thesis by (rule platform_gw_inv [OF assms])
next
  let ?w = "fst (gateway_callback cfg env q (pf_gw s))"
  assume "\<exists>p. parse_callback q = Some p \<and> gw_jobs ?w = jobs_of (job_step (gw_api (pf_gw s)) (callback_op env p))"
  then obtain p where p: "gw_jobs ?w = jobs_of (job_step (gw_api (pf_gw s)) (callback_op env p))" by blast
  have "sys_inv ((workers_of s)\<lparr>sys_world := (sys_world (workers_of s))
      \<lparr>api := job_step (api (sys_world (workers_of s))) (callback_op env p)\<rparr>\<rparr>)"
    by (rule sys_inv_api_step) (use assms in \<open>simp_all add: platform_inv_def callback_op_def\<close>)
  then have "sys_inv (workers_of (s\<lparr>pf_gw := ?w\<rparr>))"
    using sys_inv_cong [OF p] by (simp add: workers_of_def del: job_step.simps)
  moreover have "from_gateway j" if "job_at (gw_api ?w) jid = Some j" for jid j
    using callback_from [of "gw_api (pf_gw s)" env p jid j] that assms
    by (simp add: p platform_inv_def del: job_step.simps)
  ultimately show ?thesis by (simp add: platform_inv_def)
qed

lemma platform_sys_inv:
  assumes "platform_inv s" "\<And>redis now uuid b. ev \<noteq> Ev_create redis now uuid b"
  shows "platform_inv (with_workers s (sys_step cfg (workers_of s) ev))"
proof -
  have inv: "sys_inv (workers_of s)" "jobs_inv (gw_api (pf_gw s))"
    using assms(1) by (simp_all add: platform_inv_def sys_inv_def workers_of_def)
  obtain op where op: "\<not> creates op" "api (sys_world (sys_step cfg (workers_of s) ev)) \<in>
      {gw_api (pf_gw s), job_step (gw_api (pf_gw s)) op}"
    using sys_step_job [OF assms(2), of cfg "workers_of s"] by (auto simp: workers_of_def)
  have "from_gateway j" if "job_at (api (sys_world (sys_step cfg (workers_of s) ev))) jid = Some j" for jid j
    using op(2) that assms(1) job_step_from [OF inv(2) _ op(1), of jid j] by (auto simp: platform_inv_def)
  with sys_step_inv [OF inv(1), of cfg ev] show ?thesis
    by (simp add: platform_inv_def)
qed

lemma platform_step_inv: "platform_inv s \<Longrightarrow> platform_inv (platform_step c s ev)"
  by (cases ev)
    (auto intro!: platform_callback_inv platform_gw_inv platform_sys_inv
      simp: stream_def on_platform_db_def user_write_jobs simp del: sys_step.simps split: prod.split)

interpretation platform_runs: machine "platform_step c" platform_inv for c
  by unfold_locales (rule platform_step_inv)

section \<open>The whole database\<close>

text \<open>
  Every table at once: keys, foreign keys, checks and widths, and the life cycle of the calls. The
  lemmas say what a change of one table has to respect.
\<close>

definition database_ok :: "database \<Rightarrow> bool" where
  "database_ok d = (accounts_ok d \<and> calls_inv d \<and> (\<forall>c \<in> set (t_customers d). customer_widths c))"

lemma database_ok_jobs:
  assumes "database_ok d" "distinct (map job_id js)" "unique_event js"
    and "\<forall>j \<in> set js. fk_null call_id (t_calls d) (job_call_id j)"
  shows "database_ok (d\<lparr>t_call_jobs := js\<rparr>)"
  using assms by (simp add: database_ok_def accounts_ok_def schema_ok_def calls_inv_def)

lemma database_ok_calls:
  assumes "database_ok d" "calls_inv (d\<lparr>t_calls := cs\<rparr>)" "call_id ` set (t_calls d) \<subseteq> call_id ` set cs"
  shows "database_ok (d\<lparr>t_calls := cs\<rparr>)"
  using assms fk_null_mono [OF assms(3)]
  by (simp add: database_ok_def accounts_ok_def schema_ok_def calls_inv_def)

lemma database_ok_create_call: "database_ok d \<Longrightarrow> database_ok (fst (create_call now b d))"
proof -
  assume ok: "database_ok d"
  have inv: "calls_inv (fst (create_call now b d))"
    using call_step_inv [of d "Op_create_call now b"] ok by (simp add: database_ok_def)
  have cs: "fst (create_call now b d) = d\<lparr>t_calls := t_calls (fst (create_call now b d))\<rparr>"
    "set (t_calls d) \<subseteq> set (t_calls (fst (create_call now b d)))"
    by (auto simp: create_call_def create_call_racing_def Let_def split: option.split)
  show ?thesis
    by (subst cs(1)) (rule database_ok_calls, use ok inv cs in auto)
qed

lemma database_ok_finalize_call: "database_ok d \<Longrightarrow> database_ok (fst (finalize_call cid b d))"
proof -
  assume ok: "database_ok d"
  have inv: "calls_inv (fst (finalize_call cid b d))"
    using call_step_inv [of d "Op_finalize_call cid b"] ok by (simp add: database_ok_def)
  have cs: "fst (finalize_call cid b d) = d\<lparr>t_calls := t_calls (fst (finalize_call cid b d))\<rparr>"
    "call_id ` set (t_calls (fst (finalize_call cid b d))) = call_id ` set (t_calls d)"
    by (auto simp: finalize_call_def finalize_call_racing_def finalize_upd.keys_update split: option.split)
  show ?thesis
    by (subst cs(1)) (rule database_ok_calls, use ok inv cs in auto)
qed

lemma job_step_db: "db (job_step s op) = (db s)\<lparr>t_call_jobs := jobs_of (job_step s op)\<rparr>"
  by (cases op)
    (auto simp: create_event_def claim_event_def complete_event_def complete_event_racing_def fail_event_def
      fail_event_racing_def reap_stale_jobs_def Let_def split: option.split list.split)

lemma row_step_call: "job_call_id (row_step j op) = job_call_id j"
  using arg_cong [OF job_request_row [of j op], of pe_call_id] by (simp add: job_request_def)

lemma database_ok_job_step:
  assumes "database_ok (db s)" "jobs_inv s"
  shows "database_ok (db (job_step s op))"
proof -
  have inv: "jobs_inv (job_step s op)" by (rule job_step_inv [OF assms(2)])
  have fk: "\<forall>j \<in> set (jobs_of s). fk_null call_id (t_calls (db s)) (job_call_id j)"
    using assms(1) by (simp add: database_ok_def accounts_ok_def schema_ok_def)
  have "fk_null call_id (t_calls (db s)) (job_call_id r)" if r: "r \<in> set (jobs_of (job_step s op))" for r
  proof (cases "creates op")
    case True
    with r fk show ?thesis
      by (cases op) (auto simp: create_event_def Let_def job_integrity_error_def split: if_splits)
  next
    case False
    have at: "job_at (job_step s op) (job_id r) = Some r"
      using r inv by (simp add: jobs_inv_def tbl_get_eq_Some_iff)
    have "job_at s (job_id r) \<noteq> None"
      using non_create_ids [of s "job_id r" op] at False by (cases op) auto
    then obtain j where j: "job_at s (job_id r) = Some j" by blast
    with job_step_row [OF assms(2) j, of op] at fk show ?thesis
      by (auto simp: row_step_call dest: tbl_get_SomeD)
  qed
  then show ?thesis
    using database_ok_jobs [OF assms(1), of "jobs_of (job_step s op)"] inv job_step_db [of s op]
    by (simp add: jobs_inv_def)
qed

lemma database_ok_admin: "database_ok d \<Longrightarrow> database_ok (fst (admin_step bc ev user op d))"
  using admin.step_inv [of d bc "(ev, user, op)"] admin_step_tables [of bc ev user op d]
  by (simp add: database_ok_def admin_request_def other_tables_def calls_inv_def)

lemma database_ok_make_call:
  "database_ok d \<Longrightarrow> database_ok (cp_db (fst (make_call n now i sid user b \<lparr>cp_db = d, cp_redis = r\<rparr>)))"
  by (auto simp: make_call_def Let_def database_ok_def accounts_ok_def schema_ok_def calls_inv_def new_caller_def
      split: option.split)

text \<open>A customer row that is written has its own keys, a client that exists, and fitting values.\<close>

lemma database_ok_customers:
  assumes "database_ok d" "customers_ok (d\<lparr>t_customers := cs\<rparr>)"
    and "\<forall>c \<in> set cs. customer_widths c \<and> tbl_get cl_id (t_clients d) (cu_client_id c) \<noteq> None"
  shows "database_ok (d\<lparr>t_customers := cs\<rparr>)"
  using assms by (simp add: database_ok_def accounts_ok_def schema_ok_def calls_inv_def customers_ok_def)

lemma database_ok_save:
  assumes "database_ok d" "c \<in> set (t_customers d)"
  shows "database_ok (fst (save_customer (touch_customer now b c) d))"
proof (cases "customer_widths (touch_customer now b c)")
  case True
  let ?c = "touch_customer now b c"
  have ok: "customers_ok d" using assms(1) by (simp add: database_ok_def accounts_ok_def schema_ok_def customers_ok_def)
  obtain d' where d': "save_customer ?c d = (d', Inr ?c)" using True by (simp add: save_customer_def)
  note sv = save_customer_ok [OF ok assms(2) d']
  have "\<forall>x \<in> set (t_customers d'). customer_widths x \<and> tbl_get cl_id (t_clients d) (cu_client_id x) \<noteq> None"
    using sv assms by (auto simp: database_ok_def accounts_ok_def schema_ok_def)
  with database_ok_customers [OF assms(1), of "t_customers d'"] sv d' show ?thesis by (metis fst_conv)
qed (use assms(1) in \<open>simp add: save_customer_def\<close>)

lemma view_customers: "set (t_customers (tenant_view user d)) \<subseteq> set (t_customers d)"
  by (auto simp: tenant_view_def rls_view_def)

lemma database_ok_upsert:
  assumes "database_ok d"
  shows "database_ok (fst (create_or_update_customer now uuid b user d))"
proof (cases "require_client user")
  case (Inr k)
  let ?hits = "filter (\<lambda>c. cu_client_id c = k \<and> cu_phone c = cw_phone b) (t_customers (tenant_view user d))"
  consider (new) "?hits = []" | (old) e where "?hits = [e]" | (more) x y zs where "?hits = x # y # zs"
    by (metis list.exhaust)
  then show ?thesis
  proof cases
    case new
    let ?c = "new_customer now uuid k b"
    have "database_ok (d\<lparr>t_customers := t_customers d @ [?c]\<rparr>)"
      if "customer_widths ?c" "uuid \<notin> cu_id ` set (t_customers d)" "customer_key ?c \<notin> customer_key ` set (t_customers d)"
        "tbl_get cl_id (t_clients d) k \<noteq> None"
      using assms that
      by (auto simp: database_ok_def accounts_ok_def schema_ok_def calls_inv_def new_customer_def)
    with new Inr assms show ?thesis by (simp add: create_or_update_customer_def Let_def)
  next
    case (old e)
    then have "e \<in> set ?hits" by simp
    then have "e \<in> set (t_customers d)" using view_customers [of user d] by auto
    with old Inr database_ok_save [OF assms] show ?thesis by (simp add: create_or_update_customer_def)
  next
    case more
    with Inr assms show ?thesis by (simp add: create_or_update_customer_def)
  qed
qed (use assms in \<open>simp add: create_or_update_customer_def\<close>)

lemma database_ok_update:
  assumes "database_ok d"
  shows "database_ok (fst (update_customer now i b user d))"
proof (cases "get_customer i user d")
  case (Inr c)
  then have "c \<in> set (t_customers d)"
    using view_customers [of user d] by (auto simp: get_customer_def split: sum.splits option.splits if_splits dest: tbl_get_SomeD)
  with Inr database_ok_save [OF assms] show ?thesis by (simp add: update_customer_def)
qed (use assms in \<open>simp add: update_customer_def\<close>)

lemma database_ok_user: "database_ok d \<Longrightarrow> database_ok (user_write bc user r d)"
  by (cases r) (simp_all add: database_ok_admin database_ok_make_call database_ok_upsert database_ok_update)

lemma database_ok_callback:
  assumes "database_ok (db (gw_api w))" "jobs_inv (gw_api w)"
  shows "database_ok (db (gw_api (fst (gateway_callback cfg env q w))))"
proof -
  obtain w' r where r: "gateway_callback cfg env q w = (w', r)" by force
  have rec: "database_ok (db (fst (http_record (record_env_of cfg env p) (event_key p) (gw_api w))))" for p
    using http_record_step [of cfg env p "gw_api w"] database_ok_job_step [OF assms, of "callback_op env p"] assms(1)
    by (auto simp del: job_step.simps)
  from r show ?thesis
  proof (cases rule: gateway_callback_cases)
    case (recorded p s)
    with rec [of p] r show ?thesis by simp
  next
    case (fresh p s)
    have "database_ok (db (gw_api (fst (dispatch_event (production_deps cfg env) (ce_call_uuid env) (ce_py env) p
        (w\<lparr>gw_api := s\<rparr>)))))"
      by (rule dispatch_preserves [where P = "\<lambda>s. database_ok (db s)"])
        (use rec [of p] fresh in \<open>simp_all add: calls_client_db database_ok_create_call database_ok_finalize_call\<close>)
    with fresh r show ?thesis by simp
  qed (use r assms in simp)
qed

definition consistent :: "platform \<Rightarrow> bool" where
  "consistent s = (platform_inv s \<and> database_ok (db (gw_api (pf_gw s))))"

lemma platform_step_consistent:
  assumes "consistent s"
  shows "consistent (platform_step c s ev)"
proof -
  have inv: "platform_inv s" "sys_inv (workers_of s)" "jobs_inv (gw_api (pf_gw s))" "database_ok (db (gw_api (pf_gw s)))"
    using assms by (simp_all add: consistent_def platform_inv_def sys_inv_def workers_of_def)
  have sys: "database_ok (db (api (sys_world (sys_step (pc_worker c) (workers_of s) e))))"
    if "\<And>redis now uuid b. e \<noteq> Ev_create redis now uuid b" for e
    using sys_step_job [OF that, of "pc_worker c" "workers_of s"] inv(4) database_ok_job_step [OF inv(4,3)]
    by (auto simp: workers_of_def simp del: job_step.simps)
  have "database_ok (db (gw_api (pf_gw (platform_step c s ev))))"
    using inv sys
    by (cases ev)
      (auto simp: database_ok_callback database_ok_user stream_def on_platform_db_def simp del: sys_step.simps split: prod.split)
  then show ?thesis using platform_step_inv [OF inv(1)] by (simp add: consistent_def)
qed

interpretation consistent_runs: machine "platform_step c" consistent for c
  by unfold_locales (rule platform_step_consistent)

section \<open>How often an event is performed\<close>

definition event_executions :: "platform \<Rightarrow> string \<times> string \<Rightarrow> nat" where
  "event_executions s k =
     length (filter (\<lambda>b. case job_at (gw_api (pf_gw s)) (pe_job_id b) of None \<Rightarrow> False
                       | Some j \<Rightarrow> job_event_key j = Some k) (pf_log s))"

text \<open>One event has one job, so its executions are the executions of that job.\<close>

lemma event_executions_job:
  assumes "jobs_inv (gw_api (pf_gw s))" "job_at (gw_api (pf_gw s)) jid = Some j" "job_event_key j = Some k"
  shows "event_executions s k = executions (pf_log s) jid"
proof -
  have "(case job_at (gw_api (pf_gw s)) i of None \<Rightarrow> False | Some r \<Rightarrow> job_event_key r = Some k) = (i = jid)" for i
  proof (cases "job_at (gw_api (pf_gw s)) i")
    case (Some r)
    have "r = j" if "job_event_key r = Some k"
      using assms Some that unique_eventD [of "gw_jobs (pf_gw s)" r j k]
      by (auto simp: jobs_inv_def dest: tbl_get_SomeD)
    then show ?thesis using Some assms(2,3) by (auto dest: tbl_get_SomeD)
  qed (use assms(2) in auto)
  then show ?thesis by (simp add: event_executions_def executions_def)
qed

lemma platform_executions:
  assumes "platform_inv s"
  shows "event_executions s k \<le> 5"
proof (cases "\<exists>jid j. job_at (gw_api (pf_gw s)) jid = Some j \<and> job_event_key j = Some k")
  case True
  then obtain jid j where j: "job_at (gw_api (pf_gw s)) jid = Some j" "job_event_key j = Some k" by blast
  have inv: "jobs_inv (gw_api (pf_gw s))" and acc: "job_account (sys_world (workers_of s)) (pf_workers s) j"
    using assms j(1) by (auto simp: platform_inv_def sys_inv_def workers_of_def)
  have "job_attempts j \<le> 5"
    using job_at_ok [OF inv j(1)] assms j(1) by (auto simp: job_ok_def platform_inv_def from_gateway_def)
  moreover have "job_id j = jid" using j(1) by (auto dest: tbl_get_SomeD)
  ultimately show ?thesis
    using acc event_executions_job [OF inv j] by (simp add: job_account_def workers_of_def)
next
  case False
  then have "event_executions s k = 0"
    by (auto simp: event_executions_def filter_empty_conv split: option.splits)
  then show ?thesis by simp
qed

section \<open>From the callback to the integration service\<close>

text \<open>The job a newly recorded callback leaves: queued, available at once, the last of the table.\<close>

definition callback_job :: "callback_env \<Rightarrow> exotel_callback \<Rightarrow> call_job" where
  "callback_job env p = new_job (ce_now env) (ce_job_uuid env)
     (event_creation (xc_provider_call_id p) (py_lower (xc_event p)) (event_payload p))"

lemma record_job_new:
  assumes "record_job (redis, now, uuid, b) k s = (s', Some False)"
  shows "jobs_of s' = jobs_of s @ [new_job now uuid (event_request b k)]
    \<and> wake_queue s' = notify_worker redis uuid (wake_queue s)
    \<and> uuid \<notin> job_id ` set (jobs_of s)"
  using assms
  by (auto simp: create_event_def Let_def job_integrity_error_def new_job_def split: if_splits option.splits)

lemma http_record_new:
  assumes "http_record (record_env_of cfg env p) (event_key p) s = (s', Some False)"
  shows "jobs_of s' = jobs_of s @ [callback_job env p]
    \<and> wake_queue s' = notify_worker (ce_wake env) (ce_job_uuid env) (wake_queue s)
    \<and> ce_job_uuid env \<notin> job_id ` set (jobs_of s)"
proof -
  have "record_job (http_job (record_env_of cfg env p)) (event_key p) s = (s', Some False)"
    by (rule http_record_cases [of "record_env_of cfg env p" "event_key p" s])
      (use assms in \<open>simp_all del: record_job.simps\<close>)
  then have "record_job (ce_wake env, ce_now env, ce_job_uuid env, event_creation [] [] (event_payload p)) (event_key p) s
      = (s', Some False)"
    by (simp only: http_job_def record_env_of_def prod.case)
  from record_job_new [OF this] show ?thesis
    by (simp add: event_key_def event_request_creation callback_job_def)
qed

lemma callback_job_simps:
  "job_id (callback_job env p) = ce_job_uuid env" "job_status (callback_job env p) = Queued"
  "job_available_at (callback_job env p) = ce_now env" "job_event_key (callback_job env p) = Some (event_key p)"
  by (simp_all add: callback_job_def new_job_def event_creation_def job_event_key_def event_key_def)

text \<open>Nothing a callback carries makes the integration service refuse it, but a blank event name.\<close>

lemma callback_job_acceptable:
  "py_strip (py_lower (xc_event p)) \<noteq> [] \<Longrightarrow> acceptable (job_request (callback_job env p))"
  by (simp add: acceptable_def force_failure_def job_request_def callback_job_def new_job_def event_creation_def
      event_payload_def dict_get_def)

lemma fresh_callback_job:
  assumes "verify_webhook_token (gt_webhook_token cfg) q = Inr ()" "parse_callback q = Some p"
    and "http_record (record_env_of cfg env p) (event_key p) (gw_api w) = (s, Some False)"
  shows "gw_jobs (fst (gateway_callback cfg env q w)) = gw_jobs w @ [callback_job env p]"
    and "wake_queue (gw_api (fst (gateway_callback cfg env q w))) =
      notify_worker (ce_wake env) (ce_job_uuid env) (wake_queue (gw_api w))"
    and "job_at (gw_api (fst (gateway_callback cfg env q w))) (ce_job_uuid env) = Some (callback_job env p)"
proof -
  note new = http_record_new [OF assms(3)]
  show jobs: "gw_jobs (fst (gateway_callback cfg env q w)) = gw_jobs w @ [callback_job env p]"
    using gateway_callback_fresh [OF assms] new
      dispatch_jobs [of cfg env "ce_call_uuid env" "ce_py env" p "w\<lparr>gw_api := s\<rparr>"] by simp
  show "wake_queue (gw_api (fst (gateway_callback cfg env q w))) =
      notify_worker (ce_wake env) (ce_job_uuid env) (wake_queue (gw_api w))"
    using gateway_callback_fresh [OF assms] new
      dispatch_queue [of cfg env "ce_call_uuid env" "ce_py env" p "w\<lparr>gw_api := s\<rparr>"] by simp
  have "job_at (gw_api w) (ce_job_uuid env) = None"
    using new by (simp add: tbl_get_None_iff)
  then show "job_at (gw_api (fst (gateway_callback cfg env q w))) (ce_job_uuid env) = Some (callback_job env p)"
    by (simp add: jobs callback_job_simps)
qed

section \<open>A media stream and the call store\<close>

text \<open>The stream of a call works on its session only: the API and the provider identifiers stay.\<close>

lemma store_get_view:
  assumes "provider_view ss = provider_view (gw_sessions w)"
  shows "gw_store_get u p (w\<lparr>gw_sessions := ss\<rparr>) = gw_store_get u p w"
  using assms
  by (cases "ss_redis ss"; cases "ss_redis (gw_sessions w)")
    (auto simp: provider_view_def gw_store_get_def redis_store_get_def redis_read_def redis_get_def dest: fun_cong [of _ _ p])

lemma fst_stream:
  "fst (stream c draining env env' cid handshake frames w) =
     w\<lparr>gw_sessions := fst (voice_websocket (pc_allow_unresolved c) draining (pc_turns c) env env' cid handshake frames
        (gw_sessions w))\<rparr>"
  by (simp add: stream_def split: prod.split)

lemma stream_keeps:
  "gw_api (fst (stream c draining env env' cid handshake frames w)) = gw_api w"
  "gw_store_get u p (fst (stream c draining env env' cid handshake frames w)) = gw_store_get u p w"
  by (simp_all add: fst_stream store_get_view provider_ids.view_stream)

lemma stream_known:
  assumes "ss_mem (gw_sessions w) cid = Some d"
  shows "snd (stream c False env env' cid handshake frames w) = Ws_accept
    \<and> ss_mem (gw_sessions (fst (stream c False env env' cid handshake frames w))) cid = None"
  using stream_of_known_call [OF assms] by (simp add: stream_def)

section \<open>Properties\<close>


definition platform_start :: "nat \<Rightarrow> platform" where
  "platform_start n = \<lparr>pf_gw = demo_gw, pf_log = [], pf_workers = replicate n Idle\<rparr>"

definition demo_platform :: platform_config where
  "demo_platform =
     \<lparr>pc_gateway = demo_gw_tokens, pc_worker = demo_tokens, pc_bcrypt = demo_bcrypt, pc_turns = demo_turn_config,
      pc_allow_unresolved = False\<rparr>"

definition demo_run :: "platform_event list" where
  "demo_run =
     [Pf_callback (Gateway.demo_env Delivered) (demo_query ''answered'' ''x''), Pf_restart,
      Pf_callback (Gateway.demo_env Delivered) (demo_query ''Answered'' ''x''),
      Pf_phase 0 (Ph_claim Delivered 60 ''j1''), Pf_phase 0 (Ph_process Delivered),
      Pf_phase 0 (Ph_report RequestLost 61 61), Pf_reap Delivered (seconds 200) (seconds 200),
      Pf_phase 1 (Ph_claim Delivered (seconds 200) ''j1''), Pf_phase 1 (Ph_process Delivered)]"

lemma platform_start_inv: "platform_inv (platform_start n)"
  using demo_gw_inv
  by (auto simp: platform_inv_def platform_start_def sys_inv_def workers_of_def demo_gw_def empty_database_def)



lemma platform_start_ok: "database_ok (db (gw_api (pf_gw (platform_start n))))"
  by (simp add: database_ok_def accounts_ok_def schema_ok_def calls_inv_def platform_start_def demo_gw_def
      empty_database_def unique_slugs_def unique_event_def List.map_filter_def)



definition demo_wakeup :: iteration where
  "demo_wakeup = demo_iteration\<lparr>it_blpop := Blpop_answers, it_list_now := 50,
     it_cycle := (\<lambda>k. (False, demo_cycle Delivered 70))\<rparr>"



definition demo_ws :: ws_env where
  "demo_ws = \<lparr>we_now = 70, we_get = Delivered, we_set = Delivered, we_del = Delivered\<rparr>"


end
