(* ===== verification/Routes.thy ===== *)
theory Routes
  imports Prelude
begin

text \<open>
  The HTTP surface of the API (\<^verbatim>\<open>services/api\<close>): the paths its decorators declare, the prefixes of its
  four routers and the order \<^verbatim>\<open>main.py\<close> includes them in, and the choice of a route for a request. A
  path is taken as the server sees it, decoded and without its query. The framework's own
  documentation pages are not part of the table.
\<close>

section \<open>Choosing a route\<close>

datatype segment = Lit string | Param

text \<open>A decorator's path: segments between slashes, those in braces are parameters.\<close>

definition compile_path :: "string \<Rightarrow> segment list" where
  "compile_path p = map (\<lambda>s. if s \<noteq> [] \<and> hd s = CHR 123 then Param else Lit s) (py_split CHR 47 p)"

text \<open>
  The parameters with which a path matches. A parameter is one non-empty segment. The expression the
  framework compiles ends in a dollar sign, which also accepts one newline at the end.
\<close>

fun match_segments :: "segment list \<Rightarrow> string list \<Rightarrow> string list option" where
  "match_segments [] [] = Some []"
| "match_segments (Lit l # ps) (s # ss) =
     (if s = l \<or> ps = [] \<and> ss = [] \<and> s = l @ [CHR 10] then match_segments ps ss else None)"
| "match_segments (Param # ps) (s # ss) = (if s = [] then None else map_option ((#) s) (match_segments ps ss))"
| "match_segments _ _ = None"

record 'e route =
  ro_method :: http_method
  ro_path :: string
  ro_endpoint :: 'e

definition match_path :: "string \<Rightarrow> 'e route \<Rightarrow> string list option" where
  "match_path path r = match_segments (compile_path (ro_path r)) (py_split CHR 47 path)"

datatype 'e routing = Found 'e "string list" | Method_not_allowed | Slash_redirect | Not_found

text \<open>The other spelling of a path that does not match: without its last slashes, or with one more.\<close>

definition other_slash :: "string \<Rightarrow> string" where
  "other_slash path =
     (if path \<noteq> [] \<and> last path = CHR 47 then rev (dropWhile (\<lambda>c. c = CHR 47) (rev path)) else path @ [CHR 47])"

text \<open>
  The router: the first route whose path and method both match; else 405 if some path matches; else
  a redirect if the other spelling has a match; else 404.
\<close>

definition dispatch :: "'e route list \<Rightarrow> http_method \<Rightarrow> string \<Rightarrow> 'e routing" where
  "dispatch routes m path =
     (case List.find (\<lambda>r. ro_method r = m \<and> match_path path r \<noteq> None) routes of
        Some r \<Rightarrow> Found (ro_endpoint r) (the (match_path path r))
      | None \<Rightarrow>
          if \<exists>r \<in> set routes. match_path path r \<noteq> None then Method_not_allowed
          else if path \<noteq> ''/'' \<and> (\<exists>r \<in> set routes. match_path (other_slash path) r \<noteq> None) then Slash_redirect
          else Not_found)"

definition include_router :: "string \<Rightarrow> ('e \<Rightarrow> 'f) \<Rightarrow> 'e route list \<Rightarrow> 'f route list" where
  "include_router prefix f routes =
     map (\<lambda>r. \<lparr>ro_method = ro_method r, ro_path = prefix @ ro_path r, ro_endpoint = f (ro_endpoint r)\<rparr>) routes"

section \<open>The routes of the API\<close>

datatype admin_endpoint =
    Ep_create_client | Ep_list_clients | Ep_get_client | Ep_update_client | Ep_delete_client | Ep_get_client_stats
  | Ep_create_user | Ep_list_users | Ep_get_user | Ep_update_user | Ep_delete_user
  | Ep_list_calls | Ep_get_call
  | Ep_create_tenant | Ep_list_tenants | Ep_get_tenant | Ep_update_tenant | Ep_delete_tenant | Ep_get_tenant_stats
  | Ep_list_audit_logs

datatype client_endpoint =
    Ep_get_my_profile | Ep_list_my_calls | Ep_get_my_call | Ep_get_analytics | Ep_list_my_users | Ep_get_my_user
  | Ep_list_phone_numbers | Ep_list_customers | Ep_get_customer | Ep_save_customer | Ep_update_customer

datatype internal_endpoint =
    Ep_create_call | Ep_get_call_state | Ep_finalize_call | Ep_get_phone_route
  | Ep_create_event | Ep_list_events | Ep_get_event | Ep_claim_event | Ep_complete_event | Ep_fail_event | Ep_reap

datatype main_endpoint =
    Ep_health | Ep_metrics | Ep_root | Ep_keepalive | Ep_login | Ep_refresh | Ep_logout | Ep_me | Ep_make_call

datatype api_endpoint =
    Admin_ep admin_endpoint | Client_ep client_endpoint | Internal_ep internal_endpoint | Main_ep main_endpoint

abbreviation at_route :: "http_method \<Rightarrow> string \<Rightarrow> 'e \<Rightarrow> 'e route" where
  "at_route m p e \<equiv> \<lparr>ro_method = m, ro_path = p, ro_endpoint = e\<rparr>"

definition admin_router :: "admin_endpoint route list" where
  "admin_router =
     [at_route POST ''/clients'' Ep_create_client, at_route GET ''/clients'' Ep_list_clients,
      at_route GET ''/clients/{client_id}'' Ep_get_client, at_route PUT ''/clients/{client_id}'' Ep_update_client,
      at_route DELETE ''/clients/{client_id}'' Ep_delete_client,
      at_route GET ''/clients/{client_id}/stats'' Ep_get_client_stats,
      at_route POST ''/users'' Ep_create_user, at_route GET ''/users'' Ep_list_users,
      at_route GET ''/users/{user_id}'' Ep_get_user, at_route PUT ''/users/{user_id}'' Ep_update_user,
      at_route DELETE ''/users/{user_id}'' Ep_delete_user,
      at_route GET ''/calls'' Ep_list_calls, at_route GET ''/calls/{call_id}'' Ep_get_call,
      at_route POST ''/tenants'' Ep_create_tenant, at_route GET ''/tenants'' Ep_list_tenants,
      at_route GET ''/tenants/{tenant_id}'' Ep_get_tenant, at_route PUT ''/tenants/{tenant_id}'' Ep_update_tenant,
      at_route DELETE ''/tenants/{tenant_id}'' Ep_delete_tenant,
      at_route GET ''/tenants/{tenant_id}/stats'' Ep_get_tenant_stats,
      at_route GET ''/audit-logs'' Ep_list_audit_logs]"

definition client_router :: "client_endpoint route list" where
  "client_router =
     [at_route GET ''/me'' Ep_get_my_profile, at_route GET ''/calls'' Ep_list_my_calls,
      at_route GET ''/calls/{call_id}'' Ep_get_my_call, at_route GET ''/analytics'' Ep_get_analytics,
      at_route GET ''/users'' Ep_list_my_users, at_route GET ''/users/{user_id}'' Ep_get_my_user,
      at_route GET ''/phone-numbers'' Ep_list_phone_numbers, at_route GET ''/customers'' Ep_list_customers,
      at_route GET ''/customers/{customer_id}'' Ep_get_customer, at_route POST ''/customers'' Ep_save_customer,
      at_route PUT ''/customers/{customer_id}'' Ep_update_customer]"

definition internal_router :: "internal_endpoint route list" where
  "internal_router =
     [at_route POST ''/calls'' Ep_create_call, at_route GET ''/calls/{call_id}'' Ep_get_call_state,
      at_route POST ''/calls/{call_id}/finalize'' Ep_finalize_call,
      at_route GET ''/phone-routes/{number}'' Ep_get_phone_route]"

definition jobs_router :: "internal_endpoint route list" where
  "jobs_router =
     [at_route POST [] Ep_create_event, at_route GET [] Ep_list_events, at_route GET ''/{job_id}'' Ep_get_event,
      at_route POST ''/{job_id}/claim'' Ep_claim_event, at_route POST ''/{job_id}/complete'' Ep_complete_event,
      at_route POST ''/{job_id}/fail'' Ep_fail_event, at_route POST ''/reap'' Ep_reap]"

definition main_routes :: "main_endpoint route list" where
  "main_routes =
     [at_route GET ''/health'' Ep_health, at_route GET ''/metrics'' Ep_metrics, at_route GET ''/'' Ep_root,
      at_route GET ''/keepalive'' Ep_keepalive, at_route POST ''/auth/login'' Ep_login,
      at_route POST ''/auth/refresh'' Ep_refresh, at_route POST ''/auth/logout'' Ep_logout,
      at_route GET ''/auth/me'' Ep_me, at_route POST ''/call'' Ep_make_call]"

text \<open>The routers are included before the application's own routes are declared.\<close>

definition api_routes :: "api_endpoint route list" where
  "api_routes =
     include_router ''/admin'' Admin_ep admin_router @ include_router ''/client'' Client_ep client_router
     @ include_router ''/internal/v1'' Internal_ep internal_router
     @ include_router ''/internal/v1/events'' Internal_ep jobs_router @ include_router [] Main_ep main_routes"

text \<open>
  The routes of the other two services; \<open>callback\<close> is declared for two methods. (The gateway's
  WebSocket route takes no HTTP request.)
\<close>

datatype gateway_endpoint = Ep_gateway_health | Ep_gateway_root | Ep_callback

definition gateway_routes :: "gateway_endpoint route list" where
  "gateway_routes =
     [at_route GET ''/health'' Ep_gateway_health, at_route GET ''/'' Ep_gateway_root,
      at_route GET ''/telephony/exotel/callback'' Ep_callback, at_route POST ''/telephony/exotel/callback'' Ep_callback]"

datatype integration_endpoint = Ep_integration_health | Ep_integration_root | Ep_process

definition integration_routes :: "integration_endpoint route list" where
  "integration_routes =
     [at_route GET ''/health'' Ep_integration_health, at_route GET ''/'' Ep_integration_root, at_route POST ''/internal/v1/process'' Ep_process]"

section \<open>Who may call a route\<close>

text \<open>
  The dependency that authenticates a request: \<open>get_current_user\<close> (directly or through
  \<open>get_tenant_scoped_db\<close>), \<open>verify_internal_token\<close> of the two internal routers, or none.
\<close>

datatype guard = Public | Bearer | Internal_token

fun guard_of :: "api_endpoint \<Rightarrow> guard" where
  "guard_of (Admin_ep _) = Bearer"
| "guard_of (Client_ep _) = Bearer"
| "guard_of (Internal_ep _) = Internal_token"
| "guard_of (Main_ep e) = (if e \<in> set [Ep_metrics, Ep_logout, Ep_me, Ep_make_call] then Bearer else Public)"

section \<open>The order of the routes does not matter\<close>

text \<open>Whether some path could match both patterns, and that no two routes of a method do.\<close>

fun overlap :: "segment list \<Rightarrow> segment list \<Rightarrow> bool" where
  "overlap [] [] = True"
| "overlap (Lit a # ps) (Lit b # qs) = ((a = b \<or> a = b @ [CHR 10] \<or> b = a @ [CHR 10]) \<and> overlap ps qs)"
| "overlap (_ # ps) (_ # qs) = overlap ps qs"
| "overlap _ _ = False"

fun unambiguous :: "(http_method \<times> segment list) list \<Rightarrow> bool" where
  "unambiguous [] = True"
| "unambiguous ((m, p) # rs) = (list_all (\<lambda>(m', q). m' = m \<longrightarrow> \<not> overlap p q) rs \<and> unambiguous rs)"

definition patterns :: "'e route list \<Rightarrow> (http_method \<times> segment list) list" where
  "patterns routes = map (\<lambda>r. (ro_method r, compile_path (ro_path r))) routes"

lemma match_overlap: "match_segments p s \<noteq> None \<Longrightarrow> match_segments q s \<noteq> None \<Longrightarrow> overlap p q"
proof (induction p arbitrary: s q)
  case Nil
  then show ?case by (cases s; cases q) auto
next
  case (Cons x p)
  obtain c t y q' where st: "s = c # t" "q = y # q'"
    using Cons.prems by (cases s; cases q; cases x) auto
  with Cons.prems have "match_segments p t \<noteq> None" "match_segments q' t \<noteq> None"
    by (cases x; cases y; auto split: if_splits)+
  with Cons.IH have "overlap p q'" by blast
  with Cons.prems st show ?case by (cases x; cases y) (auto split: if_splits)
qed

lemma unambiguous_match:
  assumes "unambiguous (patterns routes)" "r \<in> set routes" "q \<in> set routes" "ro_method r = ro_method q"
    and "match_path path r \<noteq> None" "match_path path q \<noteq> None"
  shows "r = q"
  using assms
proof (induction routes)
  case (Cons x rs)
  have clash: False if "y \<in> set rs" "ro_method y = ro_method x" "match_path path x \<noteq> None" "match_path path y \<noteq> None" for y
    using Cons.prems(1) that match_overlap by (fastforce simp: patterns_def list_all_iff match_path_def)
  from Cons.prems(2,3) consider "r = x" "q = x" | "r = x" "q \<in> set rs" | "r \<in> set rs" "q = x" | "r \<in> set rs" "q \<in> set rs"
    by auto
  then show ?case
  proof cases
    case 4
    with Cons.IH Cons.prems show ?thesis by (simp add: patterns_def)
  qed (use clash Cons.prems in auto)
qed simp

lemma dispatch_found:
  assumes "unambiguous (patterns routes)" "r \<in> set routes" "match_path path r = Some ps"
  shows "dispatch routes (ro_method r) path = Found (ro_endpoint r) ps"
proof -
  let ?P = "\<lambda>x. ro_method x = ro_method r \<and> match_path path x \<noteq> None"
  obtain q where q: "List.find ?P routes = Some q"
    using assms(2,3) by (cases "List.find ?P routes") (auto simp: find_None_iff)
  then have "q \<in> set routes" "?P q" by (auto simp: find_Some_iff)
  with unambiguous_match [OF assms(1,2), of q path] assms(3) have "q = r" by simp
  with q assms(3) show ?thesis by (simp add: dispatch_def)
qed

lemma dispatch_cases:
  obtains (hit) r ps where "r \<in> set routes" "ro_method r = m" "match_path path r = Some ps"
      "dispatch routes m path = Found (ro_endpoint r) ps"
  | (miss) "\<And>r. r \<in> set routes \<Longrightarrow> ro_method r = m \<Longrightarrow> match_path path r = None"
      "dispatch routes m path =
        (if \<exists>r \<in> set routes. match_path path r \<noteq> None then Method_not_allowed
         else if path \<noteq> ''/'' \<and> (\<exists>r \<in> set routes. match_path (other_slash path) r \<noteq> None) then Slash_redirect
         else Not_found)"
proof (cases "List.find (\<lambda>r. ro_method r = m \<and> match_path path r \<noteq> None) routes")
  case None
  then have none: "match_path path r = None" if "r \<in> set routes" "ro_method r = m" for r
    using that by (auto simp: find_None_iff)
  from None show thesis by (intro miss none) (simp_all only: dispatch_def option.case)
next
  case (Some r)
  then have "r \<in> set routes" "ro_method r = m" "match_path path r \<noteq> None" by (auto simp: find_Some_iff)
  with Some show thesis by (intro hit [of r "the (match_path path r)"]) (simp_all add: dispatch_def)
qed

lemma dispatch_order:
  assumes "unambiguous (patterns routes)" "set routes' = set routes"
  shows "dispatch routes' m path = dispatch routes m path"
proof (cases rule: dispatch_cases [of routes' m path])
  case (hit r ps)
  with assms(2) dispatch_found [OF assms(1), of r path ps] show ?thesis by simp
next
  case miss
  have "List.find (\<lambda>r. ro_method r = m \<and> match_path path r \<noteq> None) routes = None"
    using miss(1) assms(2) by (auto simp: find_None_iff)
  with miss(2) assms(2) show ?thesis by (simp add: dispatch_def)
qed

lemma api_unambiguous: "unambiguous (patterns api_routes)"
  by code_simp

lemma services_unambiguous: "unambiguous (patterns gateway_routes)" "unambiguous (patterns integration_routes)"
  by code_simp+

end
