(* ===== verification/Monitoring.thy ===== *)
theory Monitoring
  imports Floats Auth
begin

text \<open>
  Metrics and alerts of the API: the rolling window of requests (\<^verbatim>\<open>monitoring.py\<close>), the middleware that
  feeds it, the loop that evaluates the alerts, and the routes \<^verbatim>\<open>/health\<close>, \<^verbatim>\<open>/metrics\<close>, \<^verbatim>\<open>/keepalive\<close> and
  \<^verbatim>\<open>/\<close> (\<^verbatim>\<open>main.py\<close>). Rates, products with a fraction and percentages are the doubles of \<open>Floats\<close>. The
  monotonic clock counts microseconds. The middleware measures whole milliseconds, so latencies are
  integers. \<open>disk_usage\<close> stands for \<^verbatim>\<open>shutil.disk_usage\<close>: the used and total bytes, or \<open>None\<close> when the
  system call raises.
\<close>

section \<open>The rolling window\<close>

record sample =
  sample_at :: datetime
  sample_status :: nat
  elapsed_ms :: int

record registry =
  window_seconds :: int
  max_samples :: nat
  samples :: "sample list"

definition metrics_registry :: registry where
  "metrics_registry = \<lparr>window_seconds = 600, max_samples = 10000, samples = []\<rparr>"

text \<open>The last \<open>n\<close> elements: what a \<^verbatim>\<open>deque\<close> with \<^verbatim>\<open>maxlen\<close> keeps.\<close>

definition last_n :: "nat \<Rightarrow> 'a list \<Rightarrow> 'a list" where
  "last_n n xs = drop (length xs - n) xs"

definition record_sample :: "datetime \<Rightarrow> nat \<Rightarrow> int \<Rightarrow> registry \<Rightarrow> registry" where
  "record_sample now status elapsed reg =
     reg\<lparr>samples := last_n (max_samples reg)
            (samples reg @ [\<lparr>sample_at = now, sample_status = status, elapsed_ms = elapsed\<rparr>])\<rparr>"

definition recent :: "datetime \<Rightarrow> registry \<Rightarrow> registry \<times> sample list" where
  "recent now reg =
     (let cutoff = now - seconds (window_seconds reg);
          reg' = reg\<lparr>samples := dropWhile (\<lambda>s. sample_at s < cutoff) (samples reg)\<rparr>
      in (reg', samples reg'))"

record metrics_snapshot =
  ms_window_seconds :: int
  request_count :: int
  error_count :: int
  error_rate :: double
  p50_latency_ms :: "int option"
  p95_latency_ms :: "int option"

definition percentile :: "int list \<Rightarrow> double \<Rightarrow> int option" where
  "percentile sorted_values p =
     (if sorted_values = [] then None
      else let n = int (length sorted_values)
           in Some (sorted_values ! nat (min (n - 1) (double_trunc (double_times n p)))))"

definition snapshot_of :: "int \<Rightarrow> sample list \<Rightarrow> metrics_snapshot" where
  "snapshot_of window rs =
     (let total = int (length rs);
          errors = int (length (filter (\<lambda>s. sample_status s \<ge> 500) rs));
          latencies = sort (map elapsed_ms rs)
      in \<lparr>ms_window_seconds = window, request_count = total, error_count = errors,
          error_rate = (if total \<noteq> 0 then double_of_ratio errors total else (0, 0)),
          p50_latency_ms = percentile latencies (double_of_ratio 1 2),
          p95_latency_ms = percentile latencies (double_of_ratio 95 100)\<rparr>)"

definition snapshot :: "datetime \<Rightarrow> registry \<Rightarrow> registry \<times> metrics_snapshot" where
  "snapshot now reg = (case recent now reg of (reg', rs) \<Rightarrow> (reg', snapshot_of (window_seconds reg) rs))"

section \<open>Alerts\<close>

record alert =
  signal :: string
  message :: string
  alert_value :: string
  threshold :: string
  severity :: string

type_synonym log_line = "string \<times> string"

text \<open>\<^verbatim>\<open>LoggingNotifier.notify\<close>: the level of the log line and its text.\<close>

definition logging_notify :: "alert \<Rightarrow> log_line" where
  "logging_notify a =
     (if severity a = ''page'' then ''CRITICAL'' else ''WARNING'',
      ''ALERT ['' @ signal a @ ''] '' @ message a @ '' (value='' @ alert_value a @ '', threshold='' @ threshold a @ '')'')"

definition ERROR_RATE_THRESHOLD :: double where
  "ERROR_RATE_THRESHOLD = double_of_ratio 5 100"

definition LATENCY_P95_THRESHOLD_MS :: int where
  "LATENCY_P95_THRESHOLD_MS = 1500"

definition DISK_USAGE_THRESHOLD_PCT :: double where
  "DISK_USAGE_THRESHOLD_PCT = (85, 0)"

definition MIN_REQUESTS_FOR_ERROR_RATE_ALERT :: int where
  "MIN_REQUESTS_FOR_ERROR_RATE_ALERT = 20"

definition get_disk_usage_pct :: "(int \<times> int) option \<Rightarrow> double option" where
  "get_disk_usage_pct disk_usage =
     (case disk_usage of
        None \<Rightarrow> None
      | Some (used, capacity) \<Rightarrow> Some (if capacity \<noteq> 0 then double_times 100 (double_of_ratio used capacity) else (0, 0)))"

definition percent :: "double \<Rightarrow> string" where
  "percent x = tenths_str (tenths x) @ ''%''"

definition check_alerts ::
  "metrics_snapshot \<Rightarrow> string \<Rightarrow> string \<Rightarrow> (unit \<Rightarrow> double option) option \<Rightarrow> (int \<times> int) option \<Rightarrow> alert list option"
where
  "check_alerts metrics db_status redis_status disk_usage_pct_fn disk_usage =
     (let database =
            (if db_status = ''unreachable''
             then [\<lparr>signal = ''database_unreachable'', message = ''Database is unreachable'',
                    alert_value = db_status, threshold = ''any occurrence'', severity = ''page''\<rparr>] else []);
          redis =
            (if redis_status = ''unreachable''
             then [\<lparr>signal = ''redis_unreachable'', message = ''Redis is unreachable'',
                    alert_value = redis_status, threshold = ''any occurrence'', severity = ''page''\<rparr>] else []);
          errors =
            (if request_count metrics \<ge> MIN_REQUESTS_FOR_ERROR_RATE_ALERT
                \<and> double_less ERROR_RATE_THRESHOLD (error_rate metrics)
             then [\<lparr>signal = ''error_rate'',
                    message = ''5xx error rate over the last '' @ int_str (ms_window_seconds metrics)
                      @ ''s exceeds threshold'',
                    alert_value = percent (double_times 100 (error_rate metrics)) @ '' ('' @ int_str (error_count metrics)
                      @ ''/'' @ int_str (request_count metrics) @ '')'',
                    threshold = ''> 5%'', severity = ''page''\<rparr>] else []);
          latency =
            (case p95_latency_ms metrics of
               None \<Rightarrow> []
             | Some p95 \<Rightarrow>
                 if p95 > LATENCY_P95_THRESHOLD_MS
                 then [\<lparr>signal = ''latency_p95'', message = ''p95 request latency exceeds threshold'',
                        alert_value = int_str p95 @ ''ms'',
                        threshold = ''> '' @ int_str LATENCY_P95_THRESHOLD_MS @ ''ms'', severity = ''page''\<rparr>] else []);
          disk_pct = (case disk_usage_pct_fn of Some f \<Rightarrow> f () | None \<Rightarrow> get_disk_usage_pct disk_usage)
      in case disk_pct of
           None \<Rightarrow> None
         | Some pct \<Rightarrow>
             Some (database @ redis @ errors @ latency @
               (if double_less DISK_USAGE_THRESHOLD_PCT pct
                then [\<lparr>signal = ''disk_usage'', message = ''Disk usage exceeds threshold'',
                       alert_value = percent pct, threshold = ''> 85%'', severity = ''notify''\<rparr>] else [])))"

definition check_and_notify ::
  "metrics_snapshot \<Rightarrow> string \<Rightarrow> string \<Rightarrow> (unit \<Rightarrow> double option) option \<Rightarrow> (int \<times> int) option
     \<Rightarrow> (alert \<Rightarrow> log_line) option \<Rightarrow> (alert list \<times> log_line list) option"
where
  "check_and_notify metrics db_status redis_status disk_usage_pct_fn disk_usage notifier =
     (let notify = (case notifier of Some f \<Rightarrow> f | None \<Rightarrow> logging_notify)
      in map_option (\<lambda>alerts. (alerts, map notify alerts))
           (check_alerts metrics db_status redis_status disk_usage_pct_fn disk_usage))"

section \<open>Dependencies, middleware, loop and routes\<close>

text \<open>
  What a probe of the dependencies finds: whether \<^verbatim>\<open>SELECT 1\<close> succeeds, whether Redis is configured and
  then whether it answers.
\<close>

record dependencies =
  db_answers :: bool
  redis_answers :: "bool option"

definition check_dependencies :: "dependencies \<Rightarrow> string \<times> string" where
  "check_dependencies deps =
     (if db_answers deps then ''ok'' else ''unreachable'',
      case redis_answers deps of
        None \<Rightarrow> ''not_configured''
      | Some answers \<Rightarrow> if answers then ''ok'' else ''unreachable'')"

text \<open>
  The middleware. \<open>call_next\<close> returns the response the route or an exception handler made, so an
  \<open>HTTPException\<close> arrives as its status. An exception nobody handles propagates out of \<open>call_next\<close>, and
  the framework answers 500 outside the middleware.
\<close>

type_synonym outcome = "nat http"

definition response_status :: "outcome \<Rightarrow> nat option" where
  "response_status r =
     (case r of Inr status \<Rightarrow> Some status | Inl (HTTPException status _) \<Rightarrow> Some status | Inl (Unhandled _) \<Rightarrow> None)"

definition request_logging :: "datetime \<Rightarrow> datetime \<Rightarrow> outcome \<Rightarrow> registry \<Rightarrow> registry" where
  "request_logging start finish r reg =
     (case response_status r of
        None \<Rightarrow> reg
      | Some status \<Rightarrow> record_sample finish status (round_div (finish - start) 1000) reg)"

text \<open>One iteration of the loop; an exception is caught, and the next iteration starts afresh.\<close>

definition monitoring_iteration ::
  "dependencies \<Rightarrow> (int \<times> int) option \<Rightarrow> datetime \<Rightarrow> registry \<Rightarrow> registry \<times> log_line list"
where
  "monitoring_iteration deps disk_usage now reg =
     (case check_dependencies deps of (db, redis) \<Rightarrow>
      case snapshot now reg of (reg', snap) \<Rightarrow>
        (reg', case check_and_notify snap db redis None disk_usage None of
                 None \<Rightarrow> [(''ERROR'', ''Monitoring loop iteration failed'')]
               | Some (alerts, logged) \<Rightarrow> logged))"

definition health :: "dependencies \<Rightarrow> nat \<times> json_object" where
  "health deps =
     (case check_dependencies deps of (db, redis) \<Rightarrow>
        let is_healthy = (db = ''ok'' \<and> redis \<noteq> ''unreachable'');
            overall = (if is_healthy then ''ok'' else ''degraded'')
        in (if is_healthy then 200 else 503,
            [(''status'', JStr overall), (''service'', JStr ''staykaro-api''), (''version'', JStr ''0.3.0''),
             (''db'', JStr db), (''redis'', JStr redis)]))"

definition json_latency :: "int option \<Rightarrow> json" where
  "json_latency l = (case l of None \<Rightarrow> JNull | Some ms \<Rightarrow> JInt ms)"

definition metrics_endpoint ::
  "dependencies \<Rightarrow> datetime \<Rightarrow> claims \<Rightarrow> registry \<Rightarrow> registry \<times> json_object http"
where
  "metrics_endpoint deps now u reg =
     (if cm_role u \<noteq> Some ''super_admin'' then (reg, Inl (HTTPException 403 ''super_admin role required''))
      else case check_dependencies deps of (db, redis) \<Rightarrow>
           case snapshot now reg of (reg', snap) \<Rightarrow>
             (reg', Inr
               [(''window_seconds'', JFloat (ms_window_seconds snap) 0), (''request_count'', JInt (request_count snap)),
                (''error_count'', JInt (error_count snap)),
                (''error_rate'', JFloat (fst (error_rate snap)) (snd (error_rate snap))),
                (''p50_latency_ms'', json_latency (p50_latency_ms snap)),
                (''p95_latency_ms'', json_latency (p95_latency_ms snap)),
                (''db'', JStr db), (''redis'', JStr redis)]))"

definition root_info :: json_object where
  "root_info = [(''service'', JStr ''staykaro-api''), (''status'', JStr ''ok''), (''version'', JStr ''0.3.0'')]"

definition keepalive :: "dependencies \<Rightarrow> json_object" where
  "keepalive deps =
     [(''status'', JStr ''ok''), (''service'', JStr ''staykaro-api''),
      (''db'', JStr (if db_answers deps then ''ok'' else ''unreachable'')),
      (''redis'', JStr (case redis_answers deps of
          None \<Rightarrow> ''not_configured''
        | Some answers \<Rightarrow> if answers then ''ok'' else ''unreachable''))]"

section \<open>The window against the whole history\<close>

datatype api_event =
    Request datetime datetime outcome
  | Monitor dependencies "(int \<times> int) option" datetime
  | Metrics dependencies datetime claims

fun event_time :: "api_event \<Rightarrow> datetime" where
  "event_time (Request start finish r) = finish"
| "event_time (Monitor deps disk now) = now"
| "event_time (Metrics deps now u) = now"

fun api_step :: "registry \<Rightarrow> api_event \<Rightarrow> registry" where
  "api_step reg (Request start finish r) = request_logging start finish r reg"
| "api_step reg (Monitor deps disk now) = fst (monitoring_iteration deps disk now reg)"
| "api_step reg (Metrics deps now u) = fst (metrics_endpoint deps now u reg)"

fun samples_of :: "api_event \<Rightarrow> sample list" where
  "samples_of (Request start finish r) =
     (case response_status r of
        None \<Rightarrow> []
      | Some status \<Rightarrow> [\<lparr>sample_at = finish, sample_status = status, elapsed_ms = round_div (finish - start) 1000\<rparr>])"
| "samples_of _ = []"

definition history_of :: "api_event list \<Rightarrow> sample list" where
  "history_of es = concat (map samples_of es)"

definition since :: "datetime \<Rightarrow> sample list \<Rightarrow> sample list" where
  "since c h = filter (\<lambda>s. c \<le> sample_at s) h"

lemma last_n_drop: "k \<le> length xs - n \<Longrightarrow> last_n n (drop k xs) = last_n n xs"
proof -
  assume "k \<le> length xs - n"
  then have "length xs - (k + n) + k = length xs - n" by arith
  then show ?thesis by (simp add: last_n_def)
qed

lemma last_n_append: "last_n n (last_n n xs @ ys) = last_n n (xs @ ys)"
proof -
  have "last_n n xs @ ys = drop (length xs - n) (xs @ ys)" by (simp add: last_n_def)
  then show ?thesis by (simp only:) (rule last_n_drop, simp)
qed

lemma last_n_short: "length xs \<le> n \<Longrightarrow> last_n n xs = xs"
  by (simp add: last_n_def)

lemma last_n_Cons: "last_n n (x # xs) = (if length xs < n then x # xs else last_n n xs)"
  by (auto simp: last_n_def Suc_diff_le)

lemma since_sorted_suffix:
  "sorted (map sample_at xs) \<Longrightarrow> dropWhile (\<lambda>s. sample_at s < c) xs = since c xs"
  by (induction xs) (auto simp: since_def intro!: filter_True [symmetric])

lemma since_last_n: "sorted (map sample_at xs) \<Longrightarrow> since c (last_n n xs) = last_n n (since c xs)"
proof (induction xs)
  case (Cons x xs)
  have "length xs < n \<Longrightarrow> last_n n (since c xs) = since c xs"
    by (intro last_n_short) (simp add: since_def order_trans [OF length_filter_le])
  moreover have "c \<le> sample_at x \<Longrightarrow> since c xs = xs" using Cons.prems by (auto simp: since_def intro!: filter_True)
  ultimately show ?case using Cons by (auto simp: last_n_Cons since_def)
qed (simp add: last_n_def since_def)

lemma sorted_last_n: "sorted (map sample_at xs) \<Longrightarrow> sorted (map sample_at (last_n n xs))"
  by (simp add: last_n_def drop_map [symmetric] sorted_wrt_drop)

lemma sorted_since: "sorted (map sample_at xs) \<Longrightarrow> sorted (map sample_at (since c xs))"
  by (simp add: since_def sorted_filter)

text \<open>
  The registry after the history \<open>h\<close> up to time \<open>t\<close>: the newest samples of some cutoff that the clock has
  passed.
\<close>

definition window_inv :: "datetime \<Rightarrow> sample list \<Rightarrow> registry \<Rightarrow> bool" where
  "window_inv t h reg \<longleftrightarrow>
     window_seconds reg = 600 \<and> max_samples reg = 10000 \<and> sorted (map sample_at h) \<and> (\<forall>s \<in> set h. sample_at s \<le> t)
     \<and> (\<exists>c \<le> t - seconds 600. samples reg = last_n 10000 (since c h))"

lemma window_inv_init: "window_inv t [] metrics_registry"
  by (auto simp: window_inv_def metrics_registry_def last_n_def since_def)

lemma window_inv_later: "window_inv t h reg \<Longrightarrow> t \<le> t' \<Longrightarrow> window_inv t' h reg"
  unfolding window_inv_def by (meson diff_right_mono order_trans)

lemma recent_history:
  assumes "window_inv t h reg" "t \<le> now"
  shows "snd (recent now reg) = last_n 10000 (since (now - seconds 600) h)"
    and "window_inv now h (fst (recent now reg))"
proof -
  from window_inv_later [OF assms] obtain c where c: "c \<le> now - seconds 600" "samples reg = last_n 10000 (since c h)"
    and h: "sorted (map sample_at h)" and w: "window_seconds reg = 600"
    by (auto simp: window_inv_def)
  have "since (now - seconds 600) (since c h) = since (now - seconds 600) h"
    using c(1) by (auto simp: since_def intro!: filter_cong)
  then show r: "snd (recent now reg) = last_n 10000 (since (now - seconds 600) h)"
    using h by (simp add: recent_def Let_def w c(2) since_sorted_suffix sorted_last_n sorted_since since_last_n)
  have "samples (fst (recent now reg)) = snd (recent now reg)" by (simp add: recent_def Let_def)
  with r assms show "window_inv now h (fst (recent now reg))"
    by (auto simp: window_inv_def recent_def Let_def)
qed

lemma fst_snapshot: "fst (snapshot now reg) = fst (recent now reg)"
  by (simp add: snapshot_def case_prod_beta)

lemma window_inv_record:
  assumes "window_inv t h reg" "t \<le> now"
  shows "window_inv now (h @ [\<lparr>sample_at = now, sample_status = st, elapsed_ms = ms\<rparr>]) (record_sample now st ms reg)"
proof -
  from window_inv_later [OF assms] obtain c where c: "c \<le> now - seconds 600" "samples reg = last_n 10000 (since c h)"
    by (auto simp: window_inv_def)
  have "c \<le> now" using c(1) by (simp add: seconds_def)
  then have "samples (record_sample now st ms reg)
      = last_n 10000 (since c (h @ [\<lparr>sample_at = now, sample_status = st, elapsed_ms = ms\<rparr>]))"
    using assms by (simp add: record_sample_def window_inv_def c(2) last_n_append) (simp add: since_def)
  with c(1) assms show ?thesis
    by (auto simp: window_inv_def record_sample_def sorted_append intro: order_trans)
qed

lemma window_inv_step:
  "window_inv t h reg \<Longrightarrow> t \<le> event_time e \<Longrightarrow> window_inv (event_time e) (h @ samples_of e) (api_step reg e)"
  by (cases e)
    (auto simp: request_logging_def monitoring_iteration_def metrics_endpoint_def case_prod_beta fst_snapshot
      intro: window_inv_record recent_history(2) window_inv_later split: option.splits)

lemma window_inv_run:
  assumes "window_inv t h reg" "sorted (t # map event_time es)" "\<forall>e \<in> set es. event_time e \<le> now" "t \<le> now"
  shows "\<exists>t' \<le> now. window_inv t' (h @ history_of es) (run api_step reg es)"
  using assms
proof (induction es arbitrary: t h reg)
  case (Cons e es)
  then have "\<exists>t' \<le> now. window_inv t' ((h @ samples_of e) @ history_of es) (run api_step (api_step reg e) es)"
    by (intro Cons.IH [of "event_time e"] window_inv_step) auto
  then show ?case by (simp add: history_of_def)
qed (auto simp: history_of_def)

text \<open>C36. Whatever requests, metric reads and monitoring passes happened in whatever order, a snapshot is
  computed from exactly the samples of the last 600 seconds of the whole history (the newest 10000 of
  them), although the registry drops old samples along the way.\<close>

theorem window_equals_history:
  assumes "sorted (map event_time es)" "\<forall>e \<in> set es. event_time e \<le> now"
  shows "snd (snapshot now (run api_step metrics_registry es))
    = snapshot_of 600 (last_n 10000 (since (now - seconds 600) (history_of es)))"
proof -
  define t where "t = (case es of [] \<Rightarrow> now | e # _ \<Rightarrow> event_time e)"
  have t: "sorted (t # map event_time es)" "t \<le> now" using assms by (auto simp: t_def split: list.splits)
  obtain t' where t': "t' \<le> now" and inv: "window_inv t' (history_of es) (run api_step metrics_registry es)"
    using window_inv_run [OF window_inv_init t(1) assms(2) t(2)] by auto
  from inv have "window_seconds (run api_step metrics_registry es) = 600" by (simp add: window_inv_def)
  with recent_history(1) [OF inv t'] show ?thesis by (simp add: snapshot_def case_prod_beta)
qed

theorem window_equals_history_witness:
  "snd (snapshot (seconds 700) (run api_step metrics_registry
      [Request 0 (seconds 1) (Inr 200), Metrics \<lparr>db_answers = True, redis_answers = None\<rparr> (seconds 650)
         \<lparr>cm_sub = None, cm_role = Some ''super_admin'', cm_exp = 0, cm_type = None, cm_email = None,
          cm_full_name = None, cm_client_id = None\<rparr>,
       Request (seconds 650) (seconds 651) (Inl (HTTPException 503 [])), Request 0 (seconds 652) (Inl (Unhandled []))]))
    = snapshot_of 600 [\<lparr>sample_at = seconds 651, sample_status = 503, elapsed_ms = 1000\<rparr>]"
  by (subst window_equals_history)
    (simp_all add: history_of_def since_def last_n_def response_status_def seconds_def round_div_def)

section \<open>Alerts are exact\<close>

abbreviation errors_in :: "sample list \<Rightarrow> int" where
  "errors_in rs \<equiv> int (length (filter (\<lambda>s. sample_status s \<ge> 500) rs))"

abbreviation slow_in :: "sample list \<Rightarrow> int" where
  "slow_in rs \<equiv> int (length (filter (\<lambda>s. elapsed_ms s > 1500) rs))"

lemma sorted_nth_above:
  fixes ys :: "int list"
  assumes "sorted ys" "i < length ys"
  shows "c < ys ! i \<longleftrightarrow> length ys - i \<le> length (filter (\<lambda>y. c < y) ys)"
  using assms
proof (induction ys arbitrary: i)
  case (Cons y ys)
  show ?case
  proof (cases "c < y")
    case True
    with Cons.prems have "filter (\<lambda>y. c < y) (y # ys) = y # ys" "c < (y # ys) ! i"
      using sorted_nth_mono [of "y # ys" 0 i] by (auto intro!: filter_True)
    then show ?thesis by simp
  next
    case False
    have "length (filter (\<lambda>y. c < y) ys) < Suc (length ys)" by (simp add: le_imp_less_Suc)
    with False show ?thesis using Cons.IH [of "i - 1"] Cons.prems by (cases i) auto
  qed
qed simp

lemma error_rate_exact:
  assumes "length rs \<le> 10000"
  shows "double_less ERROR_RATE_THRESHOLD (error_rate (snapshot_of w rs)) \<longleftrightarrow> int (length rs) < 20 * errors_in rs"
proof (cases "errors_in rs = 0")
  case True
  then show ?thesis by (simp add: snapshot_of_def Let_def double_of_ratio_def) code_simp
next
  case False
  then have "0 < errors_in rs" "errors_in rs \<le> int (length rs)" by simp_all
  then have f: "0 < errors_in rs" "0 < int (length rs)" "int (length rs) \<le> 10000" "errors_in rs \<le> 10000"
    using assms by linarith+
  have "double_less (double_of_ratio 5 100) (double_of_ratio (errors_in rs) (int (length rs)))
      \<longleftrightarrow> 5 * int (length rs) < errors_in rs * 100"
    by (rule double_less_ratio) (use f in simp_all)
  moreover have "rs \<noteq> []" using False by auto
  ultimately show ?thesis by (simp add: snapshot_of_def Let_def ERROR_RATE_THRESHOLD_def)
qed

lemma p95_exact:
  assumes "length rs \<le> 10000"
  shows "(\<exists>p95. p95_latency_ms (snapshot_of w rs) = Some p95 \<and> LATENCY_P95_THRESHOLD_MS < p95)
    \<longleftrightarrow> rs \<noteq> [] \<and> int (length rs) \<le> 20 * slow_in rs"
proof (cases "rs = []")
  case False
  define n ys where "n = int (length rs)" and "ys = sort (map elapsed_ms rs)"
  have n: "0 < n" "n \<le> 10000" "length ys = nat n" using False assms by (simp_all add: n_def ys_def)
  then have "ys \<noteq> []" by auto
  have lt: "0 \<le> 19 * n div 20" "19 * n div 20 < n" using n(1) by linarith+
  then have i: "nat (19 * n div 20) < length ys" using n by simp
  have "length (filter (\<lambda>y. 1500 < y) ys) = length (filter (\<lambda>s. elapsed_ms s > 1500) rs)"
    by (simp add: ys_def filter_sort filter_map o_def)
  with sorted_nth_above [OF _ i, of 1500]
  have "1500 < ys ! nat (19 * n div 20) \<longleftrightarrow> nat n - nat (19 * n div 20) \<le> length (filter (\<lambda>s. elapsed_ms s > 1500) rs)"
    by (simp add: n(3)) (simp add: ys_def)
  also have "\<dots> \<longleftrightarrow> n - 19 * n div 20 \<le> slow_in rs" using lt n(1) by linarith
  also have "\<dots> \<longleftrightarrow> n \<le> 20 * slow_in rs" by (rule iffI; linarith)
  finally have "1500 < ys ! nat (19 * n div 20) \<longleftrightarrow> n \<le> 20 * slow_in rs" .
  moreover have "min (n - 1) (19 * n div 20) = 19 * n div 20" using lt by simp
  moreover have "p95_latency_ms (snapshot_of w rs) = percentile ys (double_of_ratio 95 100)"
    by (simp add: snapshot_of_def Let_def ys_def)
  ultimately show ?thesis
    using n False \<open>ys \<noteq> []\<close> by (simp add: percentile_def Let_def index_095 LATENCY_P95_THRESHOLD_MS_def n_def)
qed (simp add: snapshot_of_def Let_def percentile_def)

lemma signal_if: "signal ` set (if c then [a] else []) = (if c then {signal a} else {})"
  by simp

lemma signal_case:
  "signal ` set (case x of None \<Rightarrow> [] | Some v \<Rightarrow> if c v then [f v] else []) = {signal (f v) | v. x = Some v \<and> c v}"
  by (auto split: option.splits)

lemma signals_of:
  assumes "check_alerts m db redis fn disk = Some alerts"
  shows "''error_rate'' \<in> signal ` set alerts
      \<longleftrightarrow> MIN_REQUESTS_FOR_ERROR_RATE_ALERT \<le> request_count m \<and> double_less ERROR_RATE_THRESHOLD (error_rate m)"
    and "''latency_p95'' \<in> signal ` set alerts \<longleftrightarrow> (\<exists>p. p95_latency_ms m = Some p \<and> LATENCY_P95_THRESHOLD_MS < p)"
    and "''database_unreachable'' \<in> signal ` set alerts \<longleftrightarrow> db = ''unreachable''"
    and "''redis_unreachable'' \<in> signal ` set alerts \<longleftrightarrow> redis = ''unreachable''"
proof -
  obtain pct where pct: "(case fn of Some f \<Rightarrow> f () | None \<Rightarrow> get_disk_usage_pct disk) = Some pct"
    using assms by (auto simp: check_alerts_def Let_def split: option.splits)
  note alerts = assms [unfolded check_alerts_def Let_def pct option.case option.inject, symmetric]
  show "''error_rate'' \<in> signal ` set alerts
      \<longleftrightarrow> MIN_REQUESTS_FOR_ERROR_RATE_ALERT \<le> request_count m \<and> double_less ERROR_RATE_THRESHOLD (error_rate m)"
    "''latency_p95'' \<in> signal ` set alerts \<longleftrightarrow> (\<exists>p. p95_latency_ms m = Some p \<and> LATENCY_P95_THRESHOLD_MS < p)"
    "''database_unreachable'' \<in> signal ` set alerts \<longleftrightarrow> db = ''unreachable''"
    "''redis_unreachable'' \<in> signal ` set alerts \<longleftrightarrow> redis = ''unreachable''"
    unfolding alerts set_append image_Un signal_if signal_case by simp_all
qed

text \<open>C37. On every window the registry can hold (at most 10000 samples) the two thresholds are exact despite
  floating point: the error-rate alert is raised iff there are at least 20 requests and more than one in
  twenty answered 5xx, and the latency alert iff at least one in twenty took more than 1500 ms. The
  reachability alerts are raised iff the probe failed.\<close>

theorem alerts_are_exact:
  assumes "length rs \<le> 10000" "check_alerts (snapshot_of w rs) db redis fn disk = Some alerts"
  shows "(''error_rate'' \<in> signal ` set alerts \<longleftrightarrow> 20 \<le> length rs \<and> int (length rs) < 20 * errors_in rs)
    \<and> (''latency_p95'' \<in> signal ` set alerts \<longleftrightarrow> rs \<noteq> [] \<and> int (length rs) \<le> 20 * slow_in rs)
    \<and> (''database_unreachable'' \<in> signal ` set alerts \<longleftrightarrow> db = ''unreachable'')
    \<and> (''redis_unreachable'' \<in> signal ` set alerts \<longleftrightarrow> redis = ''unreachable'')"
proof -
  have "request_count (snapshot_of w rs) = int (length rs)" by (simp add: snapshot_of_def Let_def)
  then show ?thesis
    unfolding signals_of [OF assms(2)] error_rate_exact [OF assms(1), of w, symmetric] p95_exact [OF assms(1), of w, symmetric]
    by (auto simp: MIN_REQUESTS_FOR_ERROR_RATE_ALERT_def)
qed

definition demo_window :: "sample list" where
  "demo_window =
     replicate 19 \<lparr>sample_at = 0, sample_status = 200, elapsed_ms = 40\<rparr> @
     [\<lparr>sample_at = 0, sample_status = 503, elapsed_ms = 1501\<rparr>]"

text \<open>At exactly one request in twenty the latency alert is raised and the error-rate alert is not.\<close>

theorem alerts_are_exact_witness:
  "\<exists>alerts. check_alerts (snapshot_of 600 demo_window) ''ok'' ''not_configured'' None (Some (10, 100)) = Some alerts
     \<and> ''error_rate'' \<notin> signal ` set alerts \<and> ''latency_p95'' \<in> signal ` set alerts"
proof -
  have "check_alerts (snapshot_of 600 demo_window) ''ok'' ''not_configured'' None (Some (10, 100)) \<noteq> None"
    by (simp add: check_alerts_def get_disk_usage_pct_def Let_def)
  then obtain alerts where
    a: "check_alerts (snapshot_of 600 demo_window) ''ok'' ''not_configured'' None (Some (10, 100)) = Some alerts" by auto
  have len: "length demo_window = 20" "errors_in demo_window = 1" "slow_in demo_window = 1"
    by (simp_all add: demo_window_def)
  have "''error_rate'' \<notin> signal ` set alerts" "''latency_p95'' \<in> signal ` set alerts"
    using alerts_are_exact [OF _ a] len by auto
  with a show ?thesis by auto
qed

section \<open>Health and crashes\<close>

text \<open>\<^verbatim>\<open>/health\<close> and the alerts agree: the route answers 503 exactly when the monitoring pass raises a
  reachability alert for the same probe, and 200 otherwise; a Redis that is not configured is healthy.\<close>

lemma health_agrees_with_alerts:
  assumes "check_dependencies deps = (db, redis)" "check_alerts m db redis fn disk = Some alerts"
  shows "fst (health deps) = (if {''database_unreachable'', ''redis_unreachable''} \<inter> signal ` set alerts = {} then 200 else 503)
    \<and> (fst (health deps) = 200 \<longleftrightarrow> db_answers deps \<and> redis_answers deps \<noteq> Some False)"
proof -
  have "db = (if db_answers deps then ''ok'' else ''unreachable'')"
    and "redis = ''unreachable'' \<longleftrightarrow> redis_answers deps = Some False"
    using assms(1) by (auto simp: check_dependencies_def split: option.splits if_splits)
  moreover have "fst (health deps) = (if db = ''ok'' \<and> redis \<noteq> ''unreachable'' then 200 else 503)"
    by (simp add: health_def assms(1) Let_def)
  moreover have "{''database_unreachable'', ''redis_unreachable''} \<inter> signal ` set alerts = {}
      \<longleftrightarrow> db \<noteq> ''unreachable'' \<and> redis \<noteq> ''unreachable''"
    using signals_of(3,4) [OF assms(2)] by auto
  ultimately show ?thesis by auto
qed

lemma health_agrees_with_alerts_example:
  "fst (health \<lparr>db_answers = True, redis_answers = Some False\<rparr>) = 503"
proof -
  have "check_dependencies \<lparr>db_answers = True, redis_answers = Some False\<rparr> = (''ok'', ''unreachable'')"
    by (simp add: check_dependencies_def)
  moreover obtain alerts where "check_alerts (snapshot_of 600 []) ''ok'' ''unreachable'' None (Some (10, 100)) = Some alerts"
    by (simp add: check_alerts_def get_disk_usage_pct_def Let_def)
  ultimately show ?thesis using health_agrees_with_alerts by fastforce
qed

fun crashed :: "api_event \<Rightarrow> bool" where
  "crashed (Request start finish r) = (response_status r = None)"
| "crashed _ = False"

text \<open>C38. Requests that end in an unhandled exception, which the client sees as status 500, leave no trace
  in the metrics: after any run the registry is the one of the run without them. So no share of crashing
  requests raises the error-rate alert.\<close>

theorem crashes_are_not_counted:
  "run api_step reg es = run api_step reg (filter (\<lambda>e. \<not> crashed e) es)"
proof (induction es arbitrary: reg)
  case (Cons e es)
  have "crashed e \<Longrightarrow> api_step reg e = reg" by (cases e) (simp_all add: request_logging_def)
  with Cons show ?case by simp
qed simp

end
