(* ===== verification/HttpServer.thy ===== *)
theory HttpServer
  imports Routes Worker Gateway AdminApi Monitoring
begin

text \<open>
  The API as one server: a request is a method and a path with its headers, query and body; the route
  table chooses the handler, the handler's dependencies authenticate and authorize the caller, and
  the middleware records the outcome. The handlers are those of the component theories.

  What the server promises its callers is the subject of \<^verbatim>\<open>HttpAccess\<close> and \<^verbatim>\<open>Noninterference\<close>.
\<close>

section \<open>Requests and responses\<close>

text \<open>
  The query parameters of the listings, with their defaults filled in, and the bodies as the models
  they validate as; a query or body that does not validate is \<open>None\<close> or \<open>No_body\<close>.
\<close>

record query =
  q_page :: int
  q_per_page :: int
  q_search :: "string option"
  q_role :: "string option"
  q_status :: "string option"
  q_tenant_id :: "int option"
  q_action :: "string option"
  q_statuses :: "string list"
  q_limit :: int

datatype 't body =
    No_body
  | Body_login login_request
  | Body_refresh (refresh_body: 't)
  | Body_caller caller_request
  | Body_customer customer_create
  | Body_customer_update customer_update
  | Body_client client_create
  | Body_client_update client_update
  | Body_user user_create
  | Body_user_update user_update
  | Body_call call_create_request
  | Body_finalize finalize_request
  | Body_event event_create_request
  | Body_fail event_fail_request

record 't http_request =
  hr_method :: http_method
  hr_path :: string
  hr_bearer :: "'t option"
  hr_internal :: "string option"
  hr_query :: "query option"
  hr_body :: "'t body"

datatype 't api_response =
    R_client client_response
  | R_clients paginated_clients
  | R_tenant tenant_response
  | R_tenants paginated_tenants
  | R_stats client_stats
  | R_tenant_stats tenant_stats
  | R_account admin_user_response
  | R_accounts paginated_admin_users
  | R_admin_call admin_call_response
  | R_admin_calls paginated_admin_calls
  | R_audit_logs paginated_audit_logs
  | R_profile client_profile
  | R_call call_response
  | R_calls paginated_calls
  | R_analytics analytics_response
  | R_user user_response
  | R_users paginated_users
  | R_phone_numbers paginated_phone_numbers
  | R_customer customer_response
  | R_customers paginated_customers
  | R_call_created (un_call_created: call_create_response)
  | R_call_state (un_call_state: call_state_response)
  | R_finalized (un_finalized: finalize_response)
  | R_phone_route (un_phone_route: phone_route_response)
  | R_event_created (un_event_created: event_create_response)
  | R_event (un_event: call_job)
  | R_events (un_events: "call_job list")
  | R_reaped (un_reaped: "string list")
  | R_tokens "'t token_response"
  | R_me me_response
  | R_placed "string option"
  | R_json nat json_object
  | R_no_content
  | R_redirect string

text \<open>What differs from request to request: clocks, generated identifiers, the outcome of Redis and of probes.\<close>

record http_env =
  he_start :: datetime
  he_now :: datetime
  he_now2 :: datetime
  he_now3 :: datetime
  he_py :: datetime
  he_finish :: datetime
  he_uuid :: string
  he_serial :: int
  he_session_id :: string
  he_net :: net
  he_redis :: redis_mode
  he_admin :: request_env
  he_deps :: dependencies

text \<open>The configuration of the process; \<open>sv_int\<close> is the framework's conversion of a path parameter to \<open>int\<close>.\<close>

record 't server =
  sv_jwt :: "'t jwt_lib"
  sv_bcrypt :: bcrypt_lib
  sv_auth :: auth_config
  sv_secret :: string
  sv_int :: "string \<Rightarrow> int option"

text \<open>The database with the wake-up list, the sessions \<^verbatim>\<open>POST /call\<close> stores, and the metrics.\<close>

record app =
  ap_api :: api_state
  ap_sessions :: "(string \<rightharpoonup> caller_request \<times> datetime) option"
  ap_metrics :: registry

section \<open>The handlers behind the routes\<close>

text \<open>Handlers that read, handlers that write, and a request that does not validate.\<close>

definition reads :: "('a \<Rightarrow> 'r) \<Rightarrow> 'a http \<Rightarrow> database \<Rightarrow> database \<times> 'r http" where
  "reads f r d = (d, map_sum id f r)"

definition writes :: "('a \<Rightarrow> 'r) \<Rightarrow> database \<times> 'a http \<Rightarrow> database \<times> 'r http" where
  "writes f w = (fst w, map_sum id f (snd w))"

definition rejected :: "'s \<Rightarrow> 's \<times> 'r http" where
  "rejected d = (d, Inl unprocessable)"

definition int_param :: "(string \<Rightarrow> int option) \<Rightarrow> string list \<Rightarrow> (int \<Rightarrow> 's \<Rightarrow> 's \<times> 'r http) \<Rightarrow> 's \<Rightarrow> 's \<times> 'r http" where
  "int_param conv ps h d = (case conv (hd ps) of None \<Rightarrow> rejected d | Some i \<Rightarrow> h i d)"

definition with_query :: "query option \<Rightarrow> (query \<Rightarrow> 's \<Rightarrow> 's \<times> 'r http) \<Rightarrow> 's \<Rightarrow> 's \<times> 'r http" where
  "with_query q h d = (case q of None \<Rightarrow> rejected d | Some qq \<Rightarrow> h qq d)"

text \<open>The role an administration route asks for, before anything of the request is validated.\<close>

definition admin_role_check :: "admin_endpoint \<Rightarrow> claims \<Rightarrow> unit http" where
  "admin_role_check e user =
     (if e \<in> set [Ep_list_users, Ep_get_user, Ep_list_calls, Ep_get_call, Ep_list_audit_logs]
      then (if require_admin user then Inr () else Inl admin_required)
      else (if require_super_admin user then Inr () else Inl super_admin_required))"

fun admin_handler ::
  "bcrypt_lib \<Rightarrow> (string \<Rightarrow> int option) \<Rightarrow> http_env \<Rightarrow> admin_endpoint \<Rightarrow> string list \<Rightarrow> query option \<Rightarrow> 't body \<Rightarrow> claims
     \<Rightarrow> database \<Rightarrow> database \<times> 't api_response http" where
  "admin_handler bc conv env Ep_create_client ps q b user d =
     (case b of Body_client c \<Rightarrow> writes R_client (create_client (he_admin env) c user d) | _ \<Rightarrow> rejected d)"
| "admin_handler bc conv env Ep_list_clients ps q b user d =
     with_query q (\<lambda>x d. reads R_clients (list_clients (q_page x) (q_per_page x) (q_status x) (q_search x) user d) d) d"
| "admin_handler bc conv env Ep_get_client ps q b user d =
     int_param conv ps (\<lambda>i d. reads R_client (get_client i user d) d) d"
| "admin_handler bc conv env Ep_update_client ps q b user d =
     (case b of Body_client_update c \<Rightarrow>
        int_param conv ps (\<lambda>i d. writes R_client (update_client (he_admin env) i c user d)) d
      | _ \<Rightarrow> rejected d)"
| "admin_handler bc conv env Ep_delete_client ps q b user d =
     int_param conv ps (\<lambda>i d. writes (\<lambda>_. R_no_content) (delete_client (he_admin env) i user d)) d"
| "admin_handler bc conv env Ep_get_client_stats ps q b user d =
     int_param conv ps (\<lambda>i d. reads R_stats (get_client_stats (he_now env) i user d) d) d"
| "admin_handler bc conv env Ep_create_user ps q b user d =
     (case b of Body_user c \<Rightarrow> writes R_account (create_user bc (he_admin env) c user d) | _ \<Rightarrow> rejected d)"
| "admin_handler bc conv env Ep_list_users ps q b user d =
     with_query q (\<lambda>x d. reads R_accounts
       (admin_list_users (q_page x) (q_per_page x) (q_tenant_id x) (q_role x) (q_status x) user d) d) d"
| "admin_handler bc conv env Ep_get_user ps q b user d = reads R_account (admin_get_user (hd ps) user d) d"
| "admin_handler bc conv env Ep_update_user ps q b user d =
     (case b of Body_user_update c \<Rightarrow> writes R_account (update_user bc (he_admin env) (hd ps) c user d)
      | _ \<Rightarrow> rejected d)"
| "admin_handler bc conv env Ep_delete_user ps q b user d =
     writes (\<lambda>_. R_no_content) (delete_user (he_admin env) (hd ps) user d)"
| "admin_handler bc conv env Ep_list_calls ps q b user d =
     with_query q (\<lambda>x d. reads R_admin_calls
       (admin_list_calls (q_page x) (q_per_page x) (q_tenant_id x) (q_search x) user d) d) d"
| "admin_handler bc conv env Ep_get_call ps q b user d =
     int_param conv ps (\<lambda>i d. reads R_admin_call (admin_get_call i user d) d) d"
| "admin_handler bc conv env Ep_create_tenant ps q b user d =
     (case b of Body_client c \<Rightarrow> writes R_tenant (create_tenant (he_admin env) c user d) | _ \<Rightarrow> rejected d)"
| "admin_handler bc conv env Ep_list_tenants ps q b user d =
     with_query q (\<lambda>x d. reads R_tenants (list_tenants (q_page x) (q_per_page x) (q_status x) (q_search x) user d) d) d"
| "admin_handler bc conv env Ep_get_tenant ps q b user d =
     int_param conv ps (\<lambda>i d. reads R_tenant (get_tenant i user d) d) d"
| "admin_handler bc conv env Ep_update_tenant ps q b user d =
     (case b of Body_client_update c \<Rightarrow>
        int_param conv ps (\<lambda>i d. writes R_tenant (update_tenant (he_admin env) i c user d)) d
      | _ \<Rightarrow> rejected d)"
| "admin_handler bc conv env Ep_delete_tenant ps q b user d =
     int_param conv ps (\<lambda>i d. writes (\<lambda>_. R_no_content) (delete_tenant (he_admin env) i user d)) d"
| "admin_handler bc conv env Ep_get_tenant_stats ps q b user d =
     int_param conv ps (\<lambda>i d. reads R_tenant_stats (get_tenant_stats (he_now env) i user d) d) d"
| "admin_handler bc conv env Ep_list_audit_logs ps q b user d =
     with_query q (\<lambda>x d. reads R_audit_logs
       (list_audit_logs (q_page x) (q_per_page x) (q_tenant_id x) (q_action x) user d) d) d"

definition client_role_check :: "client_endpoint \<Rightarrow> claims \<Rightarrow> unit http" where
  "client_role_check e user =
     map_sum id (\<lambda>_. ())
       (if e \<in> set [Ep_get_analytics, Ep_list_my_users, Ep_get_my_user, Ep_list_phone_numbers]
        then require_client_admin user else require_client user)"

fun client_handler ::
  "(string \<Rightarrow> int option) \<Rightarrow> http_env \<Rightarrow> client_endpoint \<Rightarrow> string list \<Rightarrow> query option \<Rightarrow> 't body \<Rightarrow> claims
     \<Rightarrow> database \<Rightarrow> database \<times> 't api_response http" where
  "client_handler conv env Ep_get_my_profile ps q b user d = reads R_profile (get_my_profile user d) d"
| "client_handler conv env Ep_list_my_calls ps q b user d =
     with_query q (\<lambda>x d. reads R_calls (client_list_calls (q_page x) (q_per_page x) (q_search x) user d) d) d"
| "client_handler conv env Ep_get_my_call ps q b user d =
     int_param conv ps (\<lambda>i d. reads R_call (client_get_call i user d) d) d"
| "client_handler conv env Ep_get_analytics ps q b user d =
     reads R_analytics (get_analytics (he_now env) (he_now2 env) (he_now3 env) user d) d"
| "client_handler conv env Ep_list_my_users ps q b user d =
     with_query q (\<lambda>x d. reads R_users
       (client_list_users (q_page x) (q_per_page x) (q_role x) (q_status x) user d) d) d"
| "client_handler conv env Ep_get_my_user ps q b user d = reads R_user (client_get_user (hd ps) user d) d"
| "client_handler conv env Ep_list_phone_numbers ps q b user d =
     with_query q (\<lambda>x d. reads R_phone_numbers (list_phone_numbers (q_page x) (q_per_page x) user d) d) d"
| "client_handler conv env Ep_list_customers ps q b user d =
     with_query q (\<lambda>x d. reads R_customers
       (serve_customers (list_customers (q_page x) (q_per_page x) (q_search x) user d)) d) d"
| "client_handler conv env Ep_get_customer ps q b user d =
     reads R_customer (serve_customer (get_customer (hd ps) user d)) d"
| "client_handler conv env Ep_save_customer ps q b user d =
     (case b of Body_customer c \<Rightarrow>
        writes (R_customer \<circ> customer_response_of) (create_or_update_customer (he_now env) (he_uuid env) c user d)
      | _ \<Rightarrow> rejected d)"
| "client_handler conv env Ep_update_customer ps q b user d =
     (case b of Body_customer_update c \<Rightarrow>
        writes (R_customer \<circ> customer_response_of) (update_customer (he_now env) (hd ps) c user d)
      | _ \<Rightarrow> rejected d)"

text \<open>The internal routes answer with what the handler returns; \<open>on_db\<close> runs a handler on the database.\<close>

definition answers :: "('a \<Rightarrow> 'r) \<Rightarrow> api_state \<times> 'a http \<Rightarrow> api_state \<times> 'r http" where
  "answers f w = (fst w, map_sum id f (snd w))"

fun internal_handler ::
  "http_env \<Rightarrow> internal_endpoint \<Rightarrow> string list \<Rightarrow> query option \<Rightarrow> 't body \<Rightarrow> api_state
     \<Rightarrow> api_state \<times> 't api_response http" where
  "internal_handler env Ep_create_call ps q b s =
     (case b of Body_call c \<Rightarrow> answers R_call_created (on_db (create_call (he_py env) c) s) | _ \<Rightarrow> rejected s)"
| "internal_handler env Ep_get_call_state ps q b s = answers R_call_state (s, get_call (hd ps) (db s))"
| "internal_handler env Ep_finalize_call ps q b s =
     (case b of Body_finalize c \<Rightarrow> answers R_finalized (on_db (finalize_call (hd ps) c) s) | _ \<Rightarrow> rejected s)"
| "internal_handler env Ep_get_phone_route ps q b s = answers R_phone_route (s, get_phone_route (hd ps) (db s))"
| "internal_handler env Ep_create_event ps q b s =
     (case b of Body_event c \<Rightarrow> answers R_event_created (create_event (he_redis env) (he_now env) (he_uuid env) c s)
      | _ \<Rightarrow> rejected s)"
| "internal_handler env Ep_list_events ps q b s =
     with_query q (\<lambda>x s. answers R_events (s, list_eligible_events (he_now env) (q_statuses x) (q_limit x) (db s))) s"
| "internal_handler env Ep_get_event ps q b s = answers R_event (s, get_event (hd ps) (db s))"
| "internal_handler env Ep_claim_event ps q b s = answers R_event (on_db (claim_event (he_now env) (hd ps)) s)"
| "internal_handler env Ep_complete_event ps q b s = answers R_event (on_db (complete_event (he_now env) (hd ps)) s)"
| "internal_handler env Ep_fail_event ps q b s =
     (case b of Body_fail c \<Rightarrow> answers R_event (on_db (fail_event (he_now env) (he_py env) (hd ps) c) s)
      | _ \<Rightarrow> rejected s)"
| "internal_handler env Ep_reap ps q b s =
     (case on_db (reap_stale_jobs (he_now env) (he_py env)) s of (s', ids) \<Rightarrow> (s', Inr (R_reaped ids)))"

section \<open>The application\<close>

definition set_db :: "database \<Rightarrow> app \<Rightarrow> app" where
  "set_db d s = s\<lparr>ap_api := (ap_api s)\<lparr>db := d\<rparr>\<rparr>"

abbreviation app_db :: "app \<Rightarrow> database" where
  "app_db s \<equiv> db (ap_api s)"

text \<open>A handler behind a role check, on the database of the application.\<close>

definition on_app ::
  "unit http \<Rightarrow> (database \<Rightarrow> database \<times> 'r http) \<Rightarrow> app \<Rightarrow> app \<times> 'r http" where
  "on_app role h s =
     (case role of Inl e \<Rightarrow> (s, Inl e) | Inr _ \<Rightarrow> (case h (app_db s) of (d, r) \<Rightarrow> (set_db d s, r)))"

fun main_handler ::
  "'t server \<Rightarrow> http_env \<Rightarrow> main_endpoint \<Rightarrow> 't body \<Rightarrow> claims \<Rightarrow> app \<Rightarrow> app \<times> 't api_response http" where
  "main_handler sv env Ep_health b user s = (s, Inr (case health (he_deps env) of (status, j) \<Rightarrow> R_json status j))"
| "main_handler sv env Ep_metrics b user s =
     (case metrics_endpoint (he_deps env) (he_now env) user (ap_metrics s) of
        (reg, r) \<Rightarrow> (s\<lparr>ap_metrics := reg\<rparr>, map_sum id (R_json 200) r))"
| "main_handler sv env Ep_root b user s = (s, Inr (R_json 200 root_info))"
| "main_handler sv env Ep_keepalive b user s = (s, Inr (R_json 200 (keepalive (he_deps env))))"
| "main_handler sv env Ep_login b user s =
     (case b of Body_login c \<Rightarrow>
        (s, map_sum id R_tokens (login (sv_jwt sv) (sv_bcrypt sv) (sv_auth sv) (he_now env) c (app_db s)))
      | _ \<Rightarrow> rejected s)"
| "main_handler sv env Ep_refresh b user s =
     (case b of Body_refresh t \<Rightarrow>
        (s, map_sum id R_tokens (refresh_token (sv_jwt sv) (sv_auth sv) (he_now env) t))
      | _ \<Rightarrow> rejected s)"
| "main_handler sv env Ep_logout b user s = (s, Inr R_no_content)"
| "main_handler sv env Ep_me b user s = (s, map_sum id R_me (me user))"
| "main_handler sv env Ep_make_call b user s =
     (case b of Body_caller c \<Rightarrow>
        (case make_call (he_net env) (he_now env) (he_serial env) (he_session_id env) user c
                \<lparr>cp_db = app_db s, cp_redis = ap_sessions s\<rparr> of
           (w, r) \<Rightarrow> ((set_db (cp_db w) s)\<lparr>ap_sessions := cp_redis w\<rparr>, map_sum id R_placed r))
      | _ \<Rightarrow> rejected s)"

text \<open>The claims a public route is given: it has no parameter for them.\<close>

definition anonymous :: claims where
  "anonymous = \<lparr>cm_sub = None, cm_role = None, cm_exp = 0, cm_type = None, cm_email = None, cm_full_name = None,
     cm_client_id = None\<rparr>"

text \<open>The endpoints that take a signed-in user.\<close>

fun user_handler ::
  "'t server \<Rightarrow> http_env \<Rightarrow> api_endpoint \<Rightarrow> string list \<Rightarrow> 't http_request \<Rightarrow> claims \<Rightarrow> app \<Rightarrow> app \<times> 't api_response http" where
  "user_handler sv env (Admin_ep e) ps q user s =
     on_app (admin_role_check e user)
       (admin_handler (sv_bcrypt sv) (sv_int sv) env e ps (hr_query q) (hr_body q) user) s"
| "user_handler sv env (Client_ep e) ps q user s =
     on_app (client_role_check e user) (client_handler (sv_int sv) env e ps (hr_query q) (hr_body q) user) s"
| "user_handler sv env (Internal_ep e) ps q user s = rejected s"
| "user_handler sv env (Main_ep e) ps q user s = main_handler sv env e (hr_body q) user s"

definition internal_route ::
  "'t server \<Rightarrow> http_env \<Rightarrow> internal_endpoint \<Rightarrow> string list \<Rightarrow> 't http_request \<Rightarrow> api_state
     \<Rightarrow> api_state \<times> 't api_response http" where
  "internal_route sv env e ps q =
     guarded verify_internal_token (sv_secret sv) (hr_internal q) (internal_handler env e ps (hr_query q) (hr_body q))"

text \<open>A route with the dependencies that authenticate the caller.\<close>

definition serve ::
  "'t server \<Rightarrow> http_env \<Rightarrow> api_endpoint \<Rightarrow> string list \<Rightarrow> 't http_request \<Rightarrow> app \<Rightarrow> app \<times> 't api_response http" where
  "serve sv env e ps q s =
     (case guard_of e of
        Public \<Rightarrow> user_handler sv env e ps q anonymous s
      | Bearer \<Rightarrow>
          (case get_current_user (sv_jwt sv) (sv_auth sv) (he_now env) (hr_bearer q) of
             Inl err \<Rightarrow> (s, Inl err)
           | Inr user \<Rightarrow> user_handler sv env e ps q user s)
      | Internal_token \<Rightarrow>
          (case e of
             Internal_ep i \<Rightarrow>
               (case internal_route sv env i ps q (ap_api s) of (a, r) \<Rightarrow> (s\<lparr>ap_api := a\<rparr>, r))
           | _ \<Rightarrow> rejected s))"

definition call_next ::
  "'t server \<Rightarrow> http_env \<Rightarrow> 't http_request \<Rightarrow> app \<Rightarrow> app \<times> 't api_response http" where
  "call_next sv env q s =
     (case dispatch api_routes (hr_method q) (hr_path q) of
        Found e ps \<Rightarrow> serve sv env e ps q s
      | Method_not_allowed \<Rightarrow> (s, Inl (HTTPException 405 ''Method Not Allowed''))
      | Slash_redirect \<Rightarrow> (s, Inr (R_redirect (other_slash (hr_path q))))
      | Not_found \<Rightarrow> (s, Inl (HTTPException 404 ''Not Found'')))"

text \<open>The status of a successful answer, as the decorators declare it.\<close>

fun answer_status :: "'t api_response \<Rightarrow> http_method \<Rightarrow> nat" where
  "answer_status (R_json status j) m = status"
| "answer_status R_no_content m = 204"
| "answer_status (R_redirect p) m = 307"
| "answer_status (R_call_created r) m = 201"
| "answer_status (R_event_created r) m = 201"
| "answer_status (R_client r) m = (if m = POST then 201 else 200)"
| "answer_status (R_tenant r) m = (if m = POST then 201 else 200)"
| "answer_status (R_account r) m = (if m = POST then 201 else 200)"
| "answer_status (R_customer r) m = (if m = POST then 201 else 200)"
| "answer_status _ m = 200"

text \<open>The whole application: the route under the middleware.\<close>

definition api_app ::
  "'t server \<Rightarrow> http_env \<Rightarrow> 't http_request \<Rightarrow> app \<Rightarrow> app \<times> 't api_response http" where
  "api_app sv env q s =
     (case call_next sv env q s of (s', r) \<Rightarrow>
        (s'\<lparr>ap_metrics := request_logging (he_start env) (he_finish env)
              (map_sum id (\<lambda>x. answer_status x (hr_method q)) r) (ap_metrics s')\<rparr>, r))"

end
