(* ===== verification/HttpAccess.thy ===== *)
theory HttpAccess
  imports HttpServer
begin

text \<open>
  Who reaches which handler of the API. A caller without credentials changes nothing and learns of
  the database only what a login says. The requests of the worker and of the gateway, as the URLs
  their clients write, arrive at the handlers the models of the clients call.
\<close>

section \<open>Callers without credentials\<close>

text \<open>No valid access token and not the shared secret.\<close>

definition no_credentials :: "'t server \<Rightarrow> http_env \<Rightarrow> 't http_request \<Rightarrow> bool" where
  "no_credentials sv env q =
     (\<not> is_ok (get_current_user (sv_jwt sv) (sv_auth sv) (he_now env) (hr_bearer q))
      \<and> \<not> is_ok (verify_internal_token (sv_secret sv) (hr_internal q)))"

text \<open>Everything of the state but the metrics.\<close>

definition same_data :: "app \<Rightarrow> app \<Rightarrow> bool" where
  "same_data s t = (ap_api s = ap_api t \<and> ap_sessions s = ap_sessions t)"

lemma same_data_refl [simp]: "same_data s s"
  by (simp add: same_data_def)

lemma guarded_refused:
  "\<not> is_ok (verify_internal_token secret header) \<Longrightarrow>
    guarded verify_internal_token secret header h s = (s, Inl (projl (verify_internal_token secret header)))"
  by (cases "verify_internal_token secret header") (simp_all add: guarded_def)

lemma public_handler:
  assumes "guard_of e = Public"
  shows "fst (user_handler sv env e ps q anonymous s) = s"
    and "t_admin_users (app_db s) = t_admin_users (app_db t) \<Longrightarrow>
      snd (user_handler sv env e ps q anonymous s) = snd (user_handler sv env e ps q anonymous t)"
    and "snd (user_handler sv env e ps q anonymous s) = Inr r \<Longrightarrow> (\<exists>status j. r = R_json status j) \<or> (\<exists>ts. r = R_tokens ts)"
proof -
  obtain m where e: "e = Main_ep m" "m \<notin> {Ep_metrics, Ep_logout, Ep_me, Ep_make_call}"
    using assms by (cases e) (auto split: if_splits)
  show "fst (user_handler sv env e ps q anonymous s) = s"
    using e by (cases m) (auto simp: rejected_def split: body.split)
  show "t_admin_users (app_db s) = t_admin_users (app_db t) \<Longrightarrow>
      snd (user_handler sv env e ps q anonymous s) = snd (user_handler sv env e ps q anonymous t)"
    using e by (cases m) (auto simp: rejected_def login_def split: body.split)
  show "snd (user_handler sv env e ps q anonymous s) = Inr r \<Longrightarrow> (\<exists>status j. r = R_json status j) \<or> (\<exists>ts. r = R_tokens ts)"
    using e by (cases m)
      (auto simp: rejected_def map_sum_def split: body.splits prod.splits sum.splits)
qed

lemma serve_unauthenticated:
  assumes "no_credentials sv env q"
  shows "fst (serve sv env e ps q s) = s"
    and "t_admin_users (app_db s) = t_admin_users (app_db t) \<Longrightarrow> snd (serve sv env e ps q s) = snd (serve sv env e ps q t)"
    and "guard_of e \<noteq> Public \<Longrightarrow> \<exists>err. snd (serve sv env e ps q s) = Inl err \<and> status_code err \<in> {401, 500}"
    and "snd (serve sv env e ps q s) = Inr r \<Longrightarrow> (\<exists>status j. r = R_json status j) \<or> (\<exists>ts. r = R_tokens ts)"
proof -
  obtain err where user: "get_current_user (sv_jwt sv) (sv_auth sv) (he_now env) (hr_bearer q) = Inl err"
    using assms by (cases "get_current_user (sv_jwt sv) (sv_auth sv) (he_now env) (hr_bearer q)")
      (auto simp: no_credentials_def)
  then have c401: "status_code err = 401" by (auto simp: get_current_user_def split: option.splits if_splits)
  note secret = assms [unfolded no_credentials_def, THEN conjunct2]
  then obtain err' where "verify_internal_token (sv_secret sv) (hr_internal q) = Inl err'"
    by (cases "verify_internal_token (sv_secret sv) (hr_internal q)") auto
  with verify_error_status have c500: "status_code (projl (verify_internal_token (sv_secret sv) (hr_internal q))) \<in> {401, 500}"
    by fastforce
  note internal = guarded_refused [OF secret]
  show "fst (serve sv env e ps q s) = s"
    using user public_handler(1) [of e]
    by (cases e) (auto simp: serve_def internal_route_def internal split: guard.split)
  show "t_admin_users (app_db s) = t_admin_users (app_db t) \<Longrightarrow> snd (serve sv env e ps q s) = snd (serve sv env e ps q t)"
    using user public_handler(2) [of e]
    by (cases e) (auto simp: serve_def internal_route_def internal split: guard.split)
  have closed: "\<exists>err. snd (serve sv env e ps q s) = Inl err \<and> status_code err \<in> {401, 500}" if "guard_of e \<noteq> Public"
    using that user c401 c500
    by (cases e) (auto simp: serve_def internal_route_def internal split: guard.split)
  then show "guard_of e \<noteq> Public \<Longrightarrow> \<exists>err. snd (serve sv env e ps q s) = Inl err \<and> status_code err \<in> {401, 500}" .
  assume r: "snd (serve sv env e ps q s) = Inr r"
  with closed have e: "guard_of e = Public" by fastforce
  with r public_handler(3) [OF e, of sv env ps q s r]
  show "(\<exists>status j. r = R_json status j) \<or> (\<exists>ts. r = R_tokens ts)" by (simp add: serve_def)
qed

lemma api_app_data: "same_data (fst (api_app sv env q s)) (fst (call_next sv env q s))"
  "snd (api_app sv env q s) = snd (call_next sv env q s)"
  by (simp_all add: api_app_def same_data_def split: prod.split)

definition demo_server :: "(string \<times> claims) server" where
  "demo_server =
     \<lparr>sv_jwt = demo_jwt, sv_bcrypt = demo_bcrypt, sv_auth = demo_auth, sv_secret = ''s3cret'', sv_int = (\<lambda>_. Some 7)\<rparr>"

definition demo_http_env :: "string \<Rightarrow> int \<Rightarrow> http_env" where
  "demo_http_env uuid serial =
     \<lparr>he_start = 0, he_now = 0, he_now2 = 0, he_now3 = 0, he_py = 0, he_finish = 1000, he_uuid = uuid, he_serial = serial,
      he_session_id = ''sid'', he_net = Delivered, he_redis = Redis_up, he_admin = AdminApi.demo_env,
      he_deps = \<lparr>db_answers = True, redis_answers = Some True\<rparr>\<rparr>"

definition demo_app :: "database \<Rightarrow> app" where
  "demo_app d = \<lparr>ap_api = \<lparr>db = d, wake_queue = []\<rparr>, ap_sessions = None, ap_metrics = metrics_registry\<rparr>"

definition demo_http ::
  "http_method \<Rightarrow> string \<Rightarrow> (string \<times> claims) option \<Rightarrow> (string \<times> claims) body \<Rightarrow> (string \<times> claims) http_request" where
  "demo_http m path token b =
     \<lparr>hr_method = m, hr_path = path, hr_bearer = token, hr_internal = None, hr_query = None, hr_body = b\<rparr>"



section \<open>The clients of the internal routes\<close>

text \<open>
  The clients build a URL by putting an identifier between slashes, without quoting it. What the server
  takes for the path ends at a question or number sign; a segment of letters, digits and the four
  marks below needs no encoding on the way.
\<close>

definition wire_path :: "string \<Rightarrow> string" where
  "wire_path p = takeWhile (\<lambda>c. c \<noteq> CHR 63 \<and> c \<noteq> CHR 35) p"

definition url_char :: "char \<Rightarrow> bool" where
  "url_char c =
     (let n = (of_char c :: nat)
      in 48 \<le> n \<and> n \<le> 57 \<or> 65 \<le> n \<and> n \<le> 90 \<or> 97 \<le> n \<and> n \<le> 122 \<or> n = 43 \<or> n = 45 \<or> n = 95 \<or> n = 126)"

definition url_safe :: "string \<Rightarrow> bool" where
  "url_safe s = (s \<noteq> [] \<and> list_all url_char s)"

definition internal_http ::
  "http_method \<Rightarrow> string \<Rightarrow> string option \<Rightarrow> query option \<Rightarrow> 't body \<Rightarrow> 't http_request" where
  "internal_http m path header q b =
     \<lparr>hr_method = m, hr_path = wire_path path, hr_bearer = None, hr_internal = header, hr_query = q, hr_body = b\<rparr>"

text \<open>A client's request served by the application, read back with the model the client expects.\<close>

definition via_server ::
  "'t server \<Rightarrow> http_env \<Rightarrow> net \<Rightarrow> ('t api_response \<Rightarrow> 'a) \<Rightarrow> 't http_request \<Rightarrow> app \<Rightarrow> api_state \<times> 'a reply" where
  "via_server sv env n un q s =
     (case over_http n (call_next sv env q) s of
        (s', TransportError) \<Rightarrow> (ap_api s', TransportError)
      | (s', Reply r) \<Rightarrow> (ap_api s', Reply (map_sum id un r)))"

definition events_query :: "string list \<Rightarrow> int \<Rightarrow> query" where
  "events_query statuses limit =
     \<lparr>q_page = 1, q_per_page = 20, q_search = None, q_role = None, q_status = None, q_tenant_id = None,
      q_action = None, q_statuses = statuses, q_limit = limit\<rparr>"

lemma url_char_plain: "\<not> url_char CHR 47" "\<not> url_char CHR 63" "\<not> url_char CHR 35"
  by (simp_all add: url_char_def)

lemma url_safe_chars: "url_safe s \<Longrightarrow> s \<noteq> []" "url_safe s \<Longrightarrow> c \<in> set s \<Longrightarrow> c \<notin> {CHR 47, CHR 63, CHR 35}"
  using url_char_plain by (auto simp: url_safe_def list_all_iff)

lemma wire_path_safe:
  "url_safe s \<Longrightarrow> wire_path (s @ t) = s @ wire_path t" "url_safe s \<Longrightarrow> wire_path s = s"
  "c \<noteq> CHR 63 \<Longrightarrow> c \<noteq> CHR 35 \<Longrightarrow> wire_path (c # t) = c # wire_path t" "wire_path (CHR 63 # t) = []" "wire_path [] = []"
  using url_safe_chars(2) [of s] by (simp_all add: wire_path_def takeWhile_append2 takeWhile_eq_all_conv)

lemma py_split_safe:
  assumes "url_safe s"
  shows "py_split CHR 47 s = [s]" "py_split CHR 47 (s @ CHR 47 # t) = s # py_split CHR 47 t"
proof -
  have "CHR 47 \<notin> set s" using url_safe_chars(2) [OF assms, of "CHR 47"] by blast
  then show "py_split CHR 47 s = [s]" "py_split CHR 47 (s @ CHR 47 # t) = s # py_split CHR 47 t"
    by (simp_all add: py_split_append py_split_plain)
qed

text \<open>A route of the internal routers serves what its guarded handler does.\<close>

lemma over_http_answers:
  assumes "\<And>r. un (f r) = r"
    and "call_next sv env q s = (case guarded v secret h (\<lambda>a. answers f (g a)) (ap_api s) of (a, r) \<Rightarrow> (s\<lparr>ap_api := a\<rparr>, r))"
  shows "via_server sv env n un q s = over_http n (guarded v secret h g) (ap_api s)"
proof -
  have "map_sum id un (map_sum id f r) = r" for r :: "'a http"
    using assms(1) by (cases r) simp_all
  with assms(2) show ?thesis
    by (cases n; cases "v secret h")
      (auto simp: via_server_def guarded_def answers_def split: prod.splits)
qed

lemma internal_reached:
  assumes "\<lparr>ro_method = m, ro_path = p, ro_endpoint = Internal_ep e\<rparr> \<in> set api_routes"
    and "match_path (wire_path path) \<lparr>ro_method = m, ro_path = p, ro_endpoint = Internal_ep e\<rparr> = Some ps"
    and "\<And>r. un (f r) = r"
    and "\<And>a. internal_handler env e ps q b a = answers f (g a)"
  shows "via_server sv env n un (internal_http m path header q b) s =
    over_http n (guarded verify_internal_token (sv_secret sv) header g) (ap_api s)"
proof (rule over_http_answers [OF assms(3)])
  have "dispatch api_routes m (wire_path path) = Found (Internal_ep e) ps"
    using dispatch_found [OF api_unambiguous assms(1,2)] by simp
  moreover have "internal_handler env e ps q b = (\<lambda>a. answers f (g a))" using assms(4) by blast
  ultimately show "call_next sv env (internal_http m path header q b) s =
      (case guarded verify_internal_token (sv_secret sv) header (\<lambda>a. answers f (g a)) (ap_api s) of
         (a, r) \<Rightarrow> (s\<lparr>ap_api := a\<rparr>, r))"
    by (simp add: call_next_def internal_http_def serve_def internal_route_def)
qed

lemma internal_routes:
  "\<lparr>ro_method = POST, ro_path = ''/internal/v1/events/{job_id}/claim'', ro_endpoint = Internal_ep Ep_claim_event\<rparr> \<in> set api_routes"
  "\<lparr>ro_method = POST, ro_path = ''/internal/v1/events/{job_id}/complete'', ro_endpoint = Internal_ep Ep_complete_event\<rparr> \<in> set api_routes"
  "\<lparr>ro_method = POST, ro_path = ''/internal/v1/events/{job_id}/fail'', ro_endpoint = Internal_ep Ep_fail_event\<rparr> \<in> set api_routes"
  "\<lparr>ro_method = POST, ro_path = ''/internal/v1/events/reap'', ro_endpoint = Internal_ep Ep_reap\<rparr> \<in> set api_routes"
  "\<lparr>ro_method = GET, ro_path = ''/internal/v1/events'', ro_endpoint = Internal_ep Ep_list_events\<rparr> \<in> set api_routes"
  "\<lparr>ro_method = POST, ro_path = ''/internal/v1/events'', ro_endpoint = Internal_ep Ep_create_event\<rparr> \<in> set api_routes"
  "\<lparr>ro_method = POST, ro_path = ''/internal/v1/calls'', ro_endpoint = Internal_ep Ep_create_call\<rparr> \<in> set api_routes"
  "\<lparr>ro_method = GET, ro_path = ''/internal/v1/calls/{call_id}'', ro_endpoint = Internal_ep Ep_get_call_state\<rparr> \<in> set api_routes"
  "\<lparr>ro_method = POST, ro_path = ''/internal/v1/calls/{call_id}/finalize'', ro_endpoint = Internal_ep Ep_finalize_call\<rparr> \<in> set api_routes"
  "\<lparr>ro_method = GET, ro_path = ''/internal/v1/phone-routes/{number}'', ro_endpoint = Internal_ep Ep_get_phone_route\<rparr> \<in> set api_routes"
  by (simp_all add: api_routes_def include_router_def internal_router_def jobs_router_def)

text \<open>C7. The services find each other's handlers: every request that the worker's and the gateway's clients
  make of the API, with the method, URL and body they write, is dispatched to the handler that their
  models call directly, behind the token check, and with the identifier the client meant, whatever
  the network does; the identifiers are non-empty and made of letters, digits and the marks + - _ ~.\<close>

theorem clients_reach_their_handlers:
  assumes "url_safe jid" "url_safe cid" "url_safe number"
  shows
    "via_server sv env n un_event (internal_http POST (event_path jid ''claim'') hdr None No_body) s
        = over_http n (guarded verify_internal_token (sv_secret sv) hdr (on_db (claim_event (he_now env) jid))) (ap_api s)
    \<and> via_server sv env n un_event (internal_http POST (event_path jid ''complete'') hdr None No_body) s
        = over_http n (guarded verify_internal_token (sv_secret sv) hdr (on_db (complete_event (he_now env) jid))) (ap_api s)
    \<and> via_server sv env n un_event (internal_http POST (event_path jid ''fail'') hdr None (Body_fail b)) s
        = over_http n (guarded verify_internal_token (sv_secret sv) hdr (on_db (fail_event (he_now env) (he_py env) jid b))) (ap_api s)
    \<and> via_server sv env n un_reaped (internal_http POST ''/internal/v1/events/reap'' hdr None No_body) s
        = over_http n (guarded verify_internal_token (sv_secret sv) hdr (on_db (\<lambda>d. apsnd Inr (reap_stale_jobs (he_now env) (he_py env) d)))) (ap_api s)
    \<and> via_server sv env n un_events (internal_http GET ''/internal/v1/events'' hdr (Some (events_query statuses limit)) No_body) s
        = over_http n (guarded verify_internal_token (sv_secret sv) hdr (\<lambda>a. (a, list_eligible_events (he_now env) statuses limit (db a)))) (ap_api s)
    \<and> via_server sv env n un_event_created (internal_http POST ''/internal/v1/events'' hdr None (Body_event ev)) s
        = over_http n (guarded verify_internal_token (sv_secret sv) hdr (create_event (he_redis env) (he_now env) (he_uuid env) ev)) (ap_api s)
    \<and> via_server sv env n un_call_created (internal_http POST ''/internal/v1/calls'' hdr None (Body_call c)) s
        = over_http n (guarded verify_internal_token (sv_secret sv) hdr (on_db (create_call (he_py env) c))) (ap_api s)
    \<and> via_server sv env n un_call_state (internal_http GET (''/internal/v1/calls/'' @ cid) hdr None No_body) s
        = over_http n (guarded verify_internal_token (sv_secret sv) hdr (\<lambda>a. (a, get_call cid (db a)))) (ap_api s)
    \<and> via_server sv env n un_finalized (internal_http POST (''/internal/v1/calls/'' @ cid @ ''/finalize'') hdr None (Body_finalize f)) s
        = over_http n (guarded verify_internal_token (sv_secret sv) hdr (on_db (finalize_call cid f))) (ap_api s)
    \<and> via_server sv env n un_phone_route (internal_http GET (''/internal/v1/phone-routes/'' @ number) hdr None No_body) s
        = over_http n (guarded verify_internal_token (sv_secret sv) hdr (\<lambda>a. (a, get_phone_route number (db a)))) (ap_api s)"
proof -
  note split = event_path_def match_path_def wire_path_safe py_split_safe url_safe_chars(1) assms compile_path_def
    with_query_def events_query_def on_db_def answers_def
  show ?thesis
  proof (intro conjI, goal_cases)
    case 1
    show ?case by (rule internal_reached [OF internal_routes(1), where f = R_event and ps = "[jid]"]) (simp_all add: split)
  next
    case 2
    show ?case by (rule internal_reached [OF internal_routes(2), where f = R_event and ps = "[jid]"]) (simp_all add: split)
  next
    case 3
    show ?case by (rule internal_reached [OF internal_routes(3), where f = R_event and ps = "[jid]"]) (simp_all add: split)
  next
    case 4
    show ?case by (rule internal_reached [OF internal_routes(4), where f = R_reaped and ps = "[]"])
        (simp_all add: split apsnd_def map_prod_def split: prod.split)
  next
    case 5
    show ?case by (rule internal_reached [OF internal_routes(5), where f = R_events and ps = "[]"]) (simp_all add: split)
  next
    case 6
    show ?case by (rule internal_reached [OF internal_routes(6), where f = R_event_created and ps = "[]"]) (simp_all add: split)
  next
    case 7
    show ?case by (rule internal_reached [OF internal_routes(7), where f = R_call_created and ps = "[]"]) (simp_all add: split)
  next
    case 8
    show ?case by (rule internal_reached [OF internal_routes(8), where f = R_call_state and ps = "[cid]"]) (simp_all add: split)
  next
    case 9
    show ?case by (rule internal_reached [OF internal_routes(9), where f = R_finalized and ps = "[cid]"]) (simp_all add: split)
  next
    case 10
    show ?case by (rule internal_reached [OF internal_routes(10), where f = R_phone_route and ps = "[number]"]) (simp_all add: split)
  qed
qed

theorem clients_reach_their_handlers_witness:
  "via_server demo_server (demo_http_env ''u'' 1) Delivered un_event
     (internal_http POST (event_path ''a'' ''claim'') (Some ''s3cret'') None No_body) (demo_app (db demo_state))
   = over_http Delivered (on_db (claim_event 0 ''a'')) (ap_api (demo_app (db demo_state)))"
proof -
  have "url_safe ''a''" by code_simp
  from clients_reach_their_handlers [OF this this this, of demo_server "demo_http_env ''u'' 1" Delivered "Some ''s3cret''"]
  show ?thesis
    by (simp add: demo_server_def demo_http_env_def guarded_cases is_ascii_def)
qed

text \<open>A number that is not plain is cut: what follows a question mark is not part of the path.\<close>

lemma unquoted_number_is_cut:
  assumes "url_safe number"
  shows "via_server sv env n un_phone_route (internal_http GET (''/internal/v1/phone-routes/'' @ number @ CHR 63 # rest) hdr None No_body) s
    = over_http n (guarded verify_internal_token (sv_secret sv) hdr (\<lambda>a. (a, get_phone_route number (db a)))) (ap_api s)"
  by (rule internal_reached [OF internal_routes(10), where f = R_phone_route and ps = "[number]"])
    (use assms in \<open>simp_all add: match_path_def wire_path_safe py_split_safe url_safe_chars(1) compile_path_def\<close>)

text \<open>The paths of the worker's health check, of the events it hands on, and of the provider's callback.\<close>

lemma service_paths:
  "dispatch api_routes GET ''/health'' = Found (Main_ep Ep_health) []"
  "dispatch integration_routes POST ''/internal/v1/process'' = Found Ep_process []"
  "dispatch gateway_routes GET ''/telephony/exotel/callback'' = Found Ep_callback []"
  "dispatch gateway_routes POST ''/telephony/exotel/callback'' = Found Ep_callback []"
  by code_simp+

end
