(* ===== verification/Noninterference.thy ===== *)
theory Noninterference
  imports HttpAccess
begin

text \<open>
  Tenants cannot influence each other through the API. The interface \<open>unwinding\<close> states what has to
  be shown of single requests: the answer and what a tenant can see next depend only on what the
  tenant sees, and requests of others leave it alone. Its theorem concludes for whole runs that
  removing the requests of all other tenants changes nothing a tenant observes.
\<close>

section \<open>Unwinding\<close>

text \<open>What one domain is answered in a run.\<close>

fun observed :: "('s \<Rightarrow> 'e \<Rightarrow> 's) \<Rightarrow> ('s \<Rightarrow> 'e \<Rightarrow> 'o) \<Rightarrow> ('e \<Rightarrow> bool) \<Rightarrow> 's \<Rightarrow> 'e list \<Rightarrow> 'o list" where
  "observed step out own s [] = []"
| "observed step out own s (e # es) = (if own e then [out s e] else []) @ observed step out own (step s e) es"

text \<open>
  \<open>ok s es\<close>: the events \<open>es\<close> may follow in state \<open>s\<close>. Two states look the same to a domain when it has
  the same \<open>view\<close> of them.
\<close>

locale unwinding =
  fixes step :: "'s \<Rightarrow> 'e \<Rightarrow> 's"
    and out :: "'s \<Rightarrow> 'e \<Rightarrow> 'o"
    and dom_of :: "'e \<Rightarrow> 'd"
    and view :: "'d \<Rightarrow> 's \<Rightarrow> 'v"
    and ok :: "'s \<Rightarrow> 'e list \<Rightarrow> bool"
  assumes ok_step: "ok s (e # es) \<Longrightarrow> ok (step s e) es"
    and ok_filter: "ok s es \<Longrightarrow> ok s (filter P es)"
    and output_consistent:
      "ok s (e # es) \<Longrightarrow> ok t (e # es') \<Longrightarrow> view (dom_of e) s = view (dom_of e) t \<Longrightarrow> out s e = out t e"
    and step_consistent:
      "ok s (e # es) \<Longrightarrow> ok t (e # es') \<Longrightarrow> view (dom_of e) s = view (dom_of e) t
        \<Longrightarrow> view (dom_of e) (step s e) = view (dom_of e) (step t e)"
    and locally_respects: "ok s (e # es) \<Longrightarrow> dom_of e \<noteq> u \<Longrightarrow> view u (step s e) = view u s"
begin

lemma purged_run:
  assumes "ok s es" "ok t (filter (\<lambda>e. dom_of e = u) es)" "view u s = view u t"
  shows "observed step out (\<lambda>e. dom_of e = u) s es = observed step out (\<lambda>e. dom_of e = u) t (filter (\<lambda>e. dom_of e = u) es)
    \<and> view u (run step s es) = view u (run step t (filter (\<lambda>e. dom_of e = u) es))"
  using assms
proof (induction es arbitrary: s t)
  case (Cons e es)
  note s' = ok_step [OF Cons.prems(1)]
  show ?case
  proof (cases "dom_of e = u")
    case True
    then have t: "ok t (e # filter (\<lambda>e. dom_of e = u) es)" using Cons.prems(2) by simp
    have v: "view (dom_of e) s = view (dom_of e) t" using True Cons.prems(3) by simp
    from output_consistent [OF Cons.prems(1) t v] step_consistent [OF Cons.prems(1) t v]
      Cons.IH [OF s' ok_step [OF t]] True
    show ?thesis by simp
  next
    case False
    with Cons.IH [OF s', of t] Cons.prems(2,3) locally_respects [OF Cons.prems(1) False] show ?thesis by simp
  qed
qed simp

lemma noninterference:
  assumes "ok s es"
  shows "observed step out (\<lambda>e. dom_of e = u) s es = observed step out (\<lambda>e. dom_of e = u) s (filter (\<lambda>e. dom_of e = u) es)"
    and "view u (run step s es) = view u (run step s (filter (\<lambda>e. dom_of e = u) es))"
  using purged_run [OF assms ok_filter [OF assms] refl] by blast+

end

section \<open>What a tenant sees\<close>

text \<open>The tenant of a user that is not a platform administrator, and the value of the tenant setting for it.\<close>

definition tenant_of :: "claims \<Rightarrow> int option" where
  "tenant_of user = (case cm_client_id user of None \<Rightarrow> None | Some k \<Rightarrow> if k \<noteq> 0 then Some k else None)"

definition tenant_str :: "int option \<Rightarrow> string" where
  "tenant_str u = (case u of None \<Rightarrow> [] | Some k \<Rightarrow> int_str k)"

text \<open>
  The rows that the policies show a session with the setting \<open>v\<close>, and of the two tables without a
  policy those that belong to the tenant. An answer also tells whether Redis is configured.
\<close>

type_synonym tenant_data =
  "(customer list \<times> caller list \<times> user list \<times> audit_log list) \<times> phone_number_route list \<times> client list"

definition tenant_rows :: "string \<Rightarrow> database \<Rightarrow> tenant_data" where
  "tenant_rows v d =
     ((t_customers (rls_view (Some v) d), t_call_requests (rls_view (Some v) d), t_admin_users (rls_view (Some v) d),
       t_audit_logs (rls_view (Some v) d)),
      filter (\<lambda>r. pr_tenant_id r = v) (t_phone_number_routes d), filter (\<lambda>c. int_str (cl_id c) = v) (t_clients d))"

definition tenant_app_view :: "int option \<Rightarrow> app \<Rightarrow> tenant_data \<times> bool" where
  "tenant_app_view u s = (tenant_rows (tenant_str u) (app_db s), ap_sessions s = None)"

lemma tenant_str_inj [simp]: "tenant_str u = tenant_str v \<longleftrightarrow> u = v"
  using int_str_ne by (cases u; cases v) (simp_all add: tenant_str_def int_str_ne [symmetric])

lemma tenant_str_number [simp]: "int_str k = tenant_str u \<longleftrightarrow> u = Some k"
  using tenant_str_inj [of "Some k" u] by (auto simp: tenant_str_def)

lemma tenant_str_not_sentinel: "tenant_str u \<noteq> ALL_TENANTS_SENTINEL"
  using sentinel_not_number by (auto simp: tenant_str_def ALL_TENANTS_SENTINEL_def split: option.splits)

lemma isolation_tenant [simp]: "tenant_isolation (Some (tenant_str u)) t \<longleftrightarrow> t = Some (tenant_str u)"
  using tenant_str_not_sentinel [of u] by (auto simp: tenant_isolation_def split: option.splits)

lemma tenant_user:
  assumes "claim_role user \<noteq> ''super_admin''"
  shows "\<not> require_super_admin user" "tenant_value user = tenant_str (tenant_of user)"
  using assms
  by (auto simp: require_super_admin_def claim_role_def tenant_value_def tenant_str_def tenant_of_def split: option.splits)

lemma tenant_rows_view:
  assumes "tenant_rows (tenant_value user) d = tenant_rows (tenant_value user) d'"
  shows "t_customers (tenant_view user d) = t_customers (tenant_view user d')"
    and "t_call_requests (tenant_view user d) = t_call_requests (tenant_view user d')"
    and "t_admin_users (tenant_view user d) = t_admin_users (tenant_view user d')"
    and "t_audit_logs (tenant_view user d) = t_audit_logs (tenant_view user d')"
    and "filter (\<lambda>r. pr_tenant_id r = tenant_value user) (t_phone_number_routes d)
       = filter (\<lambda>r. pr_tenant_id r = tenant_value user) (t_phone_number_routes d')"
    and "filter (\<lambda>c. int_str (cl_id c) = tenant_value user) (t_clients d)
       = filter (\<lambda>c. int_str (cl_id c) = tenant_value user) (t_clients d')"
  using assms by (simp_all add: tenant_rows_def tenant_view_def)

lemma tbl_get_filter: "tbl_get key rows k = tbl_get key (filter (\<lambda>r. key r = k) rows) k"
  by (induction rows) auto

lemma own_client:
  assumes "tenant_rows (int_str k) d = tenant_rows (int_str k) d'"
  shows "tbl_get cl_id (t_clients d) k = tbl_get cl_id (t_clients d') k"
  using assms tbl_get_filter [of cl_id "t_clients d" k] tbl_get_filter [of cl_id "t_clients d'" k]
  by (simp add: tenant_rows_def)

section \<open>The administration routes\<close>

lemma set_db_same [simp]: "set_db (app_db s) s = s"
  by (simp add: set_db_def)

lemmas route_defs = on_app_def reads_def writes_def rejected_def int_param_def with_query_def

lemma admin_tenant:
  assumes "claim_role user \<noteq> ''super_admin''"
  shows "fst (on_app (admin_role_check e user) (admin_handler bc conv env e ps q b user) s) = s"
    and "tenant_rows (tenant_value user) (app_db s) = tenant_rows (tenant_value user) (app_db t) \<Longrightarrow>
      snd (on_app (admin_role_check e user) (admin_handler bc conv env e ps q b user) s)
        = snd (on_app (admin_role_check e user) (admin_handler bc conv env e ps q b user) t)"
proof -
  note no = tenant_user(1) [OF assms]
  show "fst (on_app (admin_role_check e user) (admin_handler bc conv env e ps q b user) s) = s"
    using no by (cases e) (simp_all add: route_defs admin_role_check_def split: option.split)
  assume "tenant_rows (tenant_value user) (app_db s) = tenant_rows (tenant_value user) (app_db t)"
  note view = tenant_rows_view [OF this]
  show "snd (on_app (admin_role_check e user) (admin_handler bc conv env e ps q b user) s)
      = snd (on_app (admin_role_check e user) (admin_handler bc conv env e ps q b user) t)"
    using no by (cases e)
      (simp_all add: route_defs admin_role_check_def admin_list_users_def admin_get_user_def admin_list_calls_def
        admin_get_call_def list_audit_logs_def view split: option.split sum.split)
qed

section \<open>The client routes\<close>

lemma client_user:
  assumes "require_client user = Inr k"
  shows "claim_role user \<noteq> ''super_admin''" "tenant_of user = Some k" "tenant_str (tenant_of user) = int_str k"
  using assms by (auto simp: require_client_Inr claim_role_def tenant_of_def tenant_str_def)

lemma rows_same_tenant: "tenant_rows (int_str k) d = tenant_rows (int_str k) d' \<Longrightarrow> same_tenant k d d'"
  using own_client [of k d d'] by (simp add: same_tenant_def tenant_rows_def rls_view_def map_option_int_str)

lemma on_app_fst: "fst (on_app role h s) = (if is_ok role then set_db (fst (h (app_db s))) s else s)"
  by (simp add: on_app_def is_ok_def split: sum.split prod.split)

lemma on_app_snd: "snd (on_app role h s) = (case role of Inl e \<Rightarrow> Inl e | Inr _ \<Rightarrow> snd (h (app_db s)))"
  by (simp add: on_app_def split: sum.split prod.split)

lemma client_role_refused: "require_client user = Inl err \<Longrightarrow> client_role_check e user = Inl err"
  by (simp add: client_role_check_def require_client_admin_def)

lemma client_reads:
  assumes "e \<notin> {Ep_save_customer, Ep_update_customer}"
  shows "fst (on_app (client_role_check e user) (client_handler conv env e ps q b user) s) = s"
    and "tenant_rows (tenant_str (tenant_of user)) (app_db s) = tenant_rows (tenant_str (tenant_of user)) (app_db t) \<Longrightarrow>
      snd (on_app (client_role_check e user) (client_handler conv env e ps q b user) s)
        = snd (on_app (client_role_check e user) (client_handler conv env e ps q b user) t)"
proof -
  show "fst (on_app (client_role_check e user) (client_handler conv env e ps q b user) s) = s"
    using assms by (cases e) (simp_all add: on_app_fst reads_def rejected_def with_query_def int_param_def split: option.split)
  assume rows: "tenant_rows (tenant_str (tenant_of user)) (app_db s) = tenant_rows (tenant_str (tenant_of user)) (app_db t)"
  show "snd (on_app (client_role_check e user) (client_handler conv env e ps q b user) s)
      = snd (on_app (client_role_check e user) (client_handler conv env e ps q b user) t)"
  proof (cases "require_client user")
    case (Inl err)
    then show ?thesis by (simp add: on_app_snd client_role_refused)
  next
    case (Inr k)
    have "same_tenant k (app_db s) (app_db t)" using rows client_user(3) [OF Inr] rows_same_tenant by simp
    note same = client_routes_depend_on_own_tenant [OF Inr this]
    have "snd (client_handler conv env e ps q b user (app_db s)) = snd (client_handler conv env e ps q b user (app_db t))"
      using assms same by (cases e) (simp_all add: reads_def rejected_def with_query_def int_param_def split: option.split)
    then show ?thesis by (simp add: on_app_snd split: sum.split)
  qed
qed

text \<open>Replacing a row by one of the same tenant, in the table and in what a tenant sees of it.\<close>

lemma filter_replace:
  assumes "distinct (map key rows)" "c \<in> set rows" "key c' = key c" "P c' = P c"
  shows "filter P (tbl_update (\<lambda>x. key x = key c') (\<lambda>_. c') rows) = tbl_update (\<lambda>x. key x = key c') (\<lambda>_. c') (filter P rows)"
    and "\<not> P c \<Longrightarrow> filter P (tbl_update (\<lambda>x. key x = key c') (\<lambda>_. c') rows) = filter P rows"
proof -
  have u: "x = c" if "x \<in> set rows" "key x = key c'" for x
    using key_unique [OF assms(1) that(1) assms(2)] that(2) assms(3) by simp
  then have same: "P (if key x = key c' then c' else x) = P x" if "x \<in> set rows" for x
    using that assms(4) by auto
  show one: "filter P (tbl_update (\<lambda>x. key x = key c') (\<lambda>_. c') rows) = tbl_update (\<lambda>x. key x = key c') (\<lambda>_. c') (filter P rows)"
    unfolding tbl_update_def filter_map using same by (intro arg_cong [where f = "map _"] filter_cong) auto
  assume "\<not> P c"
  with u have "key x \<noteq> key c'" if "x \<in> set (filter P rows)" for x using that by auto
  then show "filter P (tbl_update (\<lambda>x. key x = key c') (\<lambda>_. c') rows) = filter P rows"
    unfolding one by (intro tbl_update_cong_none) blast
qed

lemma rows_of_customers:
  "tenant_rows v (d\<lparr>t_customers := cs\<rparr>) =
     ((filter (\<lambda>r. tenant_isolation (Some v) (Some (int_str (cu_client_id r)))) cs, snd (fst (tenant_rows v d))), snd (tenant_rows v d))"
  by (simp add: tenant_rows_def rls_view_def)

lemma rows_customers: "fst (fst (tenant_rows v d)) = filter (\<lambda>r. tenant_isolation (Some v) (Some (int_str (cu_client_id r)))) (t_customers d)"
  by (simp add: tenant_rows_def rls_view_def)

lemma save_customer_rows:
  assumes "distinct (map cu_id (t_customers d))" "c \<in> set (t_customers d)" "cu_id c' = cu_id c" "cu_client_id c' = cu_client_id c"
  shows "tenant_rows (tenant_str u) (fst (save_customer c' d)) =
      (if customer_widths c'
       then ((tbl_update (\<lambda>x. cu_id x = cu_id c') (\<lambda>_. c') (fst (fst (tenant_rows (tenant_str u) d))),
              snd (fst (tenant_rows (tenant_str u) d))), snd (tenant_rows (tenant_str u) d))
       else tenant_rows (tenant_str u) d)"
    and "u \<noteq> Some (cu_client_id c) \<Longrightarrow> tenant_rows (tenant_str u) (fst (save_customer c' d)) = tenant_rows (tenant_str u) d"
proof -
  let ?P = "\<lambda>r. tenant_isolation (Some (tenant_str u)) (Some (int_str (cu_client_id r)))"
  have P: "?P c' = ?P c" using assms(4) by simp
  note f = filter_replace [of cu_id, OF assms(1-3), where P = ?P, OF P]
  show "tenant_rows (tenant_str u) (fst (save_customer c' d)) =
      (if customer_widths c'
       then ((tbl_update (\<lambda>x. cu_id x = cu_id c') (\<lambda>_. c') (fst (fst (tenant_rows (tenant_str u) d))),
              snd (fst (tenant_rows (tenant_str u) d))), snd (tenant_rows (tenant_str u) d))
       else tenant_rows (tenant_str u) d)"
    by (simp add: save_customer_def rows_of_customers rows_customers f(1) del: isolation_tenant)
  assume "u \<noteq> Some (cu_client_id c)"
  then have "\<not> ?P c" by simp
  from f(2) [OF this] show "tenant_rows (tenant_str u) (fst (save_customer c' d)) = tenant_rows (tenant_str u) d"
    by (simp add: save_customer_def rows_of_customers rows_customers prod_eq_iff del: isolation_tenant)
qed

text \<open>A request that saves a customer, with an identifier that is new.\<close>

lemma create_customer_view:
  assumes "require_client user = Inr k" "uuid \<notin> cu_id ` set (t_customers d)"
  shows "create_or_update_customer now uuid b user d =
    (case filter (\<lambda>c. cu_phone c = cw_phone b) (fst (fst (tenant_rows (int_str k) d))) of
       [c] \<Rightarrow> save_customer (touch_customer now b c) d
     | [] \<Rightarrow>
         if \<not> customer_widths (new_customer now uuid k b) then (d, Inl (Unhandled ''DataError''))
         else if tbl_get cl_id (t_clients d) k = None then (d, Inl (Unhandled ''IntegrityError''))
         else (d\<lparr>t_customers := t_customers d @ [new_customer now uuid k b]\<rparr>, Inr (new_customer now uuid k b))
     | _ \<Rightarrow> (d, Inl (Unhandled ''MultipleResultsFound'')))"
proof -
  have own: "filter (\<lambda>c. cu_client_id c = k \<and> cu_phone c = cw_phone b) (t_customers (tenant_view user d))
      = filter (\<lambda>c. cu_phone c = cw_phone b) (fst (fst (tenant_rows (int_str k) d)))"
    using tenant_view_own(1) [OF assms(1), of d] by (simp add: tenant_rows_def rls_view_def conj_commute)
  have fresh: "customer_key (new_customer now uuid k b) \<notin> customer_key ` set (t_customers d)"
    if "filter (\<lambda>c. cu_phone c = cw_phone b) (fst (fst (tenant_rows (int_str k) d))) = []"
    using that by (auto simp: tenant_rows_def rls_view_def filter_empty_conv customer_key_def new_customer_def)
  have iso: "tenant_isolation (Some (tenant_value user)) (Some (int_str k))"
    using client_tenant_value [OF assms(1)] by simp
  show ?thesis
    using assms fresh iso by (simp add: create_or_update_customer_def own Let_def new_customer_def split: list.split)
qed

text \<open>One write of a customer: what it answers, what its tenant sees afterwards and what others see.\<close>

definition confined_write :: "int \<Rightarrow> (database \<Rightarrow> database \<times> 'r http) \<Rightarrow> database \<Rightarrow> database \<Rightarrow> bool" where
  "confined_write k h d d' =
     (snd (h d) = snd (h d') \<and> tenant_rows (int_str k) (fst (h d)) = tenant_rows (int_str k) (fst (h d'))
      \<and> (\<forall>u. u \<noteq> Some k \<longrightarrow> tenant_rows (tenant_str u) (fst (h d)) = tenant_rows (tenant_str u) d))"

lemma save_customer_confined:
  assumes "distinct (map cu_id (t_customers d))" "distinct (map cu_id (t_customers d'))"
    and "c \<in> set (t_customers d)" "c \<in> set (t_customers d')" "cu_client_id c = k"
    and "tenant_rows (int_str k) d = tenant_rows (int_str k) d'"
  shows "confined_write k (save_customer (touch_customer now b c)) d d'"
proof -
  have s: "snd (save_customer (touch_customer now b c) d) = snd (save_customer (touch_customer now b c) d')"
    by (simp add: save_customer_def)
  have k: "tenant_str (Some k) = int_str k" by (simp add: tenant_str_def)
  show ?thesis
    using s assms(6) save_customer_rows [OF assms(1,3), of "touch_customer now b c" "Some k"]
      save_customer_rows(2) [OF assms(1,3), of "touch_customer now b c"]
      save_customer_rows(1) [OF assms(2,4), of "touch_customer now b c" "Some k"] assms(5)
    by (simp add: confined_write_def k)
qed

lemma create_customer_confined:
  assumes "require_client user = Inr k" "tenant_rows (int_str k) d = tenant_rows (int_str k) d'"
    and "distinct (map cu_id (t_customers d))" "distinct (map cu_id (t_customers d'))"
    and "uuid \<notin> cu_id ` set (t_customers d)" "uuid \<notin> cu_id ` set (t_customers d')"
  shows "confined_write k (create_or_update_customer now uuid b user) d d'"
proof -
  let ?own = "filter (\<lambda>c. cu_phone c = cw_phone b) (fst (fst (tenant_rows (int_str k) d)))"
  note eq = create_customer_view [OF assms(1,5), of now b] create_customer_view [OF assms(1,6), of now b, folded assms(2)]
  have own: "tbl_get cl_id (t_clients d) k = tbl_get cl_id (t_clients d') k" using own_client [OF assms(2)] .
  consider "?own = []" | c where "?own = [c]" | c c' cs where "?own = c # c' # cs" by (metis neq_Nil_conv)
  then show ?thesis
  proof cases
    case 1
    have "tenant_isolation (Some (tenant_str u)) (Some (int_str k)) = (u = Some k)" for u by simp
    then show ?thesis using 1 eq own assms(2)
      by (auto simp: confined_write_def rows_of_customers rows_customers new_customer_def prod_eq_iff)
  next
    case (2 c)
    then have "c \<in> set ?own" by simp
    then have c: "c \<in> set (t_customers d)" "cu_client_id c = k" by (auto simp: rows_customers)
    from 2 assms(2) have "c \<in> set (filter (\<lambda>c. cu_phone c = cw_phone b) (fst (fst (tenant_rows (int_str k) d'))))" by simp
    then have "c \<in> set (t_customers d')" by (auto simp: rows_customers)
    from save_customer_confined [OF assms(3,4) c(1) this c(2) assms(2), of now b] 2 eq
    show ?thesis by (simp add: confined_write_def)
  next
    case (3 c c' cs)
    then show ?thesis using eq assms(2) by (simp add: confined_write_def)
  qed
qed

lemma update_customer_confined:
  assumes "require_client user = Inr k" "tenant_rows (int_str k) d = tenant_rows (int_str k) d'"
    and "distinct (map cu_id (t_customers d))" "distinct (map cu_id (t_customers d'))"
  shows "confined_write k (update_customer now i b user) d d'"
proof -
  have same: "get_customer i user d = get_customer i user d'"
    using client_routes_depend_on_own_tenant [OF assms(1) rows_same_tenant [OF assms(2)]] by blast
  show ?thesis
  proof (cases "get_customer i user d")
    case (Inl e)
    then show ?thesis using same assms(2) by (simp add: update_customer_def confined_write_def)
  next
    case (Inr c)
    have c: "c \<in> set (t_customers x) \<and> cu_client_id c = k" if "get_customer i user x = Inr c" for x
      using that assms(1) tenant_view_own(1) [OF assms(1), of x]
      by (auto simp: get_customer_def dest!: tbl_get_SomeD split: option.splits if_splits)
    from save_customer_confined [OF assms(3,4) _ _ _ assms(2), of c now "update_fields b c"] c [OF Inr] c [OF Inr [unfolded same]]
    show ?thesis using Inr same by (simp add: update_customer_def confined_write_def)
  qed
qed

section \<open>Placing a call\<close>

lemma rows_of_calls:
  "tenant_rows v (d\<lparr>t_call_requests := t_call_requests d @ [r]\<rparr>) =
     (case tenant_rows v d of ((cs, calls, rest), others) \<Rightarrow>
       ((cs, calls @ (if tenant_isolation (Some v) (map_option int_str (ca_client_id r)) then [r] else []), rest), others))"
  by (simp add: tenant_rows_def rls_view_def)

lemma make_call_own:
  assumes "claim_role user \<noteq> ''super_admin''" "tenant_of user = Some k" "i \<notin> ca_id ` set (t_call_requests (cp_db s))"
  shows "make_call n now i sid user b s =
    (case validate_phone (cq_phone_number b) of
       None \<Rightarrow> (s, Inl (HTTPException 422 ''phone_number must be E.164 format (e.g. +919876543210)''))
     | Some phone \<Rightarrow>
         if tbl_get cl_id (t_clients (cp_db s)) k = None then (s, Inl (Unhandled ''IntegrityError''))
         else (\<lparr>cp_db = (cp_db s)\<lparr>t_call_requests :=
                  t_call_requests (cp_db s) @ [new_caller i now user (b\<lparr>cq_phone_number := phone\<rparr>)]\<rparr>,
                cp_redis = save_call_session n now sid (b\<lparr>cq_phone_number := phone\<rparr>) (cp_redis s)\<rparr>,
               Inr (if cp_redis s = None then None else Some sid)))"
proof -
  have id: "cm_client_id user = Some k" using assms(2) by (auto simp: tenant_of_def split: option.splits if_splits)
  have iso: "tenant_isolation (Some (tenant_value user)) (Some (int_str k))"
    using tenant_user(2) [OF assms(1)] assms(2) by simp
  show ?thesis
  proof (cases "tbl_get cl_id (t_clients (cp_db s)) k")
    case None
    with assms(3) iso show ?thesis by (simp add: make_call_def new_caller_def id fk_null_def Let_def split: option.split)
  next
    case (Some c)
    with assms(3) iso show ?thesis by (simp add: make_call_def new_caller_def id fk_null_def Let_def split: option.split)
  qed
qed

lemma save_call_session_None [simp]: "save_call_session n now sid b r = None \<longleftrightarrow> r = None"
  by (simp add: save_call_session_def)

lemma make_call_confined:
  assumes "claim_role user \<noteq> ''super_admin''"
    and "tenant_rows (tenant_str (tenant_of user)) (cp_db s) = tenant_rows (tenant_str (tenant_of user)) (cp_db t)"
    and "(cp_redis s = None) = (cp_redis t = None)"
    and "i \<notin> ca_id ` set (t_call_requests (cp_db s))" "i \<notin> ca_id ` set (t_call_requests (cp_db t))"
  shows "snd (make_call n now i sid user b s) = snd (make_call n now i sid user b t)
    \<and> tenant_rows (tenant_str (tenant_of user)) (cp_db (fst (make_call n now i sid user b s)))
        = tenant_rows (tenant_str (tenant_of user)) (cp_db (fst (make_call n now i sid user b t)))
    \<and> (\<forall>u. u \<noteq> tenant_of user \<longrightarrow> tenant_rows (tenant_str u) (cp_db (fst (make_call n now i sid user b s))) = tenant_rows (tenant_str u) (cp_db s))
    \<and> (cp_redis (fst (make_call n now i sid user b s)) = None) = (cp_redis s = None)"
proof (cases "\<exists>k. tenant_of user = Some k")
  case True
  then obtain k where k: "tenant_of user = Some k" by blast
  then have id: "cm_client_id user = Some k" by (auto simp: tenant_of_def split: option.splits if_splits)
  have "tenant_rows (int_str k) (cp_db s) = tenant_rows (int_str k) (cp_db t)"
    using assms(2) k by (simp add: tenant_str_def)
  from own_client [OF this] have own: "tbl_get cl_id (t_clients (cp_db s)) k = tbl_get cl_id (t_clients (cp_db t)) k" .
  note own_s = make_call_own [OF assms(1) k assms(4), of n now sid b]
  note own_t = make_call_own [OF assms(1) k assms(5), of n now sid b]
  show ?thesis
  proof (cases "validate_phone (cq_phone_number b)")
    case None
    with assms(2) show ?thesis by (simp add: own_s own_t)
  next
    case (Some phone)
    show ?thesis
    proof (cases "tbl_get cl_id (t_clients (cp_db s)) k")
      case None
      with Some assms(2) own show ?thesis by (simp add: own_s own_t)
    next
      case (Some c)
      with \<open>validate_phone (cq_phone_number b) = Some phone\<close> assms(2,3) own id k show ?thesis
        by (simp add: own_s own_t rows_of_calls new_caller_def split: prod.split)
    qed
  qed
next
  case False
  then have none: "tenant_of user = None" by simp
  have "map_option int_str (cm_client_id user) \<noteq> Some (tenant_str None)"
    by (auto simp: tenant_str_def)
  then have "\<not> tenant_isolation (Some (tenant_value user)) (map_option int_str (cm_client_id user))"
    using tenant_user(2) [OF assms(1)] none by simp
  with assms(2) show ?thesis
    by (simp add: make_call_def new_caller_def Let_def split: option.split)
qed

section \<open>The whole application\<close>

text \<open>
  What one request of a tenant may do: the answer and the tenant's next view depend on the tenant's
  view only, and no other tenant's view changes.
\<close>

definition confined :: "int option \<Rightarrow> (app \<Rightarrow> app \<times> 'r) \<Rightarrow> app \<Rightarrow> app \<Rightarrow> bool" where
  "confined v h s t =
     (snd (h s) = snd (h t) \<and> tenant_app_view v (fst (h s)) = tenant_app_view v (fst (h t))
      \<and> (\<forall>u. u \<noteq> v \<longrightarrow> tenant_app_view u (fst (h s)) = tenant_app_view u s))"

definition fresh_ids :: "http_env \<Rightarrow> app \<Rightarrow> bool" where
  "fresh_ids env s =
     (he_uuid env \<notin> cu_id ` set (t_customers (app_db s)) \<and> he_serial env \<notin> ca_id ` set (t_call_requests (app_db s)))"

definition distinct_customers :: "app \<Rightarrow> bool" where
  "distinct_customers s = distinct (map cu_id (t_customers (app_db s)))"

lemma confined_same:
  "fst (h s) = s \<Longrightarrow> fst (h t) = t \<Longrightarrow> snd (h s) = snd (h t) \<Longrightarrow> tenant_app_view v s = tenant_app_view v t \<Longrightarrow> confined v h s t"
  by (simp add: confined_def)

lemma app_view_set_db [simp]:
  "tenant_app_view u (set_db d s) = (tenant_rows (tenant_str u) d, ap_sessions s = None)" "app_db (set_db d s) = d"
  by (simp_all add: tenant_app_view_def set_db_def)

lemma on_app_confined:
  assumes "confined_write k h (app_db s) (app_db t)" "(ap_sessions s = None) = (ap_sessions t = None)"
    and "tenant_app_view (Some k) s = tenant_app_view (Some k) t"
  shows "confined (Some k) (on_app role h) s t"
proof -
  have str: "tenant_str (Some k) = int_str k" by (simp add: tenant_str_def)
  show ?thesis
    using assms by (simp add: confined_def confined_write_def on_app_fst on_app_snd str split: sum.split)
      (simp add: tenant_app_view_def)
qed

lemma client_confined:
  assumes "tenant_app_view (tenant_of user) s = tenant_app_view (tenant_of user) t"
    and "distinct_customers s" "distinct_customers t" "fresh_ids env s" "fresh_ids env t"
  shows "confined (tenant_of user) (on_app (client_role_check e user) (client_handler conv env e ps q b user)) s t"
proof (cases "e \<in> {Ep_save_customer, Ep_update_customer}")
  case False
  have "tenant_rows (tenant_str (tenant_of user)) (app_db s) = tenant_rows (tenant_str (tenant_of user)) (app_db t)"
    using assms(1) by (simp add: tenant_app_view_def)
  from client_reads(1) [OF False] client_reads(2) [OF False this] assms(1) show ?thesis by (intro confined_same)
next
  case True
  show ?thesis
  proof (cases "require_client user")
    case (Inl err)
    then show ?thesis using assms(1) by (simp add: confined_def on_app_def client_role_refused)
  next
    case (Inr k)
    note user = client_user [OF Inr]
    have rows: "tenant_rows (int_str k) (app_db s) = tenant_rows (int_str k) (app_db t)"
      and redis: "(ap_sessions s = None) = (ap_sessions t = None)"
      using assms(1) user(3) by (simp_all add: tenant_app_view_def)
    have dist: "distinct (map cu_id (t_customers (app_db s)))" "distinct (map cu_id (t_customers (app_db t)))"
      using assms(2,3) by (simp_all add: distinct_customers_def)
    have "confined_write k (client_handler conv env e ps q b user) (app_db s) (app_db t)"
      using True create_customer_confined [OF Inr rows dist, of "he_uuid env" "he_now env"] assms(4,5)
        update_customer_confined [OF Inr rows dist, of "he_now env" "hd ps"] rows
      by (cases b) (auto simp: confined_write_def writes_def rejected_def fresh_ids_def)
    from on_app_confined [OF this redis] assms(1) user(2) show ?thesis by simp
  qed
qed

lemma make_call_handler:
  "main_handler sv env Ep_make_call (Body_caller c) user x =
    (case make_call (he_net env) (he_now env) (he_serial env) (he_session_id env) user c
            \<lparr>cp_db = app_db x, cp_redis = ap_sessions x\<rparr> of
       (w, r) \<Rightarrow> ((set_db (cp_db w) x)\<lparr>ap_sessions := cp_redis w\<rparr>, map_sum id R_placed r))"
  "\<nexists>c. b = Body_caller c \<Longrightarrow> main_handler sv env Ep_make_call b user x = rejected x"
  by (simp, cases b) auto

lemma make_call_handler_confined:
  assumes "claim_role user \<noteq> ''super_admin''" "tenant_app_view (tenant_of user) s = tenant_app_view (tenant_of user) t"
    and "fresh_ids env s" "fresh_ids env t"
  shows "confined (tenant_of user) (main_handler sv env Ep_make_call b user) s t"
proof (cases "\<exists>c. b = Body_caller c")
  case False
  with assms(2) show ?thesis by (simp add: confined_def rejected_def make_call_handler(2) del: main_handler.simps)
next
  case True
  then obtain c where b: "b = Body_caller c" by blast
  let ?m = "\<lambda>x. make_call (he_net env) (he_now env) (he_serial env) (he_session_id env) user c
    \<lparr>cp_db = app_db x, cp_redis = ap_sessions x\<rparr>"
  have h: "main_handler sv env Ep_make_call b user x =
      ((set_db (cp_db (fst (?m x))) x)\<lparr>ap_sessions := cp_redis (fst (?m x))\<rparr>, map_sum id R_placed (snd (?m x)))" for x
    by (simp add: b make_call_handler(1) split: prod.split)
  have v: "tenant_app_view u (fst (main_handler sv env Ep_make_call b user x)) =
      (tenant_rows (tenant_str u) (cp_db (fst (?m x))), cp_redis (fst (?m x)) = None)" for u x
    unfolding h by (simp add: tenant_app_view_def set_db_def)
  have rows: "tenant_rows (tenant_str (tenant_of user)) (app_db s) = tenant_rows (tenant_str (tenant_of user)) (app_db t)"
    and redis: "(ap_sessions s = None) = (ap_sessions t = None)" using assms(2) by (simp_all add: tenant_app_view_def)
  have fresh: "he_serial env \<notin> ca_id ` set (t_call_requests (app_db s))" "he_serial env \<notin> ca_id ` set (t_call_requests (app_db t))"
    using assms(3,4) by (simp_all add: fresh_ids_def)
  note conf_s = make_call_confined [OF assms(1), of "\<lparr>cp_db = app_db s, cp_redis = ap_sessions s\<rparr>"
      "\<lparr>cp_db = app_db t, cp_redis = ap_sessions t\<rparr>" "he_serial env" "he_net env" "he_now env" "he_session_id env" c, simplified,
      OF rows redis fresh]
  note conf_t = make_call_confined [OF assms(1), of "\<lparr>cp_db = app_db t, cp_redis = ap_sessions t\<rparr>"
      "\<lparr>cp_db = app_db s, cp_redis = ap_sessions s\<rparr>" "he_serial env" "he_net env" "he_now env" "he_session_id env" c, simplified,
      OF rows [symmetric] redis [symmetric] fresh(2,1)]
  have out: "snd (main_handler sv env Ep_make_call b user s) = snd (main_handler sv env Ep_make_call b user t)"
    unfolding h using conf_s by simp
  show ?thesis unfolding confined_def v using out conf_s conf_t redis by (simp add: tenant_app_view_def)
qed

lemma user_confined:
  assumes "claim_role user \<noteq> ''super_admin''" "guard_of e = Bearer"
    and "tenant_app_view (tenant_of user) s = tenant_app_view (tenant_of user) t"
    and "distinct_customers s" "distinct_customers t" "fresh_ids env s" "fresh_ids env t"
  shows "confined (tenant_of user) (user_handler sv env e ps q user) s t"
proof (cases e)
  case (Admin_ep a)
  have rows: "tenant_rows (tenant_value user) (app_db s) = tenant_rows (tenant_value user) (app_db t)"
    using assms(3) tenant_user(2) [OF assms(1)] by (simp add: tenant_app_view_def)
  show ?thesis unfolding Admin_ep
    by (rule confined_same) (simp_all add: admin_tenant(1) [OF assms(1)] admin_tenant(2) [OF assms(1) rows] assms(3))
next
  case (Client_ep c)
  from client_confined [OF assms(3-7), of c "sv_int sv" ps "hr_query q" "hr_body q"] show ?thesis
    by (simp add: Client_ep confined_def)
next
  case (Internal_ep i)
  with assms(2) show ?thesis by simp
next
  case (Main_ep m)
  have role: "cm_role user \<noteq> Some ''super_admin''" using tenant_user(1) [OF assms(1)] by (simp add: require_super_admin_def)
  from Main_ep assms(2) consider "m = Ep_metrics" | "m = Ep_logout" | "m = Ep_me" | "m = Ep_make_call"
    by (auto split: if_splits)
  then show ?thesis
  proof cases
    case 4
    with make_call_handler_confined [OF assms(1,3,6,7), of sv "hr_body q"] Main_ep show ?thesis by (simp add: confined_def)
  qed (use role assms(3) Main_ep in \<open>simp_all add: confined_def metrics_endpoint_def\<close>)
qed

text \<open>The requests of the tenants' users, and of callers without credentials, except logins.\<close>

definition request_tenant :: "'t server \<Rightarrow> http_env \<times> 't http_request \<Rightarrow> int option" where
  "request_tenant sv e =
     (case get_current_user (sv_jwt sv) (sv_auth sv) (he_now (fst e)) (hr_bearer (snd e)) of
        Inl _ \<Rightarrow> None | Inr user \<Rightarrow> tenant_of user)"

definition tenant_request :: "'t server \<Rightarrow> http_env \<times> 't http_request \<Rightarrow> bool" where
  "tenant_request sv e =
     ((case get_current_user (sv_jwt sv) (sv_auth sv) (he_now (fst e)) (hr_bearer (snd e)) of
         Inl _ \<Rightarrow> True | Inr user \<Rightarrow> claim_role user \<noteq> ''super_admin'')
      \<and> \<not> is_ok (verify_internal_token (sv_secret sv) (hr_internal (snd e)))
      \<and> (case dispatch api_routes (hr_method (snd e)) (hr_path (snd e)) of Found ep _ \<Rightarrow> ep \<noteq> Main_ep Ep_login | _ \<Rightarrow> True))"

lemma public_same:
  assumes "guard_of e = Public" "e \<noteq> Main_ep Ep_login"
  shows "snd (user_handler sv env e ps q anonymous s) = snd (user_handler sv env e ps q anonymous t)"
proof -
  obtain m where e: "e = Main_ep m" "m \<notin> {Ep_metrics, Ep_logout, Ep_me, Ep_make_call, Ep_login}"
    using assms by (cases e) (auto split: if_splits)
  then show ?thesis by (cases m) (auto simp: rejected_def split: body.split)
qed

lemma call_next_confined:
  assumes "tenant_request sv (env, q)"
    and "tenant_app_view (request_tenant sv (env, q)) s = tenant_app_view (request_tenant sv (env, q)) t"
    and "distinct_customers s" "distinct_customers t" "fresh_ids env s" "fresh_ids env t"
  shows "confined (request_tenant sv (env, q)) (call_next sv env q) s t"
proof (cases "dispatch api_routes (hr_method q) (hr_path q)")
  case (Found e ps)
  then have cn: "call_next sv env q x = serve sv env e ps q x" for x by (simp add: call_next_def)
  have e: "e \<noteq> Main_ep Ep_login" using assms(1) Found by (simp add: tenant_request_def)
  have secret: "\<not> is_ok (verify_internal_token (sv_secret sv) (hr_internal q))" using assms(1) by (simp add: tenant_request_def)
  show ?thesis
  proof (cases "guard_of e")
    case Public
    then have h: "serve sv env e ps q x = user_handler sv env e ps q anonymous x" for x by (simp add: serve_def)
    show ?thesis using public_handler(1) [OF Public] public_same [OF Public e] assms(2)
      by (intro confined_same) (simp_all add: cn h)
  next
    case Internal_token
    then obtain i where "e = Internal_ep i" by (cases e) (auto split: if_splits)
    then have h: "serve sv env e ps q x = (x, Inl (projl (verify_internal_token (sv_secret sv) (hr_internal q))))" for x
      by (simp add: serve_def internal_route_def guarded_refused [OF secret])
    show ?thesis using assms(2) by (simp add: confined_def cn h)
  next
    case Bearer
    show ?thesis
    proof (cases "get_current_user (sv_jwt sv) (sv_auth sv) (he_now env) (hr_bearer q)")
      case (Inl err)
      then have "serve sv env e ps q x = (x, Inl err)" for x using Bearer by (simp add: serve_def)
      then show ?thesis using assms(2) by (simp add: confined_def cn)
    next
      case (Inr user)
      then have h: "serve sv env e ps q x = user_handler sv env e ps q user x" for x using Bearer by (simp add: serve_def)
      have "claim_role user \<noteq> ''super_admin''" "request_tenant sv (env, q) = tenant_of user"
        using assms(1) Inr by (simp_all add: tenant_request_def request_tenant_def)
      with user_confined [OF this(1) Bearer _ assms(3-6)] assms(2) show ?thesis by (simp add: confined_def cn h)
    qed
  qed
qed (use assms(2) in \<open>simp_all add: confined_def call_next_def\<close>)

lemma api_app_confined:
  assumes "tenant_request sv (env, q)"
    and "tenant_app_view (request_tenant sv (env, q)) s = tenant_app_view (request_tenant sv (env, q)) t"
    and "distinct_customers s" "distinct_customers t" "fresh_ids env s" "fresh_ids env t"
  shows "confined (request_tenant sv (env, q)) (api_app sv env q) s t"
proof -
  have "tenant_app_view u (fst (api_app sv env q x)) = tenant_app_view u (fst (call_next sv env q x))" for u x
    using api_app_data(1) [of sv env q x] by (simp add: tenant_app_view_def same_data_def)
  with call_next_confined [OF assms] show ?thesis by (simp add: confined_def api_app_data(2))
qed

section \<open>Identifiers\<close>

text \<open>A tenant's request adds at most the identifiers that were generated for it.\<close>

definition grown :: "'k list \<Rightarrow> 'k \<Rightarrow> 'k list \<Rightarrow> bool" where
  "grown ids i ids' = (ids' = ids \<or> ids' = ids @ [i])"

lemma grown_set: "grown ids i ids' \<Longrightarrow> set ids' \<subseteq> insert i (set ids)"
  by (auto simp: grown_def)

lemma grown_distinct: "grown ids i ids' \<Longrightarrow> distinct ids \<Longrightarrow> i \<notin> set ids \<Longrightarrow> distinct ids'"
  by (auto simp: grown_def)

definition ids_grow :: "http_env \<Rightarrow> database \<Rightarrow> database \<Rightarrow> bool" where
  "ids_grow env d d' =
     (grown (map cu_id (t_customers d)) (he_uuid env) (map cu_id (t_customers d'))
      \<and> grown (map ca_id (t_call_requests d)) (he_serial env) (map ca_id (t_call_requests d')))"

lemma ids_grow_refl [simp]: "ids_grow env d d"
  by (simp add: ids_grow_def grown_def)

lemma save_customer_ids: "ids_grow env d (fst (save_customer c d))"
proof -
  have "map cu_id (tbl_update (\<lambda>x. cu_id x = cu_id c) (\<lambda>_. c) rows) = map cu_id rows" for rows
    by (induction rows) auto
  then show ?thesis by (simp add: save_customer_def ids_grow_def grown_def)
qed

lemma create_customer_ids: "ids_grow env d (fst (create_or_update_customer now (he_uuid env) b user d))"
  using save_customer_ids
  by (auto simp: create_or_update_customer_def Let_def new_customer_def ids_grow_def grown_def split: sum.split list.split)

lemma update_customer_ids: "ids_grow env d (fst (update_customer now i b user d))"
  using save_customer_ids by (simp add: update_customer_def split: sum.split)

lemma make_call_ids:
  "ids_grow env d (cp_db (fst (make_call n now (he_serial env) sid user b \<lparr>cp_db = d, cp_redis = r\<rparr>)))"
  by (simp add: make_call_def Let_def new_caller_def ids_grow_def grown_def split: option.split)

lemma client_ids: "ids_grow env (app_db s) (app_db (fst (on_app role (client_handler conv env e ps q b user) s)))"
proof (cases "e \<in> {Ep_save_customer, Ep_update_customer}")
  case True
  then show ?thesis
    by (cases b) (auto simp: on_app_fst writes_def rejected_def create_customer_ids update_customer_ids)
next
  case False
  then have "fst (client_handler conv env e ps q b user d) = d" for d
    by (cases e) (simp_all add: reads_def rejected_def with_query_def int_param_def split: option.split)
  then show ?thesis by (simp add: on_app_fst)
qed

lemma user_ids:
  assumes "claim_role user \<noteq> ''super_admin''" "guard_of e = Bearer"
  shows "ids_grow env (app_db s) (app_db (fst (user_handler sv env e ps q user s)))"
proof (cases e)
  case (Main_ep m)
  from Main_ep assms(2) consider "m = Ep_metrics" | "m = Ep_logout" | "m = Ep_me" | "m = Ep_make_call"
    by (auto split: if_splits)
  then show ?thesis
  proof cases
    case 4
    show ?thesis
    proof (cases "\<exists>c. hr_body q = Body_caller c")
      case True
      then obtain c where "hr_body q = Body_caller c" by blast
      with make_call_ids [of env "app_db s" "he_net env" "he_now env" "he_session_id env" user c "ap_sessions s"]
      show ?thesis by (simp add: Main_ep 4 make_call_handler(1) set_db_def case_prod_beta del: main_handler.simps)
    qed (simp add: Main_ep 4 make_call_handler(2) rejected_def del: main_handler.simps)
  qed (simp_all add: Main_ep split: prod.split)
qed (use assms in \<open>simp_all add: admin_tenant(1) client_ids\<close>)

lemma api_app_ids:
  assumes "tenant_request sv (env, q)"
  shows "ids_grow env (app_db s) (app_db (fst (api_app sv env q s)))"
proof -
  have same: "app_db (fst (api_app sv env q s)) = app_db (fst (call_next sv env q s))"
    using api_app_data(1) [of sv env q s] by (simp add: same_data_def)
  have secret: "\<not> is_ok (verify_internal_token (sv_secret sv) (hr_internal q))" using assms by (simp add: tenant_request_def)
  have "ids_grow env (app_db s) (app_db (fst (serve sv env e ps q s)))" for e ps
  proof (cases "guard_of e")
    case Public
    then show ?thesis by (simp add: serve_def public_handler(1) [OF Public])
  next
    case Internal_token
    then show ?thesis by (cases e) (auto simp: serve_def internal_route_def guarded_refused [OF secret] split: if_splits)
  next
    case Bearer
    with user_ids [OF _ Bearer] assms show ?thesis
      by (auto simp: serve_def tenant_request_def split: sum.splits)
  qed
  then show ?thesis unfolding same by (simp add: call_next_def split: routing.split)
qed

section \<open>Noninterference\<close>

text \<open>One request as a step, its answer, and the runs considered.\<close>

definition request_step :: "'t server \<Rightarrow> app \<Rightarrow> http_env \<times> 't http_request \<Rightarrow> app" where
  "request_step sv s e = fst (api_app sv (fst e) (snd e) s)"

definition request_answer :: "'t server \<Rightarrow> app \<Rightarrow> http_env \<times> 't http_request \<Rightarrow> 't api_response http" where
  "request_answer sv s e = snd (api_app sv (fst e) (snd e) s)"

definition tenant_run :: "'t server \<Rightarrow> app \<Rightarrow> (http_env \<times> 't http_request) list \<Rightarrow> bool" where
  "tenant_run sv s es =
     ((\<forall>e \<in> set es. tenant_request sv e \<and> fresh_ids (fst e) s) \<and> distinct_customers s
      \<and> distinct (map (he_uuid \<circ> fst) es) \<and> distinct (map (he_serial \<circ> fst) es))"

lemma tenant_run_step:
  assumes "tenant_run sv s (e # es)"
  shows "tenant_run sv (request_step sv s e) es"
proof -
  let ?d = "app_db s" and ?d' = "app_db (request_step sv s e)"
  have "ids_grow (fst e) ?d ?d'"
    using api_app_ids [of sv "fst e" "snd e" s] assms by (simp add: tenant_run_def request_step_def)
  then have cu: "grown (map cu_id (t_customers ?d)) (he_uuid (fst e)) (map cu_id (t_customers ?d'))"
    and ca: "grown (map ca_id (t_call_requests ?d)) (he_serial (fst e)) (map ca_id (t_call_requests ?d'))"
    by (simp_all add: ids_grow_def)
  have "distinct (map cu_id (t_customers ?d'))"
    using grown_distinct [OF cu] assms by (simp add: tenant_run_def fresh_ids_def distinct_customers_def)
  moreover have "fresh_ids (fst x) (request_step sv s e)" if "x \<in> set es" for x
  proof -
    have "fresh_ids (fst x) s" "he_uuid (fst x) \<noteq> he_uuid (fst e)" "he_serial (fst x) \<noteq> he_serial (fst e)"
      using assms that by (auto simp: tenant_run_def image_iff)
    with grown_set [OF cu] grown_set [OF ca] show ?thesis by (auto simp: fresh_ids_def)
  qed
  ultimately show ?thesis using assms by (simp add: tenant_run_def distinct_customers_def)
qed

lemma tenant_run_filter: "tenant_run sv s es \<Longrightarrow> tenant_run sv s (filter P es)"
  by (simp add: tenant_run_def distinct_map_filter)

interpretation tenants: unwinding "request_step sv" "request_answer sv" "request_tenant sv" tenant_app_view "tenant_run sv" for sv
proof unfold_locales
  fix s t :: app and e :: "http_env \<times> 'a http_request" and es es' u
  assume s: "tenant_run sv s (e # es)"
  then show "tenant_run sv (request_step sv s e) es" by (rule tenant_run_step)
  have e: "tenant_request sv (fst e, snd e)" "distinct_customers s" "fresh_ids (fst e) s"
    using s by (simp_all add: tenant_run_def)
  from api_app_confined [OF e(1) refl e(2,2,3,3)]
  show "request_tenant sv e \<noteq> u \<Longrightarrow> tenant_app_view u (request_step sv s e) = tenant_app_view u s"
    by (simp add: confined_def request_step_def)
  assume t: "tenant_run sv t (e # es')" and v: "tenant_app_view (request_tenant sv e) s = tenant_app_view (request_tenant sv e) t"
  then have "confined (request_tenant sv e) (api_app sv (fst e) (snd e)) s t"
    using api_app_confined [OF e(1) _ e(2) _ e(3)] by (simp add: tenant_run_def)
  then show "request_answer sv s e = request_answer sv t e"
    "tenant_app_view (request_tenant sv e) (request_step sv s e) = tenant_app_view (request_tenant sv e) (request_step sv t e)"
    by (simp_all add: confined_def request_answer_def request_step_def)
qed (rule tenant_run_filter)


definition demo_save :: "string \<Rightarrow> int \<Rightarrow> int \<Rightarrow> http_env \<times> (string \<times> claims) http_request" where
  "demo_save uuid serial k =
     (demo_http_env uuid serial,
      demo_http POST ''/client/customers'' (Some (''key'', demo_user ''agent'' (Some k))) (Body_customer demo_customer_body))"


end
