(* ===== verification/Startup.thy ===== *)
theory Startup
  imports Prelude
begin

text \<open>
  What the services read from their environment before they serve: database URLs (\<^verbatim>\<open>config.py\<close>, with the
  copies in \<^verbatim>\<open>app/config/settings.py\<close>, \<^verbatim>\<open>alembic/env.py\<close> and \<^verbatim>\<open>scripts/seed_dev.py\<close>), the settings of the API and
  its check at startup, and the settings and the outgoing call of the telephony provider
  (\<^verbatim>\<open>packages/providers\<close>). An environment is a map from names to values.
\<close>

section \<open>More of Python's strings\<close>

text \<open>\<^verbatim>\<open>str.replace(old, new, 1)\<close>, and the rest of a string from the first occurrence of another.\<close>

fun py_replace1 :: "string \<Rightarrow> string \<Rightarrow> string \<Rightarrow> string" where
  "py_replace1 old new [] = []"
| "py_replace1 old new (c # s) =
     (if py_startswith (c # s) old then new @ drop (length old) (c # s) else c # py_replace1 old new s)"

fun rest_from :: "string \<Rightarrow> string \<Rightarrow> string option" where
  "rest_from sub [] = None"
| "rest_from sub (c # s) = (if py_startswith (c # s) sub then Some (c # s) else rest_from sub s)"

fun py_join :: "string \<Rightarrow> string list \<Rightarrow> string" where
  "py_join sep [] = []"
| "py_join sep [s] = s"
| "py_join sep (s # t # ss) = s @ sep @ py_join sep (t # ss)"

text \<open>\<^verbatim>\<open>int(s)\<close>: decimal digits, single underscores between them, an optional sign, spaces around.\<close>

definition py_int :: "string \<Rightarrow> int option" where
  "py_int s =
     (let t = py_strip s;
          neg = (t \<noteq> [] \<and> hd t = CHR 45);
          ds = (if t \<noteq> [] \<and> (hd t = CHR 45 \<or> hd t = CHR 43) then tl t else t)
      in if list_all (\<lambda>g. g \<noteq> [] \<and> list_all is_digit g) (py_split CHR 95 ds)
         then let v = int (digits_value (filter is_digit ds)) in Some (if neg then - v else v)
         else None)"

section \<open>Database URLs\<close>

definition ASYNCPG :: string where
  "ASYNCPG = ''postgresql+asyncpg''"

text \<open>\<^verbatim>\<open>url.index\<close> raises when a URL names a driver but has no \<^verbatim>\<open>://\<close>; then the result is \<open>None\<close>.\<close>

definition to_asyncpg_url :: "string \<Rightarrow> string option" where
  "to_asyncpg_url url =
     (if url = [] \<or> py_in ''+asyncpg'' url then Some url
      else if py_startswith url ''postgresql+''
           then map_option (\<lambda>r. ASYNCPG @ r) (rest_from ''://'' (drop (length ''postgresql+'') url))
      else if py_startswith url ''postgres+''
           then map_option (\<lambda>r. ASYNCPG @ r) (rest_from ''://'' (drop (length ''postgres+'') url))
      else Some (py_replace1 ''postgres://'' (ASYNCPG @ ''://'')
                  (py_replace1 ''postgresql://'' (ASYNCPG @ ''://'') url)))"

definition app_to_asyncpg_url :: "string \<Rightarrow> string" where
  "app_to_asyncpg_url url =
     (if url = [] \<or> py_in ''+asyncpg'' url then url
      else py_replace1 ''postgres://'' (ASYNCPG @ ''://'') (py_replace1 ''postgresql://'' (ASYNCPG @ ''://'') url))"

definition SEED_PREFIXES :: "string list" where
  "SEED_PREFIXES = [''postgresql+psycopg://'', ''postgresql+psycopg2://'', ''postgresql://'', ''postgres://'']"

definition seed_to_asyncpg :: "string \<Rightarrow> string" where
  "seed_to_asyncpg url =
     (if py_in ''+asyncpg'' url then url
      else case List.find (py_startswith url) SEED_PREFIXES of
             Some prefix \<Rightarrow> ASYNCPG @ ''://'' @ drop (length prefix) url
           | None \<Rightarrow> url)"

section \<open>Settings of the API\<close>

type_synonym environment = "string \<Rightarrow> string option"

definition getenv :: "environment \<Rightarrow> string \<Rightarrow> string \<Rightarrow> string" where
  "getenv env name dflt = (case env name of Some v \<Rightarrow> v | None \<Rightarrow> dflt)"

record config =
  REDIS_URL :: string
  DATABASE_URL :: string
  DB_SSL_REQUIRED :: bool
  cfg_jwt_secret_key :: string
  cfg_jwt_algorithm :: string
  cfg_access_minutes :: int
  cfg_refresh_minutes :: int
  API_CORS_ORIGINS :: "string list"
  INTERNAL_API_TOKEN :: string
  cfg_api_username :: string
  cfg_api_password :: string
  cfg_admin_email :: string
  cfg_admin_full_name :: string

definition raw_db_url :: "environment \<Rightarrow> string" where
  "raw_db_url env =
     (case py_or (env ''SUPABASE_DB_URL'') (env ''DATABASE_URL'') of Some u \<Rightarrow> u | None \<Rightarrow> [])"

definition cors_origins :: "string \<Rightarrow> string list" where
  "cors_origins s = map py_strip (filter (\<lambda>origin. py_strip origin \<noteq> []) (py_split CHR 44 s))"

text \<open>Importing \<^verbatim>\<open>config.py\<close>: a value that is no integer, or a URL without \<^verbatim>\<open>://\<close>, stops the process.\<close>

definition load_config :: "environment \<Rightarrow> string + config" where
  "load_config env =
     (case to_asyncpg_url (raw_db_url env) of None \<Rightarrow> Inl ''substring not found'' | Some url \<Rightarrow>
      case py_int (getenv env ''JWT_ACCESS_TOKEN_EXPIRE_MINUTES'' ''30'') of None \<Rightarrow> Inl ''invalid literal for int()'' | Some am \<Rightarrow>
      case py_int (getenv env ''JWT_REFRESH_TOKEN_EXPIRE_MINUTES'' ''10080'') of None \<Rightarrow> Inl ''invalid literal for int()'' | Some rm \<Rightarrow>
        Inr \<lparr>REDIS_URL = getenv env ''REDIS_URL'' [], DATABASE_URL = url,
             DB_SSL_REQUIRED = (py_lower (getenv env ''DB_SSL_REQUIRED'' ''true'') = ''true''),
             cfg_jwt_secret_key = getenv env ''JWT_SECRET_KEY'' [],
             cfg_jwt_algorithm = getenv env ''JWT_ALGORITHM'' ''HS256'',
             cfg_access_minutes = am, cfg_refresh_minutes = rm,
             API_CORS_ORIGINS = cors_origins (getenv env ''API_CORS_ORIGINS'' []),
             INTERNAL_API_TOKEN = getenv env ''INTERNAL_API_TOKEN'' [],
             cfg_api_username = getenv env ''API_USERNAME'' ''admin'',
             cfg_api_password = (if truthy (env ''API_PASSWORD'') then the (env ''API_PASSWORD'')
                                 else getenv env ''API_SECRET_KEY'' []),
             cfg_admin_email = getenv env ''API_ADMIN_EMAIL'' ''admin@staykaro.com'',
             cfg_admin_full_name = getenv env ''API_ADMIN_FULL_NAME'' ''System Admin''\<rparr>)"

text \<open>An error that stops the start, or the names the warnings are about.\<close>

definition validate_startup_config :: "config \<Rightarrow> string + string list" where
  "validate_startup_config cfg =
     (let critical_missing =
            (if DATABASE_URL cfg = [] then [''DATABASE_URL / SUPABASE_DB_URL''] else [])
            @ (if cfg_jwt_secret_key cfg = [] then [''JWT_SECRET_KEY''] else [])
      in if critical_missing \<noteq> []
         then Inl (''Critical env vars missing - cannot start: '' @ py_join '', '' critical_missing)
         else Inr ((if REDIS_URL cfg = [] then [''REDIS_URL''] else [])
                @ (if cfg_api_password cfg = [] then [''API_SECRET_KEY''] else [])
                @ (if INTERNAL_API_TOKEN cfg = [] then [''INTERNAL_API_TOKEN''] else [])))"

definition start_api :: "environment \<Rightarrow> string + config \<times> string list" where
  "start_api env =
     (case load_config env of
        Inl e \<Rightarrow> Inl e
      | Inr cfg \<Rightarrow> map_sum id (\<lambda>warnings. (cfg, warnings)) (validate_startup_config cfg))"

text \<open>
  The options an engine is built with: TLS with or without checking the server's certificate, and
  the pool, which SQLite does not take.
\<close>

datatype tls = No_tls | Tls_unverified | Tls_verified

record pool_options =
  po_size :: int
  po_max_overflow :: int
  po_pre_ping :: bool
  po_recycle :: int

record engine_options =
  eo_url :: string
  eo_tls :: tls
  eo_pool :: "pool_options option"

definition pool_kwargs :: "string \<Rightarrow> pool_options option" where
  "pool_kwargs url =
     (if py_startswith url ''sqlite'' then None
      else Some \<lparr>po_size = 5, po_max_overflow = 10, po_pre_ping = True, po_recycle = 1800\<rparr>)"

definition build_engine :: "bool \<Rightarrow> string \<Rightarrow> engine_options" where
  "build_engine ssl_required url =
     \<lparr>eo_url = url, eo_tls = (if ssl_required then Tls_unverified else No_tls), eo_pool = pool_kwargs url\<rparr>"

text \<open>The former application checks certificates.\<close>

definition app_engine :: "bool \<Rightarrow> string \<Rightarrow> engine_options" where
  "app_engine ssl_required url =
     \<lparr>eo_url = url, eo_tls = (if ssl_required then Tls_verified else No_tls), eo_pool = pool_kwargs url\<rparr>"

text \<open>The URL the migrations connect with.\<close>

definition migration_url :: "environment \<Rightarrow> config \<Rightarrow> string option" where
  "migration_url env cfg =
     map_option (\<lambda>u. if u \<noteq> [] then u else DATABASE_URL cfg)
       (to_asyncpg_url (getenv env ''MIGRATION_DATABASE_URL'' []))"

definition migration_engine :: "environment \<Rightarrow> config \<Rightarrow> engine_options option" where
  "migration_engine env cfg = map_option (build_engine (DB_SSL_REQUIRED cfg)) (migration_url env cfg)"

text \<open>The migrations connect like the application, with at most fifteen connections, but for the URL.\<close>

lemma migration_engine_options:
  assumes "migration_engine env cfg = Some e"
  shows "eo_tls e = eo_tls (build_engine (DB_SSL_REQUIRED cfg) (DATABASE_URL cfg))
    \<and> (case eo_pool e of None \<Rightarrow> py_startswith (eo_url e) ''sqlite'' | Some p \<Rightarrow> po_size p + po_max_overflow p = 15)"
  using assms by (auto simp: migration_engine_def build_engine_def pool_kwargs_def)

section \<open>The telephony provider\<close>

record exotel_settings =
  api_key :: string
  api_secret :: string
  sid :: string
  subdomain :: string
  caller_id :: string
  webhook_token :: string
  timeout_seconds :: json

definition EXOTEL_NAMES :: "string list" where
  "EXOTEL_NAMES = [''EXOTEL_API_KEY'', ''EXOTEL_API_SECRET'', ''EXOTEL_SID'', ''EXOTEL_SUBDOMAIN'',
     ''EXOTEL_CALLER_ID'', ''EXOTEL_WEBHOOK_TOKEN'']"

datatype provider_exc = ProviderError string | Escaped string

text \<open>\<open>py_float\<close> stands for \<^verbatim>\<open>float\<close> on a string: a number, or \<open>None\<close> for a \<^verbatim>\<open>ValueError\<close>, which is not caught.\<close>

definition exotel_from_environment :: "(string \<Rightarrow> json option) \<Rightarrow> environment \<Rightarrow> provider_exc + exotel_settings" where
  "exotel_from_environment py_float env =
     (let values = (\<lambda>name. py_strip (getenv env name []));
          missing = filter (\<lambda>name. values name = []) EXOTEL_NAMES
      in if missing \<noteq> [] then Inl (ProviderError (''Missing required Exotel configuration: '' @ py_join '', '' missing))
         else case py_float (getenv env ''EXOTEL_TIMEOUT_SECONDS'' ''10'') of
                None \<Rightarrow> Inl (Escaped ''ValueError'')
              | Some t \<Rightarrow>
                  Inr \<lparr>api_key = values ''EXOTEL_API_KEY'', api_secret = values ''EXOTEL_API_SECRET'', sid = values ''EXOTEL_SID'',
                       subdomain = values ''EXOTEL_SUBDOMAIN'', caller_id = values ''EXOTEL_CALLER_ID'',
                       webhook_token = values ''EXOTEL_WEBHOOK_TOKEN'', timeout_seconds = t\<rparr>)"

record telephony_call_request =
  tr_call_id :: string
  tr_to_number :: string
  tr_from_number :: string
  tr_voice_callback_url :: string

definition valid_call_request :: "telephony_call_request \<Rightarrow> bool" where
  "valid_call_request r \<longleftrightarrow>
     tr_call_id r \<noteq> [] \<and> tr_to_number r \<noteq> [] \<and> tr_from_number r \<noteq> [] \<and> tr_voice_callback_url r \<noteq> []"

record telephony_call_result =
  tc_provider_call_id :: string
  tc_status :: string

definition endpoint :: "exotel_settings \<Rightarrow> string" where
  "endpoint s = ''https://'' @ subdomain s @ ''/v1/Accounts/'' @ sid s @ ''/Calls/connect.json''"

record exotel_post =
  po_url :: string
  po_data :: "(string \<times> string) list"
  po_auth :: "string \<times> string"

definition call_post :: "exotel_settings \<Rightarrow> telephony_call_request \<Rightarrow> exotel_post" where
  "call_post s r =
     \<lparr>po_url = endpoint s,
      po_data = [(''From'', tr_from_number r), (''To'', tr_to_number r), (''CallerId'', caller_id s),
                 (''Url'', tr_voice_callback_url r)],
      po_auth = (api_key s, api_secret s)\<rparr>"

text \<open>What the request can come to: a timeout, another transport error, a status and perhaps a JSON body.\<close>

datatype post_result = Timed_out | Http_failed | Answered nat "json option"

text \<open>\<^verbatim>\<open>str\<close> of a JSON value; \<open>py_repr\<close> stands for the containers and floats.\<close>

fun py_str :: "(json \<Rightarrow> string) \<Rightarrow> json \<Rightarrow> string" where
  "py_str py_repr (JStr s) = s"
| "py_str py_repr (JInt n) = int_str n"
| "py_str py_repr JNull = ''None''"
| "py_str py_repr (JBool b) = (if b then ''True'' else ''False'')"
| "py_str py_repr v = py_repr v"

fun json_get :: "json \<Rightarrow> string \<Rightarrow> json option" where
  "json_get (JObj kvs) k = Some (case dict_get kvs k of None \<Rightarrow> JNull | Some v \<Rightarrow> v)"
| "json_get _ k = None"

definition py_json_or :: "json \<Rightarrow> json \<Rightarrow> json" where
  "py_json_or a b = (if json_truthy a then a else b)"

text \<open>\<^verbatim>\<open>.get\<close> on a value that is no object raises an \<^verbatim>\<open>AttributeError\<close>, outside of the \<^verbatim>\<open>try\<close>.\<close>

definition parse_call :: "(json \<Rightarrow> string) \<Rightarrow> json \<Rightarrow> provider_exc + telephony_call_result" where
  "parse_call py_repr body =
     (case json_get body ''Call'' of None \<Rightarrow> Inl (Escaped ''AttributeError'') | Some c1 \<Rightarrow>
      case json_get body ''call'' of None \<Rightarrow> Inl (Escaped ''AttributeError'') | Some c2 \<Rightarrow>
      let c = py_json_or c1 (py_json_or c2 (JObj [])) in
      case json_get c ''Sid'' of None \<Rightarrow> Inl (Escaped ''AttributeError'') | Some s1 \<Rightarrow>
      case json_get c ''sid'' of None \<Rightarrow> Inl (Escaped ''AttributeError'') | Some s2 \<Rightarrow>
      let provider_call_id = py_json_or s1 s2 in
      if \<not> json_truthy provider_call_id then Inl (ProviderError ''Exotel response did not include a call identifier'')
      else Inr \<lparr>tc_provider_call_id = py_str py_repr provider_call_id,
                tc_status = (case c of JObj kvs \<Rightarrow> (case dict_get kvs ''Status'' of None \<Rightarrow> ''queued'' | Some v \<Rightarrow> py_str py_repr v)
                             | _ \<Rightarrow> [])\<rparr>)"

definition start_call ::
  "(json \<Rightarrow> string) \<Rightarrow> (exotel_post \<Rightarrow> post_result) \<Rightarrow> exotel_settings \<Rightarrow> telephony_call_request
     \<Rightarrow> provider_exc + telephony_call_result"
where
  "start_call py_repr post s r =
     (case post (call_post s r) of
        Timed_out \<Rightarrow> Inl (ProviderError ''Exotel request timed out'')
      | Http_failed \<Rightarrow> Inl (ProviderError ''Exotel request failed'')
      | Answered code body \<Rightarrow>
          if \<not> (200 \<le> code \<and> code < 300) then Inl (ProviderError ''Exotel rejected call request'')
          else case body of
                 None \<Rightarrow> Inl (ProviderError ''Exotel request failed'')
               | Some b \<Rightarrow> parse_call py_repr b)"

section \<open>URLs are normalised once\<close>

lemma py_startswith_append: "py_startswith s p \<Longrightarrow> py_startswith (s @ t) p"
proof -
  assume "py_startswith s p"
  then obtain r where "s = p @ r" unfolding py_startswith_def by (metis append_take_drop_id)
  then show ?thesis by (simp add: py_startswith_def)
qed

lemma py_in_append_left: "py_in sub s \<Longrightarrow> py_in sub (s @ t)"
proof (induction s)
  case Nil
  then show ?case by (cases t) (simp_all add: py_startswith_def)
qed (use py_startswith_append in fastforce)

lemma py_in_append_right: "py_in sub t \<Longrightarrow> py_in sub (s @ t)"
  by (induction s) simp_all

lemma asyncpg_marked: "py_in ''+asyncpg'' (a @ ASYNCPG @ r)"
proof -
  have "py_in ''+asyncpg'' ASYNCPG" by code_simp
  then show ?thesis by (intro py_in_append_right py_in_append_left)
qed

lemma py_replace1_cases: "py_replace1 old new s = s \<or> (\<exists>a b. py_replace1 old new s = a @ new @ b)"
proof (induction s)
  case (Cons c s)
  show ?case
  proof (cases "py_startswith (c # s) old")
    case True
    then have "py_replace1 old new (c # s) = [] @ new @ drop (length old) (c # s)" by simp
    then show ?thesis by blast
  next
    case False
    with Cons.IH show ?thesis by (metis append_Cons py_replace1.simps(2))
  qed
qed simp

lemma replaced_is_marked:
  "py_replace1 old (ASYNCPG @ ''://'') s = s \<or> py_in ''+asyncpg'' (py_replace1 old (ASYNCPG @ ''://'') s)"
  using py_replace1_cases [of old "ASYNCPG @ ''://''" s] asyncpg_marked by (metis append.assoc)

lemma to_asyncpg_url_marked: "to_asyncpg_url u = Some v \<Longrightarrow> v = u \<or> py_in ''+asyncpg'' v"
  using replaced_is_marked [of "''postgres://''" "py_replace1 ''postgresql://'' (ASYNCPG @ ''://'') u"]
    replaced_is_marked [of "''postgresql://''" u] asyncpg_marked [of "[]"]
  by (auto simp: to_asyncpg_url_def split: if_splits)

lemma py_replace1_none: "\<not> py_in old s \<Longrightarrow> py_replace1 old new s = s"
  by (induction s) auto

lemma py_replace1_front: "old \<noteq> [] \<Longrightarrow> py_replace1 old new (old @ s) = new @ s"
  by (cases old) (simp_all add: py_startswith_def)

lemma asyncpg_prefix_clean: "\<not> py_in ''postgres://'' s \<Longrightarrow> \<not> py_in ''postgres://'' (ASYNCPG @ ''://'' @ s)"
  by (simp add: ASYNCPG_def py_startswith_def)

lemma other_scheme: "py_replace1 ''postgresql://'' new (''postgres://'' @ s) = ''postgres://'' @ py_replace1 ''postgresql://'' new s"
  by (simp add: py_startswith_def)

text \<open>A database URL with one of the two plain schemes comes out with the asyncpg driver and its rest
  unchanged, from all three normalisers alike, and normalising any URL twice is normalising it once.\<close>

lemma url_normalisers_agree:
  assumes "scheme \<in> {''postgresql://'', ''postgres://''}" "\<not> py_in ''+asyncpg'' (scheme @ rest)"
    and "\<not> py_in ''postgres://'' rest" "\<not> py_in ''postgresql://'' rest"
  shows "to_asyncpg_url (scheme @ rest) = Some (ASYNCPG @ ''://'' @ rest)
    \<and> app_to_asyncpg_url (scheme @ rest) = ASYNCPG @ ''://'' @ rest
    \<and> seed_to_asyncpg (scheme @ rest) = ASYNCPG @ ''://'' @ rest
    \<and> (to_asyncpg_url u = Some v \<longrightarrow> to_asyncpg_url v = Some v)"
proof -
  let ?r = "\<lambda>s. py_replace1 ''postgres://'' (ASYNCPG @ ''://'') (py_replace1 ''postgresql://'' (ASYNCPG @ ''://'') s)"
  have r: "?r (scheme @ rest) = ASYNCPG @ ''://'' @ rest"
  proof (cases "scheme = ''postgres://''")
    case True
    have "py_replace1 ''postgresql://'' (ASYNCPG @ ''://'') rest = rest" using assms(4) by (rule py_replace1_none)
    then show ?thesis unfolding True other_scheme by (subst py_replace1_front) simp_all
  next
    case False
    then have s: "scheme = ''postgresql://''" using assms(1) by simp
    have "py_replace1 ''postgresql://'' (ASYNCPG @ ''://'') (scheme @ rest) = ASYNCPG @ ''://'' @ rest"
      unfolding s by (subst py_replace1_front) simp_all
    then show ?thesis using asyncpg_prefix_clean [OF assms(3)] by (simp add: py_replace1_none)
  qed
  have pre: "\<not> py_startswith (scheme @ rest) ''postgresql+''" "\<not> py_startswith (scheme @ rest) ''postgres+''" "scheme @ rest \<noteq> []"
    using assms(1) by (auto simp: py_startswith_def)
  have "seed_to_asyncpg (scheme @ rest) = ASYNCPG @ ''://'' @ rest"
    using assms(1,2) by (auto simp: seed_to_asyncpg_def SEED_PREFIXES_def py_startswith_def)
  moreover have "to_asyncpg_url (scheme @ rest) = Some (?r (scheme @ rest))"
    using assms(2) pre by (simp only: to_asyncpg_url_def if_False simp_thms)
  moreover have "app_to_asyncpg_url (scheme @ rest) = ?r (scheme @ rest)"
    using assms(2) pre by (simp only: app_to_asyncpg_url_def if_False simp_thms)
  moreover have "to_asyncpg_url v = Some v" if "to_asyncpg_url u = Some v"
    using to_asyncpg_url_marked [OF that] that by (auto simp: to_asyncpg_url_def)
  ultimately show ?thesis by (simp only: r) simp
qed

lemma url_normalisers_agree_example:
  "to_asyncpg_url ''postgres://u:p@db/x'' = Some ''postgresql+asyncpg://u:p@db/x''"
  using url_normalisers_agree [of "''postgres://''" "''u:p@db/x''" "[]" "[]"] by (simp add: py_startswith_def ASYNCPG_def)

section \<open>Startup\<close>

text \<open>The API starts exactly when its settings can be read, a database URL is given in either variable and a
  signing key is set; otherwise the error names precisely what is missing. Missing optional settings
  never stop it.\<close>

lemma api_starts_iff_configured:
  assumes "load_config env = Inr cfg"
  shows "(start_api env = Inr (cfg, ws) \<longrightarrow> set ws \<subseteq> {''REDIS_URL'', ''API_SECRET_KEY'', ''INTERNAL_API_TOKEN''})
    \<and> (isl (start_api env) \<longleftrightarrow> \<not> (truthy (env ''SUPABASE_DB_URL'') \<or> truthy (env ''DATABASE_URL'')) \<or> \<not> truthy (env ''JWT_SECRET_KEY''))
    \<and> (start_api env = Inl e \<longrightarrow>
        (py_in ''DATABASE_URL'' e \<longleftrightarrow> \<not> (truthy (env ''SUPABASE_DB_URL'') \<or> truthy (env ''DATABASE_URL'')))
        \<and> (py_in ''JWT_SECRET_KEY'' e \<longleftrightarrow> \<not> truthy (env ''JWT_SECRET_KEY'')))"
proof -
  from assms obtain url where url: "to_asyncpg_url (raw_db_url env) = Some url" "DATABASE_URL cfg = url"
    and key: "cfg_jwt_secret_key cfg = getenv env ''JWT_SECRET_KEY'' []"
    by (auto simp: load_config_def split: option.splits)
  have "url = [] \<longleftrightarrow> raw_db_url env = []"
    using to_asyncpg_url_marked [OF url(1)] url(1) by (auto simp: to_asyncpg_url_def)
  also have "\<dots> \<longleftrightarrow> \<not> (truthy (env ''SUPABASE_DB_URL'') \<or> truthy (env ''DATABASE_URL''))"
    by (auto simp: raw_db_url_def py_or_def truthy_def split: option.splits)
  finally have db: "DATABASE_URL cfg = [] \<longleftrightarrow> \<not> (truthy (env ''SUPABASE_DB_URL'') \<or> truthy (env ''DATABASE_URL''))"
    by (simp add: url(2))
  have jwt: "cfg_jwt_secret_key cfg = [] \<longleftrightarrow> \<not> truthy (env ''JWT_SECRET_KEY'')"
    by (auto simp: key getenv_def truthy_def split: option.splits)
  have st: "start_api env = map_sum id (\<lambda>warnings. (cfg, warnings)) (validate_startup_config cfg)"
    by (simp add: start_api_def assms)
  consider "DATABASE_URL cfg = []" "cfg_jwt_secret_key cfg = []" | "DATABASE_URL cfg = []" "cfg_jwt_secret_key cfg \<noteq> []"
    | "DATABASE_URL cfg \<noteq> []" "cfg_jwt_secret_key cfg = []" | "DATABASE_URL cfg \<noteq> []" "cfg_jwt_secret_key cfg \<noteq> []" by blast
  then show ?thesis
    unfolding st db [symmetric] jwt [symmetric]
    by cases (auto simp: validate_startup_config_def py_startswith_def split: if_splits)
qed

lemma api_starts_iff_configured_example:
  "isl (start_api [''DATABASE_URL'' \<mapsto> ''postgresql://db/x''])"
proof -
  obtain cfg where "load_config [''DATABASE_URL'' \<mapsto> ''postgresql://db/x''] = Inr cfg"
    by (simp add: load_config_def raw_db_url_def py_or_def getenv_def to_asyncpg_url_def py_startswith_def py_int_def
        py_strip_def py_lstrip_def is_space_def is_digit_def Let_def)
  from api_starts_iff_configured [OF this] show ?thesis by simp
qed

section \<open>Failures of the provider\<close>

definition is_object :: "json \<Rightarrow> bool" where
  "is_object v = (case v of JObj _ \<Rightarrow> True | _ \<Rightarrow> False)"

definition call_entry :: "json \<Rightarrow> json" where
  "call_entry body =
     (case body of
        JObj kvs \<Rightarrow> py_json_or (case dict_get kvs ''Call'' of None \<Rightarrow> JNull | Some v \<Rightarrow> v)
                     (py_json_or (case dict_get kvs ''call'' of None \<Rightarrow> JNull | Some v \<Rightarrow> v) (JObj []))
      | _ \<Rightarrow> JNull)"

lemma json_get_None: "json_get v k = None \<longleftrightarrow> \<not> is_object v"
  by (cases v) (simp_all add: is_object_def)

lemma py_str_truthy: "json_truthy v \<Longrightarrow> (\<And>x. py_repr x \<noteq> []) \<Longrightarrow> py_str py_repr v \<noteq> []"
  by (cases v) auto

lemma parse_call_outcome:
  assumes "\<And>x. py_repr x \<noteq> []"
  shows "(\<exists>e. parse_call py_repr b = Inl (Escaped e)) \<longleftrightarrow> \<not> (is_object b \<and> is_object (call_entry b))"
    and "parse_call py_repr b = Inr res \<Longrightarrow> tc_provider_call_id res \<noteq> []"
proof -
  show "(\<exists>e. parse_call py_repr b = Inl (Escaped e)) \<longleftrightarrow> \<not> (is_object b \<and> is_object (call_entry b))"
  proof (cases b)
    case (JObj kvs)
    then show ?thesis
      by (cases "call_entry b") (auto simp: parse_call_def call_entry_def is_object_def Let_def)
  qed (simp_all add: parse_call_def is_object_def)
  show "parse_call py_repr b = Inr res \<Longrightarrow> tc_provider_call_id res \<noteq> []"
    using assms by (auto simp: parse_call_def Let_def py_str_truthy split: option.splits if_splits)
qed



end
