(* ===== verification/Wiring.thy ===== *)
theory Wiring
  imports Startup Worker Gateway Routes
begin

text \<open>
  How the processes come up: what the API, the worker, the gateway and the integration service read from
  their environments when their modules are imported, the Redis clients they build, the addresses
  under which they reach each other, and the list in Redis that carries the wake-ups.

  \<open>from_url\<close> stands for \<^verbatim>\<open>redis.Redis.from_url\<close>: it raises for a URL it does not understand (\<open>None\<close>) and
  otherwise returns a client, without connecting.
\<close>

section \<open>Redis clients\<close>

text \<open>\<^verbatim>\<open>routers/jobs.py\<close> and the integration service catch the error and go on without a client.\<close>

definition guarded_client :: "(string \<Rightarrow> 'r option) \<Rightarrow> string \<Rightarrow> 'r option" where
  "guarded_client from_url url = (if url = [] then None else from_url url)"

definition jobs_redis :: "(string \<Rightarrow> 'r option) \<Rightarrow> config \<Rightarrow> 'r option" where
  "jobs_redis from_url cfg = guarded_client from_url (REDIS_URL cfg)"

definition integration_redis :: "(string \<Rightarrow> 'r option) \<Rightarrow> environment \<Rightarrow> 'r option" where
  "integration_redis from_url env = guarded_client from_url (getenv env ''REDIS_URL'' [])"

text \<open>The API's own client is built without a guard: the error leaves the import of \<^verbatim>\<open>main.py\<close>.\<close>

definition api_redis :: "(string \<Rightarrow> 'r option) \<Rightarrow> config \<Rightarrow> string + 'r option" where
  "api_redis from_url cfg =
     (if REDIS_URL cfg = [] then Inr None
      else case from_url (REDIS_URL cfg) of None \<Rightarrow> Inl ''ValueError'' | Some r \<Rightarrow> Inr (Some r))"

text \<open>The gateway: the shared client, and the session manager, which reads the variable itself when it gets none.\<close>

definition shared_redis :: "(string \<Rightarrow> 'r option) \<Rightarrow> environment \<Rightarrow> 'r option" where
  "shared_redis from_url env = (if truthy (env ''REDIS_URL'') then from_url (the (env ''REDIS_URL'')) else None)"

definition manager_redis :: "(string \<Rightarrow> 'r option) \<Rightarrow> environment \<Rightarrow> 'r option \<Rightarrow> 'r option" where
  "manager_redis from_url env client =
     (case client of
        Some r \<Rightarrow> Some r
      | None \<Rightarrow> (if truthy (env ''REDIS_URL'') then from_url (the (env ''REDIS_URL'')) else None))"

text \<open>Sessions and the provider's identifiers are kept in the same place.\<close>

lemma manager_uses_shared_redis: "manager_redis from_url env (shared_redis from_url env) = shared_redis from_url env"
  by (simp add: manager_redis_def shared_redis_def split: option.split)

section \<open>Importing the API\<close>

record 'r api_process =
  pr_config :: config
  pr_jobs_redis :: "'r option"
  pr_redis :: "'r option"
  MONITORING_INTERVAL_SECONDS :: int

text \<open>In the order of the imports: the settings, the routers, then the module \<^verbatim>\<open>main.py\<close> itself.\<close>

definition import_api :: "(string \<Rightarrow> 'r option) \<Rightarrow> environment \<Rightarrow> string + 'r api_process" where
  "import_api from_url env =
     (case load_config env of Inl e \<Rightarrow> Inl e | Inr cfg \<Rightarrow>
      case py_int (getenv env ''MONITORING_INTERVAL_SECONDS'' ''60'') of None \<Rightarrow> Inl ''invalid literal for int()'' | Some t \<Rightarrow>
      case api_redis from_url cfg of Inl e \<Rightarrow> Inl e | Inr r \<Rightarrow>
        Inr \<lparr>pr_config = cfg, pr_jobs_redis = jobs_redis from_url cfg, pr_redis = r, MONITORING_INTERVAL_SECONDS = t\<rparr>)"

text \<open>Once the API is up, its two clients are both there or both absent.\<close>

lemma api_clients_agree:
  assumes "import_api from_url env = Inr p"
  shows "pr_jobs_redis p = pr_redis p"
  using assms
  by (auto simp: import_api_def api_redis_def jobs_redis_def guarded_client_def split: sum.splits option.splits if_splits)

lemma load_config_redis_url: "load_config env = Inr cfg \<Longrightarrow> REDIS_URL cfg = getenv env ''REDIS_URL'' []"
  by (auto simp: load_config_def split: option.splits)

text \<open>
  The guard in \<^verbatim>\<open>routers/jobs.py\<close> is there so that a bad \<open>REDIS_URL\<close> never breaks the start; the API does not
  start with one. The gateway and the integration service do, and work without Redis.
\<close>

lemma bad_redis_url_stops_the_api:
  assumes "env ''REDIS_URL'' = Some url" "url \<noteq> []" "from_url url = None" "load_config env = Inr cfg"
  shows "jobs_redis from_url cfg = None" and "isl (import_api from_url env)"
    and "shared_redis from_url env = None" and "integration_redis from_url env = None"
proof -
  from load_config_redis_url [OF assms(4)] assms(1) have "REDIS_URL cfg = url" by (simp add: getenv_def)
  with assms(2,3) show "jobs_redis from_url cfg = None" "isl (import_api from_url env)"
    by (auto simp: jobs_redis_def guarded_client_def import_api_def assms(4) api_redis_def split: option.split)
  from assms show "shared_redis from_url env = None" "integration_redis from_url env = None"
    by (simp_all add: shared_redis_def integration_redis_def guarded_client_def getenv_def)
qed

section \<open>The worker\<close>

definition API_QUEUE_KEY :: string where
  "API_QUEUE_KEY = ''staykaro:jobs:queue''"

record worker_settings =
  wk_redis_url :: string
  wk_internal_api_url :: string
  wk_integration_url :: string
  WORKER_QUEUE_KEY :: string
  BLPOP_TIMEOUT_SECONDS :: int

definition load_worker_settings :: "environment \<Rightarrow> string + worker_settings" where
  "load_worker_settings env =
     (case py_int (getenv env ''WORKER_BLPOP_TIMEOUT_SECONDS'' ''5'') of
        None \<Rightarrow> Inl ''invalid literal for int()''
      | Some t \<Rightarrow>
          Inr \<lparr>wk_redis_url = getenv env ''REDIS_URL'' [],
               wk_internal_api_url = getenv env ''INTERNAL_API_URL'' ''http://api:8000'',
               wk_integration_url = getenv env ''INTEGRATION_SERVICE_URL'' ''http://integration-service:8002'',
               WORKER_QUEUE_KEY = getenv env ''WORKER_QUEUE_KEY'' ''staykaro:jobs:queue'',
               BLPOP_TIMEOUT_SECONDS = t\<rparr>)"

text \<open>\<open>worker_main\<close> from the environment: an error in the settings or in \<open>_connect_redis\<close> ends the process.\<close>

definition start_worker ::
  "(string \<Rightarrow> 'r option) \<Rightarrow> environment \<Rightarrow> tokens \<Rightarrow> bool \<Rightarrow> net \<Rightarrow> bool \<Rightarrow> iteration list \<Rightarrow> world \<Rightarrow> nat \<times> bool list \<times> world" where
  "start_worker from_url env cfg ping_ok n api_up its w =
     (case load_worker_settings env of
        Inl e \<Rightarrow> (1, [], w)
      | Inr st \<Rightarrow>
          if wk_redis_url st \<noteq> [] \<and> from_url (wk_redis_url st) = None then (1, [], w)
          else worker_main cfg (wk_redis_url st) ping_ok n api_up its w)"

text \<open>A worker without a usable Redis URL exits with status 1 before it touches a job.\<close>

lemma worker_needs_redis:
  assumes "\<not> truthy (env ''REDIS_URL'') \<or> from_url (the (env ''REDIS_URL'')) = None"
  shows "start_worker from_url env cfg p n up its w = (1, [], w)"
  using assms
  by (auto simp: start_worker_def load_worker_settings_def worker_main_def getenv_def truthy_def split: option.splits)

section \<open>The wake-up list\<close>

text \<open>Redis lists by key: the API appends to its key, the worker takes from the key it was configured with.\<close>

type_synonym redis_lists = "string \<Rightarrow> string list"

definition rpush :: "string \<Rightarrow> string \<Rightarrow> redis_lists \<Rightarrow> redis_lists" where
  "rpush key v m = m(key := m key @ [v])"

definition blpop_key :: "string \<Rightarrow> redis_lists \<Rightarrow> redis_lists \<times> string option" where
  "blpop_key key m = (case m key of [] \<Rightarrow> (m, None) | v # vs \<Rightarrow> (m(key := vs), Some v))"

text \<open>
  With the default key the two services share one list, the queue of the models: a push of the API and
  a pop of the worker are \<open>notify_worker\<close> and \<open>blpop_queue\<close> on the list under the API's key.
\<close>

lemma default_key_refines_queue:
  assumes "load_worker_settings env = Inr st" "env ''WORKER_QUEUE_KEY'' = None"
  shows "rpush API_QUEUE_KEY jid m API_QUEUE_KEY = notify_worker Redis_up jid (m API_QUEUE_KEY)"
    and "blpop_queue Blpop_answers (s\<lparr>wake_queue := m API_QUEUE_KEY\<rparr>)
      = (case blpop_key (WORKER_QUEUE_KEY st) m of (m', j) \<Rightarrow> (s\<lparr>wake_queue := m' API_QUEUE_KEY\<rparr>, j))"
  using assms
  by (auto simp: rpush_def blpop_key_def blpop_queue_def load_worker_settings_def getenv_def API_QUEUE_KEY_def
      split: option.splits list.splits)

text \<open>
  The key is a setting of the worker only. With any other value, no wake-up of the API arrives, however many it
  sends; jobs are then found by the polls alone.
\<close>

lemma other_key_gets_no_wakeups:
  assumes "load_worker_settings env = Inr st" "env ''WORKER_QUEUE_KEY'' = Some key" "key \<noteq> API_QUEUE_KEY" "m key = []"
  shows "snd (blpop_key (WORKER_QUEUE_KEY st) (fold (rpush API_QUEUE_KEY) jobs m)) = None"
proof -
  have "fold (rpush API_QUEUE_KEY) jobs m key = m key"
    using assms(3) by (induction jobs arbitrary: m) (simp_all add: rpush_def)
  then show ?thesis
    using assms by (auto simp: blpop_key_def load_worker_settings_def getenv_def split: option.splits)
qed

section \<open>Addresses\<close>

text \<open>The clients join a base URL without its final slashes and a path.\<close>

definition client_url :: "string \<Rightarrow> string \<Rightarrow> string" where
  "client_url base_url path = rev (dropWhile (\<lambda>c. c = CHR 47) (rev base_url)) @ path"

lemma client_url_ignores_slashes: "client_url (base_url @ replicate n CHR 47) path = client_url base_url path"
proof -
  have "dropWhile (\<lambda>c. c = CHR 47) (replicate n CHR 47 @ cs) = dropWhile (\<lambda>c. c = CHR 47) cs" for cs
    by (induction n) simp_all
  then show ?thesis by (simp add: client_url_def)
qed

section \<open>The routes of the gateway\<close>

text \<open>
  \<open>_register_exotel_router\<close> raises without a webhook token; the import goes on and the callback's
  routes are missing.
\<close>

definition registered_routes :: "environment \<Rightarrow> gateway_endpoint route list" where
  "registered_routes env =
     filter (\<lambda>r. ro_endpoint r \<noteq> Ep_callback \<or> exotel_config (getenv env ''EXOTEL_WEBHOOK_TOKEN'' []) \<noteq> None) gateway_routes"

lemma callback_route_needs_token:
  "dispatch (registered_routes env) POST ''/telephony/exotel/callback'' =
     (if py_strip (getenv env ''EXOTEL_WEBHOOK_TOKEN'' []) = [] then Not_found else Found Ep_callback [])"
proof (cases "py_strip (getenv env ''EXOTEL_WEBHOOK_TOKEN'' []) = []")
  case True
  then have "registered_routes env = take 2 gateway_routes"
    by (simp add: registered_routes_def gateway_routes_def exotel_config_def)
  moreover have "dispatch (take 2 gateway_routes) POST ''/telephony/exotel/callback'' = Not_found" by code_simp
  ultimately show ?thesis using True by simp
next
  case False
  then have "registered_routes env = gateway_routes"
    by (simp add: registered_routes_def exotel_config_def Let_def)
  moreover have "dispatch gateway_routes POST ''/telephony/exotel/callback'' = Found Ep_callback []" by code_simp
  ultimately show ?thesis using False by simp
qed

end
