(* ===== verification/Schema.thy ===== *)
theory Schema
  imports Prelude
begin

text \<open>
  The part of PostgreSQL's data definition language that the migrations use, on tables that hold rows:
  every statement checks what the server checks (existing names, NOT NULL and CHECK on the rows present,
  foreign keys that still refer to a table) and fails otherwise. \<open>table_ok\<close> is what a table's definition
  promises of its rows, and no statement breaks it.
\<close>

section \<open>Tables\<close>

datatype sql_type = Varchar "nat option" | Integer | Text | Boolean | Timestamptz | Json | Jsonb

datatype sql_value = Null | Str string | Bool bool | Other

datatype sql_default = Literal string | FalseDefault | NowDefault

record column =
  col_name :: string
  col_type :: sql_type
  nullable :: bool
  server_default :: "sql_default option"

record foreign_key =
  fk_column :: string
  fk_table :: string
  fk_target :: string
  fk_ondelete :: "string option"

text \<open>Every CHECK of the program is \<open>column IN (\<dots>)\<close>.\<close>

record check =
  ck_name :: string
  ck_column :: string
  ck_values :: "string list"

record index =
  ix_name :: string
  ix_columns :: "string list"
  ix_unique :: bool
  ix_where :: "string option"

type_synonym row = "(string \<times> sql_value) list"

record table =
  tb_columns :: "column list"
  tb_primary_key :: "string list"
  tb_foreign_keys :: "foreign_key list"
  tb_checks :: "check list"
  tb_indexes :: "index list"
  tb_granted :: bool
  tb_rls :: bool
  tb_force_rls :: bool
  tb_policy :: "string option"
  tb_rows :: "row list"

abbreviation column_names :: "table \<Rightarrow> string list" where
  "column_names t \<equiv> map col_name (tb_columns t)"

fun fits :: "sql_type \<Rightarrow> sql_value \<Rightarrow> bool" where
  "fits ty Null = True"
| "fits (Varchar None) (Str s) = True"
| "fits (Varchar (Some n)) (Str s) = (length s \<le> n)"
| "fits Text (Str s) = True"
| "fits Boolean (Bool b) = True"
| "fits (Varchar n) Other = False"
| "fits Text Other = False"
| "fits Boolean Other = False"
| "fits ty Other = True"
| "fits ty v = False"

definition column_accepts :: "column \<Rightarrow> sql_value \<Rightarrow> bool" where
  "column_accepts c v = (fits (col_type c) v \<and> (v = Null \<longrightarrow> nullable c))"

text \<open>NULL passes a CHECK.\<close>

definition check_accepts :: "check \<Rightarrow> row \<Rightarrow> bool" where
  "check_accepts k r =
     (case map_of r (ck_column k) of
        Some (Str s) \<Rightarrow> s \<in> set (ck_values k)
      | Some Null \<Rightarrow> True
      | _ \<Rightarrow> False)"

definition row_ok :: "table \<Rightarrow> row \<Rightarrow> bool" where
  "row_ok t r =
     (map fst r = column_names t \<and> list_all2 (\<lambda>c e. column_accepts c (snd e)) (tb_columns t) r
      \<and> (\<forall>k \<in> set (tb_checks t). check_accepts k r))"

definition table_ok :: "table \<Rightarrow> bool" where
  "table_ok t =
     (distinct (column_names t) \<and> (\<forall>k \<in> set (tb_checks t). ck_column k \<in> set (column_names t))
      \<and> (\<forall>r \<in> set (tb_rows t). row_ok t r))"

section \<open>Statements on one table\<close>

datatype table_op =
    CreateIndex index
  | DropIndex string
  | AddColumn column "foreign_key option"
  | DropColumn string
  | AlterColumn string bool sql_default
  | CreateCheck check
  | DropCheck string
  | UpdateNull string sql_value
  | UpdateIn string string "string list"
  | Grant
  | Revoke
  | EnableRls
  | DisableRls
  | ForceRls
  | NoForceRls
  | CreatePolicy string
  | DropPolicyIfExists

text \<open>The value a new column has in existing rows.\<close>

fun default_value :: "sql_default option \<Rightarrow> sql_value" where
  "default_value None = Null"
| "default_value (Some (Literal s)) = Str s"
| "default_value (Some FalseDefault) = Bool False"
| "default_value (Some NowDefault) = Other"

definition set_value :: "string \<Rightarrow> (sql_value \<Rightarrow> bool) \<Rightarrow> sql_value \<Rightarrow> row \<Rightarrow> row" where
  "set_value c P v r = map (\<lambda>e. if fst e = c \<and> P (snd e) then (c, v) else e) r"

definition drop_value :: "string \<Rightarrow> row \<Rightarrow> row" where
  "drop_value c r = filter (\<lambda>e. fst e \<noteq> c) r"

text \<open>Two rows agree on every column of a unique index, none of them NULL there.\<close>

definition clash :: "string list \<Rightarrow> row \<Rightarrow> row \<Rightarrow> bool" where
  "clash cs r r' = (\<forall>c \<in> set cs. map_of r c = map_of r' c \<and> map_of r c \<noteq> Some Null)"

fun clash_free :: "string list \<Rightarrow> row list \<Rightarrow> bool" where
  "clash_free cs [] = True"
| "clash_free cs (r # rs) = ((\<forall>r' \<in> set rs. \<not> clash cs r r') \<and> clash_free cs rs)"

definition update_rows :: "string \<Rightarrow> (sql_value \<Rightarrow> bool) \<Rightarrow> sql_value \<Rightarrow> table \<Rightarrow> table option" where
  "update_rows c P v t =
     (let t' = t\<lparr>tb_rows := map (set_value c P v) (tb_rows t)\<rparr>
      in if c \<in> set (column_names t) \<and> (\<forall>r \<in> set (tb_rows t'). row_ok t' r) then Some t' else None)"

fun table_step :: "table_op \<Rightarrow> table \<Rightarrow> table option" where
  "table_step (CreateIndex i) t =
     (if ix_name i \<notin> ix_name ` set (tb_indexes t) \<and> set (ix_columns i) \<subseteq> set (column_names t)
         \<and> (ix_unique i \<longrightarrow> ix_where i = None \<longrightarrow> clash_free (ix_columns i) (tb_rows t))
      then Some (t\<lparr>tb_indexes := tb_indexes t @ [i]\<rparr>) else None)"
| "table_step (DropIndex n) t =
     (if n \<in> ix_name ` set (tb_indexes t)
      then Some (t\<lparr>tb_indexes := filter (\<lambda>i. ix_name i \<noteq> n) (tb_indexes t)\<rparr>) else None)"
| "table_step (AddColumn c fk) t =
     (let v = default_value (server_default c)
      in if col_name c \<notin> set (column_names t) \<and> (tb_rows t = [] \<or> column_accepts c v)
         then Some (t\<lparr>tb_columns := tb_columns t @ [c],
                      tb_foreign_keys := tb_foreign_keys t @ (case fk of None \<Rightarrow> [] | Some k \<Rightarrow> [k]),
                      tb_rows := map (\<lambda>r. r @ [(col_name c, v)]) (tb_rows t)\<rparr>)
         else None)"
| "table_step (DropColumn n) t =
     (if n \<in> set (column_names t)
      then Some (t\<lparr>tb_columns := filter (\<lambda>c. col_name c \<noteq> n) (tb_columns t),
                   tb_primary_key := filter (\<lambda>c. c \<noteq> n) (tb_primary_key t),
                   tb_foreign_keys := filter (\<lambda>k. fk_column k \<noteq> n) (tb_foreign_keys t),
                   tb_checks := filter (\<lambda>k. ck_column k \<noteq> n) (tb_checks t),
                   tb_indexes := filter (\<lambda>i. n \<notin> set (ix_columns i)) (tb_indexes t),
                   tb_rows := map (drop_value n) (tb_rows t)\<rparr>)
      else None)"
| "table_step (AlterColumn n null d) t =
     (let t' = t\<lparr>tb_columns := map (\<lambda>c. if col_name c = n then c\<lparr>nullable := null, server_default := Some d\<rparr> else c)
                               (tb_columns t)\<rparr>
      in if n \<in> set (column_names t) \<and> (\<forall>r \<in> set (tb_rows t). row_ok t' r) then Some t' else None)"
| "table_step (CreateCheck k) t =
     (if ck_name k \<notin> ck_name ` set (tb_checks t) \<and> ck_column k \<in> set (column_names t)
         \<and> (\<forall>r \<in> set (tb_rows t). check_accepts k r)
      then Some (t\<lparr>tb_checks := tb_checks t @ [k]\<rparr>) else None)"
| "table_step (DropCheck n) t =
     (if n \<in> ck_name ` set (tb_checks t)
      then Some (t\<lparr>tb_checks := filter (\<lambda>k. ck_name k \<noteq> n) (tb_checks t)\<rparr>) else None)"
| "table_step (UpdateNull c v) t = update_rows c (\<lambda>x. x = Null) v t"
| "table_step (UpdateIn c s ss) t = update_rows c (\<lambda>x. x \<in> Str ` set ss) (Str s) t"
| "table_step Grant t = Some (t\<lparr>tb_granted := True\<rparr>)"
| "table_step Revoke t = Some (t\<lparr>tb_granted := False\<rparr>)"
| "table_step EnableRls t = Some (t\<lparr>tb_rls := True\<rparr>)"
| "table_step DisableRls t = Some (t\<lparr>tb_rls := False\<rparr>)"
| "table_step ForceRls t = Some (t\<lparr>tb_force_rls := True\<rparr>)"
| "table_step NoForceRls t = Some (t\<lparr>tb_force_rls := False\<rparr>)"
| "table_step (CreatePolicy e) t = (if tb_policy t = None then Some (t\<lparr>tb_policy := Some e\<rparr>) else None)"
| "table_step DropPolicyIfExists t = Some (t\<lparr>tb_policy := None\<rparr>)"

fun table_steps :: "table_op list \<Rightarrow> table \<Rightarrow> table option" where
  "table_steps [] t = Some t"
| "table_steps (x # xs) t = (case table_step x t of None \<Rightarrow> None | Some t' \<Rightarrow> table_steps xs t')"

lemma table_steps_append:
  "table_steps (xs @ ys) t = (case table_steps xs t of None \<Rightarrow> None | Some t' \<Rightarrow> table_steps ys t')"
  by (induction xs arbitrary: t) (auto split: option.splits)

section \<open>Statements keep what a table promises\<close>

lemma row_ok_cong:
  "tb_columns t = tb_columns t' \<Longrightarrow> tb_checks t = tb_checks t' \<Longrightarrow> row_ok t r = row_ok t' r"
  by (simp add: row_ok_def)

lemma check_accepts_other: "ck_column k \<noteq> n \<Longrightarrow> check_accepts k (drop_value n r) = check_accepts k r"
proof -
  assume "ck_column k \<noteq> n"
  then have "map_of (drop_value n r) (ck_column k) = map_of r (ck_column k)"
    by (induction r) (auto simp: drop_value_def)
  then show ?thesis by (simp add: check_accepts_def)
qed

lemma check_accepts_append: "ck_column k \<in> fst ` set r \<Longrightarrow> check_accepts k (r @ e) = check_accepts k r"
proof -
  assume "ck_column k \<in> fst ` set r"
  then have "map_of (r @ e) (ck_column k) = map_of r (ck_column k)"
    by (induction r) auto
  then show ?thesis by (simp add: check_accepts_def)
qed

lemma row_ok_extend:
  assumes "table_ok t" "r \<in> set (tb_rows t)" "tb_columns t' = tb_columns t @ [c]" "tb_checks t' = tb_checks t"
    "column_accepts c v"
  shows "row_ok t' (r @ [(col_name c, v)])"
proof -
  from assms(1,2) have r: "row_ok t r" "\<forall>k \<in> set (tb_checks t). ck_column k \<in> set (column_names t)"
    by (simp_all add: table_ok_def)
  then have "fst ` set r = set (column_names t)" by (simp add: row_ok_def flip: set_map)
  with r assms(3-5) show ?thesis
    by (auto simp: row_ok_def check_accepts_append list_all2_appendI)
qed

lemma table_ok_add_column:
  assumes "table_ok t" "table_step (AddColumn c fk) t = Some t'"
  shows "table_ok t'"
proof -
  let ?v = "default_value (server_default c)"
  from assms(2) have fresh: "col_name c \<notin> set (column_names t)" "tb_rows t = [] \<or> column_accepts c ?v"
    and t': "tb_columns t' = tb_columns t @ [c]" "tb_checks t' = tb_checks t"
      "tb_rows t' = map (\<lambda>r. r @ [(col_name c, ?v)]) (tb_rows t)"
    by (auto simp: Let_def split: if_splits)
  have "row_ok t' (r @ [(col_name c, ?v)])" if "r \<in> set (tb_rows t)" for r
    using row_ok_extend [OF assms(1) that t'(1,2)] fresh(2) that by auto
  with assms(1) fresh(1) show ?thesis by (auto simp: table_ok_def t')
qed

lemma list_all2_drop:
  "map fst r = map col_name cs \<Longrightarrow> list_all2 P cs r
     \<Longrightarrow> list_all2 P (filter (\<lambda>c. col_name c \<noteq> n) cs) (drop_value n r)"
proof (induction cs arbitrary: r)
  case (Cons c cs)
  then show ?case by (cases r) (auto simp: drop_value_def)
qed (simp add: drop_value_def)

lemma map_fst_drop_value:
  "map fst r = map col_name cs \<Longrightarrow> map fst (drop_value n r) = map col_name (filter (\<lambda>c. col_name c \<noteq> n) cs)"
proof (induction cs arbitrary: r)
  case (Cons c cs)
  then show ?case by (cases r) (auto simp: drop_value_def)
qed (simp add: drop_value_def)

lemma table_ok_drop_column:
  assumes "table_ok t" "table_step (DropColumn n) t = Some t'"
  shows "table_ok t'"
proof -
  from assms(2) have t': "tb_columns t' = filter (\<lambda>c. col_name c \<noteq> n) (tb_columns t)"
    "tb_checks t' = filter (\<lambda>k. ck_column k \<noteq> n) (tb_checks t)" "tb_rows t' = map (drop_value n) (tb_rows t)"
    by (auto split: if_splits)
  have "row_ok t' (drop_value n r)" if "row_ok t r" for r
    using that by (auto simp: row_ok_def t' check_accepts_other map_fst_drop_value intro: list_all2_drop)
  with assms(1) show ?thesis
    by (auto simp: table_ok_def t' intro: distinct_map_filter)
qed

lemma table_ok_same:
  assumes "table_ok t" "tb_columns t' = tb_columns t" "set (tb_checks t') \<subseteq> set (tb_checks t)" "tb_rows t' = tb_rows t"
  shows "table_ok t'"
proof -
  have "row_ok t r \<Longrightarrow> row_ok t' r" for r using assms(2,3) by (auto simp: row_ok_def)
  with assms show ?thesis by (simp add: table_ok_def subset_iff)
qed

lemma update_rows_ok:
  assumes "table_ok t" "update_rows c P v t = Some t'"
  shows "table_ok t'"
proof -
  define u where "u = t\<lparr>tb_rows := map (set_value c P v) (tb_rows t)\<rparr>"
  have "update_rows c P v t = (if c \<in> set (column_names t) \<and> (\<forall>r \<in> set (tb_rows u). row_ok u r) then Some u else None)"
    by (simp only: update_rows_def Let_def u_def)
  with assms(2) have "t' = u" "\<forall>r \<in> set (tb_rows u). row_ok u r" by (simp_all split: if_splits)
  moreover have "tb_columns u = tb_columns t" "tb_checks u = tb_checks t" by (simp_all add: u_def)
  ultimately show ?thesis using assms(1) by (simp add: table_ok_def)
qed

lemma table_step_ok:
  assumes "table_ok t" "table_step x t = Some t'"
  shows "table_ok t'"
proof (cases x)
  case (AddColumn c fk)
  with assms show ?thesis by (blast intro: table_ok_add_column)
next
  case (DropColumn n)
  with assms show ?thesis by (blast intro: table_ok_drop_column)
next
  case (AlterColumn n b d)
  define f where "f = (\<lambda>c :: column. if col_name c = n then c\<lparr>nullable := b, server_default := Some d\<rparr> else c)"
  have f: "col_name (f c) = col_name c" for c by (simp add: f_def)
  define u where "u = t\<lparr>tb_columns := map f (tb_columns t)\<rparr>"
  have "table_step x t = (if n \<in> set (column_names t) \<and> (\<forall>r \<in> set (tb_rows t). row_ok u r) then Some u else None)"
    by (simp only: AlterColumn table_step.simps Let_def u_def f_def)
  with assms(2) have "t' = u" "\<forall>r \<in> set (tb_rows t). row_ok u r" by (simp_all split: if_splits)
  moreover have "column_names u = column_names t" "tb_checks u = tb_checks t" "tb_rows u = tb_rows t"
    by (simp_all add: u_def f o_def)
  ultimately show ?thesis using assms(1) by (simp add: table_ok_def)
next
  case (CreateCheck k)
  with assms show ?thesis by (auto simp: table_ok_def row_ok_def split: if_splits)
next
  case (UpdateNull c v)
  with assms show ?thesis by (simp add: update_rows_ok)
next
  case (UpdateIn c s ss)
  with assms show ?thesis by (simp add: update_rows_ok)
qed (use assms in \<open>auto intro!: table_ok_same [OF assms(1)] split: if_splits\<close>)

lemma table_steps_ok: "table_ok t \<Longrightarrow> table_steps xs t = Some t' \<Longrightarrow> table_ok t'"
  by (induction xs arbitrary: t) (auto intro: table_step_ok split: option.splits)

section \<open>The catalog\<close>

text \<open>
  A database as the migrations see it: its tables, and what the role \<^verbatim>\<open>staykaro_app\<close> may do outside of
  them. \<open>exec_role\<close> stands for the block that creates the role or changes its password: it gets the
  text of the password literal, and the password the server then has, or an error.
\<close>

record catalog =
  tables :: "(string \<times> table) list"
  app_role :: "string option"
  app_connect :: bool
  app_schema :: bool
  app_sequences :: bool
  app_default_sequences :: bool

definition empty_catalog :: catalog where
  "empty_catalog = \<lparr>tables = [], app_role = None, app_connect = False, app_schema = False,
     app_sequences = False, app_default_sequences = False\<rparr>"

datatype ddl =
    CreateTable string "column list" "string list" "foreign_key list" "check list"
  | DropTable string
  | On string table_op
  | OnIfExists string table_op
  | EnsureRole string
  | GrantConnect
  | GrantSchema
  | GrantSequences
  | DefaultSequences
  | RevokeSchema
  | RevokeConnect

definition new_table :: "column list \<Rightarrow> string list \<Rightarrow> foreign_key list \<Rightarrow> check list \<Rightarrow> table" where
  "new_table cs pk fks cks =
     \<lparr>tb_columns = cs, tb_primary_key = pk, tb_foreign_keys = fks, tb_checks = cks, tb_indexes = [],
      tb_granted = False, tb_rls = False, tb_force_rls = False, tb_policy = None, tb_rows = []\<rparr>"

definition put_table :: "string \<Rightarrow> table \<Rightarrow> catalog \<Rightarrow> catalog" where
  "put_table n t c = c\<lparr>tables := map (\<lambda>e. if fst e = n then (n, t) else e) (tables c)\<rparr>"

definition on_table :: "string \<Rightarrow> table_op \<Rightarrow> catalog \<Rightarrow> catalog option" where
  "on_table n x c =
     (case map_of (tables c) n of
        None \<Rightarrow> None
      | Some t \<Rightarrow> map_option (\<lambda>t'. put_table n t' c) (table_step x t))"

text \<open>A new foreign key must refer to a table, and a table another table refers to is not dropped.\<close>

definition fk_known :: "catalog \<Rightarrow> table_op \<Rightarrow> bool" where
  "fk_known c x = (case x of AddColumn _ (Some k) \<Rightarrow> fk_table k \<in> fst ` set (tables c) | _ \<Rightarrow> True)"

fun ddl_step :: "(string \<Rightarrow> string option) \<Rightarrow> ddl \<Rightarrow> catalog \<Rightarrow> catalog option" where
  "ddl_step exec_role (CreateTable n cs pk fks cks) c =
     (if n \<notin> fst ` set (tables c) \<and> distinct (map col_name cs)
         \<and> (\<forall>k \<in> set fks. fk_table k = n \<or> fk_table k \<in> fst ` set (tables c))
         \<and> (\<forall>k \<in> set cks. ck_column k \<in> col_name ` set cs)
      then Some (c\<lparr>tables := tables c @ [(n, new_table cs pk fks cks)]\<rparr>) else None)"
| "ddl_step exec_role (DropTable n) c =
     (if n \<in> fst ` set (tables c) \<and> (\<forall>(m, t) \<in> set (tables c). m \<noteq> n \<longrightarrow> n \<notin> fk_table ` set (tb_foreign_keys t))
      then Some (c\<lparr>tables := filter (\<lambda>e. fst e \<noteq> n) (tables c)\<rparr>) else None)"
| "ddl_step exec_role (On n x) c = (if fk_known c x then on_table n x c else None)"
| "ddl_step exec_role (OnIfExists n x) c = (if n \<in> fst ` set (tables c) then on_table n x c else Some c)"
| "ddl_step exec_role (EnsureRole literal) c = map_option (\<lambda>pw. c\<lparr>app_role := Some pw\<rparr>) (exec_role literal)"
| "ddl_step exec_role GrantConnect c = (if app_role c = None then None else Some (c\<lparr>app_connect := True\<rparr>))"
| "ddl_step exec_role GrantSchema c = (if app_role c = None then None else Some (c\<lparr>app_schema := True\<rparr>))"
| "ddl_step exec_role GrantSequences c = (if app_role c = None then None else Some (c\<lparr>app_sequences := True\<rparr>))"
| "ddl_step exec_role DefaultSequences c =
     (if app_role c = None then None else Some (c\<lparr>app_default_sequences := True\<rparr>))"
| "ddl_step exec_role RevokeSchema c = (if app_role c = None then None else Some (c\<lparr>app_schema := False\<rparr>))"
| "ddl_step exec_role RevokeConnect c = (if app_role c = None then None else Some (c\<lparr>app_connect := False\<rparr>))"

fun ddl_steps :: "(string \<Rightarrow> string option) \<Rightarrow> ddl list \<Rightarrow> catalog \<Rightarrow> catalog option" where
  "ddl_steps exec_role [] c = Some c"
| "ddl_steps exec_role (x # xs) c =
     (case ddl_step exec_role x c of None \<Rightarrow> None | Some c' \<Rightarrow> ddl_steps exec_role xs c')"

lemma ddl_steps_append:
  "ddl_steps f (xs @ ys) c = (case ddl_steps f xs c of None \<Rightarrow> None | Some c' \<Rightarrow> ddl_steps f ys c')"
  by (induction xs arbitrary: c) (auto split: option.splits)

definition catalog_ok :: "catalog \<Rightarrow> bool" where
  "catalog_ok c = (distinct (map fst (tables c)) \<and> (\<forall>(n, t) \<in> set (tables c). table_ok t))"

lemma put_table_names [simp]: "map fst (tables (put_table n t c)) = map fst (tables c)"
  by (simp add: put_table_def o_def if_distrib cong: if_cong)

lemma on_table_ok: "catalog_ok c \<Longrightarrow> on_table n x c = Some c' \<Longrightarrow> catalog_ok c'"
proof -
  assume c: "catalog_ok c" and s: "on_table n x c = Some c'"
  then obtain t t' where t: "map_of (tables c) n = Some t" "table_step x t = Some t'" "c' = put_table n t' c"
    by (auto simp: on_table_def split: option.splits)
  have "table_ok t'" using c t by (auto simp: catalog_ok_def dest!: map_of_SomeD intro: table_step_ok)
  then have "\<forall>(m, u) \<in> set (tables c'). table_ok u" using c by (auto simp: catalog_ok_def t put_table_def)
  then show ?thesis using c by (simp add: catalog_ok_def t)
qed

lemma ddl_step_ok: "catalog_ok c \<Longrightarrow> ddl_step f x c = Some c' \<Longrightarrow> catalog_ok c'"
  by (cases x)
    (auto simp: on_table_ok split: if_splits; auto simp: catalog_ok_def new_table_def table_ok_def intro: distinct_map_filter)+

lemma map_of_replace: "map_of xs n = Some t \<Longrightarrow> map_of (map (\<lambda>e. if fst e = n then (n, t') else e) xs) n = Some t'"
  by (induction xs) (auto split: if_splits)

lemma map_of_put_table: "map_of (tables c) n = Some t \<Longrightarrow> map_of (tables (put_table n t' c)) n = Some t'"
  by (simp add: put_table_def map_of_replace)

lemma put_table_same: "map_of (tables c) n = Some t \<Longrightarrow> distinct (map fst (tables c)) \<Longrightarrow> put_table n t c = c"
proof -
  assume a: "map_of (tables c) n = Some t" "distinct (map fst (tables c))"
  then have "(if fst e = n then (n, t) else e) = e" if "e \<in> set (tables c)" for e
    using that by (cases e) (auto dest: eq_key_imp_eq_value)
  then have "map (\<lambda>e. if fst e = n then (n, t) else e) (tables c) = tables c" by (simp add: map_idI)
  then show ?thesis by (simp add: put_table_def)
qed

lemma put_table_twice [simp]: "put_table n t (put_table n t' c) = put_table n t c"
  by (simp add: put_table_def o_def)

lemma put_table_commute: "n \<noteq> m \<Longrightarrow> put_table n t (put_table m t' c) = put_table m t' (put_table n t c)"
  by (simp add: put_table_def o_def)

lemma map_of_replace_other: "n \<noteq> m \<Longrightarrow> map_of (map (\<lambda>e. if fst e = n then (n, t) else e) xs) m = map_of xs m"
  by (induction xs) auto

lemma map_of_put_other: "n \<noteq> m \<Longrightarrow> map_of (tables (put_table n t c)) m = map_of (tables c) m"
  by (simp add: put_table_def map_of_replace_other)

lemma table_names_put [simp]: "fst ` set (tables (put_table n t c)) = fst ` set (tables c)"
  by (metis put_table_names set_map)

text \<open>Statements on one table run on that table alone.\<close>

lemma ddl_steps_on:
  assumes "map_of (tables c) n = Some t" "\<forall>x \<in> set xs. fk_known c x" "distinct (map fst (tables c))"
  shows "ddl_steps f (map (On n) xs) c = map_option (\<lambda>t'. put_table n t' c) (table_steps xs t)"
  using assms
proof (induction xs arbitrary: c t)
  case Nil
  then show ?case by (simp add: put_table_same)
next
  case (Cons x xs)
  show ?case
  proof (cases "table_step x t")
    case None
    with Cons.prems show ?thesis by (simp add: on_table_def)
  next
    case (Some t')
    let ?c = "put_table n t' c"
    have fk: "fk_known ?c y = fk_known c y" for y by (simp add: fk_known_def cong: table_op.case_cong option.case_cong)
    from Cons.IH [of ?c t'] Cons.prems
    have "ddl_steps f (map (On n) xs) ?c = map_option (\<lambda>t'. put_table n t' c) (table_steps xs t')"
      by (simp only: map_of_put_table [OF Cons.prems(1)] fk put_table_names put_table_twice list.set_intros simp_thms ball_simps list.set) blast
    moreover have "ddl_step f (On n x) c = Some ?c" using Cons.prems Some by (simp add: on_table_def)
    ultimately show ?thesis by (simp add: Some)
  qed
qed

section \<open>A run, table by table\<close>

text \<open>
  What a statement does to one table, and what it needs to know of the others: which tables exist, the
  foreign keys between them, and whether the role exists. A list of statements succeeds iff both views
  of it do, and the view of a table says what it becomes; both are cheap to evaluate.
\<close>

fun local_step :: "string \<Rightarrow> ddl \<Rightarrow> table option \<Rightarrow> table option option" where
  "local_step n (CreateTable m cs pk fks cks) s =
     (if m \<noteq> n then Some s
      else if s = None \<and> distinct (map col_name cs) \<and> (\<forall>k \<in> set cks. ck_column k \<in> col_name ` set cs)
           then Some (Some (new_table cs pk fks cks)) else None)"
| "local_step n (DropTable m) s = (if m \<noteq> n then Some s else if s = None then None else Some None)"
| "local_step n (On m x) s =
     (if m \<noteq> n then Some s else case s of None \<Rightarrow> None | Some t \<Rightarrow> map_option Some (table_step x t))"
| "local_step n (OnIfExists m x) s =
     (if m \<noteq> n then Some s else case s of None \<Rightarrow> Some None | Some t \<Rightarrow> map_option Some (table_step x t))"
| "local_step n x s = Some s"

fun local_steps :: "string \<Rightarrow> ddl list \<Rightarrow> table option \<Rightarrow> table option option" where
  "local_steps n [] s = Some s"
| "local_steps n (x # xs) s = (case local_step n x s of None \<Rightarrow> None | Some s' \<Rightarrow> local_steps n xs s')"

fun target :: "ddl \<Rightarrow> string option" where
  "target (CreateTable n cs pk fks cks) = Some n"
| "target (DropTable n) = Some n"
| "target (On n x) = Some n"
| "target (OnIfExists n x) = Some n"
| "target x = None"

type_synonym references = "(string \<times> foreign_key list) list"

fun refer :: "table_op \<Rightarrow> foreign_key list \<Rightarrow> foreign_key list" where
  "refer (AddColumn c (Some k)) fks = fks @ [k]"
| "refer (DropColumn n) fks = filter (\<lambda>k. fk_column k \<noteq> n) fks"
| "refer x fks = fks"

definition refer_on :: "string \<Rightarrow> table_op \<Rightarrow> references \<Rightarrow> references" where
  "refer_on n x rs = map (\<lambda>e. if fst e = n then (n, refer x (snd e)) else e) rs"

fun global_step :: "(string \<Rightarrow> string option) \<Rightarrow> ddl \<Rightarrow> references \<times> bool \<Rightarrow> (references \<times> bool) option" where
  "global_step f (CreateTable n cs pk fks cks) (rs, role) =
     (if \<forall>k \<in> set fks. fk_table k = n \<or> fk_table k \<in> fst ` set rs then Some (rs @ [(n, fks)], role) else None)"
| "global_step f (DropTable n) (rs, role) =
     (if \<forall>(m, fks) \<in> set rs. m \<noteq> n \<longrightarrow> n \<notin> fk_table ` set fks
      then Some (filter (\<lambda>e. fst e \<noteq> n) rs, role) else None)"
| "global_step f (On n x) (rs, role) =
     (if case x of AddColumn _ (Some k) \<Rightarrow> fk_table k \<in> fst ` set rs | _ \<Rightarrow> True
      then Some (refer_on n x rs, role) else None)"
| "global_step f (OnIfExists n x) (rs, role) = Some (refer_on n x rs, role)"
| "global_step f (EnsureRole l) (rs, role) = (if f l = None then None else Some (rs, True))"
| "global_step f x (rs, role) = (if role then Some (rs, role) else None)"

fun global_steps :: "(string \<Rightarrow> string option) \<Rightarrow> ddl list \<Rightarrow> references \<times> bool \<Rightarrow> (references \<times> bool) option" where
  "global_steps f [] g = Some g"
| "global_steps f (x # xs) g = (case global_step f x g of None \<Rightarrow> None | Some g' \<Rightarrow> global_steps f xs g')"

definition overview :: "catalog \<Rightarrow> references \<times> bool" where
  "overview c = (map (\<lambda>(n, t). (n, tb_foreign_keys t)) (tables c), app_role c \<noteq> None)"

lemma overview_names: "fst ` set (fst (overview c)) = fst ` set (tables c)"
  "map fst (fst (overview c)) = map fst (tables c)"
  by (auto simp: overview_def case_prod_beta image_image o_def)

lemma table_step_refers: "table_step x t = Some t' \<Longrightarrow> tb_foreign_keys t' = refer x (tb_foreign_keys t)"
proof (cases x)
  case (AddColumn c k)
  then show "table_step x t = Some t' \<Longrightarrow> ?thesis" by (cases k) (auto simp: Let_def split: if_splits)
qed (auto simp: update_rows_def Let_def split: if_splits)

lemma on_table_overview:
  assumes "on_table n x c = Some c'" "distinct (map fst (tables c))"
  shows "overview c' = (refer_on n x (fst (overview c)), snd (overview c))"
proof -
  from assms(1) obtain t t' where t: "map_of (tables c) n = Some t" "table_step x t = Some t'" "c' = put_table n t' c"
    by (auto simp: on_table_def split: option.splits)
  have "e = (n, t)" if "e \<in> set (tables c)" "fst e = n" for e
    using that map_of_SomeD [OF t(1)] eq_key_imp_eq_value [OF assms(2)] by (metis prod.collapse)
  then show ?thesis
    by (auto simp: overview_def t(3) put_table_def refer_on_def table_step_refers [OF t(2)] case_prod_beta)
qed

lemma names_map_of: "n \<in> fst ` set xs \<longleftrightarrow> map_of xs n \<noteq> None"
  by (simp add: map_of_eq_None_iff)

lemma map_of_filter_other: "map_of (filter (\<lambda>e. fst e \<noteq> n) xs) m = (if m = n then None else map_of xs m)"
  by (induction xs) auto

lemma on_table_views:
  assumes "table_step x t = Some t'" "map_of (tables c) n = Some t" "distinct (map fst (tables c))"
  shows "on_table n x c = Some (put_table n t' c)" "distinct (map fst (tables (put_table n t' c)))"
    and "overview (put_table n t' c) = (refer_on n x (fst (overview c)), snd (overview c))"
    and "map_of (tables (put_table n t' c)) m = (if m = n then Some t' else map_of (tables c) m)"
proof -
  show o: "on_table n x c = Some (put_table n t' c)" using assms by (simp only: on_table_def option.case option.map)
  show "distinct (map fst (tables (put_table n t' c)))" using assms(3) by simp
  show "overview (put_table n t' c) = (refer_on n x (fst (overview c)), snd (overview c))"
    by (rule on_table_overview [OF o assms(3)])
  show "map_of (tables (put_table n t' c)) m = (if m = n then Some t' else map_of (tables c) m)"
    using map_of_put_table [OF assms(2)] map_of_put_other [of n m] by simp
qed

definition views_agree :: "(string \<Rightarrow> string option) \<Rightarrow> ddl \<Rightarrow> catalog \<Rightarrow> references \<times> bool \<Rightarrow> catalog \<Rightarrow> bool" where
  "views_agree f x c g c' \<longleftrightarrow>
     ddl_step f x c = Some c' \<and> distinct (map fst (tables c')) \<and> overview c' = g
     \<and> (\<forall>n. local_step n x (map_of (tables c) n) = Some (map_of (tables c') n))"

lemma create_table_views:
  assumes "distinct (map fst (tables c))" "global_step f x (overview c) = Some g" "x = CreateTable n cs pk fks cks"
    and "local_step n x (map_of (tables c) n) \<noteq> None"
  shows "\<exists>c'. views_agree f x c g c'"
proof -
  obtain rs role where ov: "overview c = (rs, role)" by (metis prod.collapse)
  have names: "fst ` set rs = fst ` set (tables c)" using overview_names(1) [of c] by (simp add: ov)
  note [simp del] = map_of_eq_None_iff
  let ?c = "c\<lparr>tables := tables c @ [(n, new_table cs pk fks cks)]\<rparr>"
  have new: "map_of (tables c) n = None" "distinct (map col_name cs)" "\<forall>k \<in> set cks. ck_column k \<in> col_name ` set cs"
    using assms(3,4) by (auto split: if_splits)
  then have n: "n \<notin> fst ` set (tables c)" by (simp add: names_map_of)
  have g: "\<forall>k \<in> set fks. fk_table k = n \<or> fk_table k \<in> fst ` set (tables c)" "g = (rs @ [(n, fks)], role)"
    using assms(2,3) by (simp_all add: ov names split: if_splits)
  have "map_of (tables ?c) m = (if m = n then Some (new_table cs pk fks cks) else map_of (tables c) m)" for m
    using new(1) by (simp add: map_add_def split: option.splits)
  then have "local_step m x (map_of (tables c) m) = Some (map_of (tables ?c) m)" for m
    using new assms(3) by (auto simp del: catalog.simps map_of_append)
  moreover have "ddl_step f x c = Some ?c" using n new g(1) assms(3) by simp
  moreover have "overview ?c = g" using ov by (simp add: g(2) overview_def new_table_def)
  moreover have "distinct (map fst (tables ?c))" using assms(1) n by simp
  ultimately show ?thesis unfolding views_agree_def by blast
qed

lemma drop_table_views:
  assumes "distinct (map fst (tables c))" "global_step f x (overview c) = Some g" "x = DropTable n"
    and "local_step n x (map_of (tables c) n) \<noteq> None"
  shows "\<exists>c'. views_agree f x c g c'"
proof -
  obtain rs role where ov: "overview c = (rs, role)" by (metis prod.collapse)
  note [simp del] = map_of_eq_None_iff
  let ?c = "c\<lparr>tables := filter (\<lambda>e. fst e \<noteq> n) (tables c)\<rparr>"
  have "map_of (tables c) n \<noteq> None" using assms(3,4) by (auto split: if_splits)
  moreover have "distinct (map fst (tables ?c))" using assms(1) by (simp add: distinct_map_filter)
  moreover have "(\<forall>(m, t) \<in> set (tables c). m \<noteq> n \<longrightarrow> n \<notin> fk_table ` set (tb_foreign_keys t))
      \<longleftrightarrow> (\<forall>(m, fks) \<in> set rs. m \<noteq> n \<longrightarrow> n \<notin> fk_table ` set fks)"
  proof -
    have "rs = map (\<lambda>(m, t). (m, tb_foreign_keys t)) (tables c)" using ov by (simp add: overview_def)
    then show ?thesis by (simp add: case_prod_beta)
  qed
  moreover have "overview ?c = (filter (\<lambda>e. fst e \<noteq> n) rs, role)"
    using ov by (auto simp: overview_def filter_map o_def case_prod_beta)
  ultimately have "views_agree f x c g ?c"
    using assms(2,3) by (simp add: views_agree_def ov names_map_of map_of_filter_other split: if_splits)
  then show ?thesis by blast
qed

lemma on_table_agree:
  assumes "distinct (map fst (tables c))" "overview c = (rs, role)" "map_of (tables c) n = Some t" "table_step y t = Some t'"
  shows "\<exists>c'. on_table n y c = Some c' \<and> distinct (map fst (tables c')) \<and> overview c' = (refer_on n y rs, role)
    \<and> (\<forall>m. map_of (tables c') m = (if m = n then Some t' else map_of (tables c) m))"
  using on_table_views [OF assms(4,3,1)] by (intro exI [of _ "put_table n t' c"]) (simp add: assms(2))

lemma ddl_step_views:
  assumes "distinct (map fst (tables c))" "global_step f x (overview c) = Some g"
    and "\<And>n. target x = Some n \<Longrightarrow> local_step n x (map_of (tables c) n) \<noteq> None"
  shows "\<exists>c'. views_agree f x c g c'"
proof -
  obtain rs role where ov: "overview c = (rs, role)" by (metis prod.collapse)
  have names: "fst ` set rs = fst ` set (tables c)" using overview_names(1) [of c] by (simp add: ov)
  note [simp del] = map_of_eq_None_iff
  show ?thesis
  proof (cases x)
    case (CreateTable n cs pk fks cks)
    with create_table_views [OF assms(1,2)] assms(3) show ?thesis by auto
  next
    case (DropTable n)
    with drop_table_views [OF assms(1,2)] assms(3) show ?thesis by auto
  next
    case (On n y)
    then obtain t t' where t: "map_of (tables c) n = Some t" "table_step y t = Some t'"
      using assms(3) [of n] by (auto split: option.splits)
    have "fk_known c y" "g = (refer_on n y rs, role)"
      using assms(2) by (simp_all add: On ov fk_known_def names [symmetric] split: if_splits cong: table_op.case_cong option.case_cong)
    with on_table_agree [OF assms(1) ov t] t show ?thesis by (auto simp: On views_agree_def)
  next
    case (OnIfExists n y)
    have g: "g = (refer_on n y rs, role)" using assms(2) by (simp add: OnIfExists ov)
    show ?thesis
    proof (cases "map_of (tables c) n")
      case None
      then have "n \<notin> fst ` set rs" by (simp add: names names_map_of)
      then have "refer_on n y rs = rs" by (auto simp: refer_on_def rev_image_eqI intro!: map_idI)
      with None g assms(1) ov show ?thesis by (auto simp: OnIfExists names_map_of views_agree_def)
    next
      case (Some t)
      then obtain t' where "table_step y t = Some t'" using assms(3) [of n] by (auto simp: OnIfExists split: option.splits)
      with on_table_agree [OF assms(1) ov Some this] Some g show ?thesis by (auto simp: OnIfExists names_map_of views_agree_def)
    qed
  qed (use assms ov in \<open>auto simp: overview_def views_agree_def split: if_splits\<close>)+
qed

lemma local_step_other: "target x \<noteq> Some n \<Longrightarrow> local_step n x s = Some s"
  by (cases x) auto

lemma local_steps_other: "Some n \<notin> target ` set xs \<Longrightarrow> local_steps n xs s = Some s"
  by (induction xs) (auto simp: local_step_other)

text \<open>Runs on a database: the two views decide success and give every table.\<close>

lemma ddl_steps_views:
  assumes "distinct (map fst (tables c))" "global_steps f xs (overview c) = Some g"
    and "\<And>n. Some n \<in> target ` set xs \<Longrightarrow> local_steps n xs (map_of (tables c) n) \<noteq> None"
  shows "\<exists>c'. ddl_steps f xs c = Some c' \<and> distinct (map fst (tables c')) \<and> overview c' = g
    \<and> (\<forall>n. local_steps n xs (map_of (tables c) n) = Some (map_of (tables c') n))"
  using assms
proof (induction xs arbitrary: c)
  case (Cons x xs)
  then obtain g1 where g1: "global_step f x (overview c) = Some g1" "global_steps f xs g1 = Some g"
    by (auto split: option.splits)
  have all: "local_steps n (x # xs) (map_of (tables c) n) \<noteq> None" for n
    using Cons.prems(3) [of n] local_steps_other [of n "x # xs"] by fastforce
  have l: "local_step n x (map_of (tables c) n) \<noteq> None" for n using all [of n] by (auto split: option.splits)
  obtain c1 where c1: "ddl_step f x c = Some c1" "distinct (map fst (tables c1))" "overview c1 = g1"
    "\<And>n. local_step n x (map_of (tables c) n) = Some (map_of (tables c1) n)"
    using ddl_step_views [OF Cons.prems(1) g1(1) l] unfolding views_agree_def by auto
  have "local_steps n xs (map_of (tables c1) n) \<noteq> None" for n
    using all [of n] by (simp add: c1(4))
  then show ?case using Cons.IH [OF c1(2)] g1(2) by (simp add: c1)
qed auto

text \<open>The role's password and privileges outside of tables: of the database, the schema and its sequences.\<close>

type_synonym privileges = "string option \<times> bool \<times> bool \<times> bool \<times> bool"

definition privileges :: "catalog \<Rightarrow> privileges" where
  "privileges c = (app_role c, app_connect c, app_schema c, app_sequences c, app_default_sequences c)"

fun privilege_step :: "(string \<Rightarrow> string option) \<Rightarrow> ddl \<Rightarrow> privileges \<Rightarrow> privileges" where
  "privilege_step f (EnsureRole l) (r, a, b, s, d) = (f l, a, b, s, d)"
| "privilege_step f GrantConnect (r, a, b, s, d) = (r, True, b, s, d)"
| "privilege_step f GrantSchema (r, a, b, s, d) = (r, a, True, s, d)"
| "privilege_step f GrantSequences (r, a, b, s, d) = (r, a, b, True, d)"
| "privilege_step f DefaultSequences (r, a, b, s, d) = (r, a, b, s, True)"
| "privilege_step f RevokeSchema (r, a, b, s, d) = (r, a, False, s, d)"
| "privilege_step f RevokeConnect (r, a, b, s, d) = (r, False, b, s, d)"
| "privilege_step f x p = p"

lemma ddl_step_privileges: "ddl_step f x c = Some c' \<Longrightarrow> privileges c' = privilege_step f x (privileges c)"
  by (cases x) (auto simp: privileges_def on_table_def put_table_def split: if_splits option.splits)

lemma ddl_steps_privileges: "ddl_steps f xs c = Some c' \<Longrightarrow> privileges c' = fold (privilege_step f) xs (privileges c)"
  by (induction xs arbitrary: c) (auto simp: ddl_step_privileges split: option.splits)

lemma global_step_cong: "(\<And>l. x = EnsureRole l \<Longrightarrow> f l = None \<longleftrightarrow> g l = None) \<Longrightarrow> global_step f x s = global_step g x s"
  by (cases x; cases s) auto

lemma global_steps_cong:
  "(\<And>l. EnsureRole l \<in> set xs \<Longrightarrow> f l = None \<longleftrightarrow> g l = None) \<Longrightarrow> global_steps f xs s = global_steps g xs s"
  by (induction xs arbitrary: s) (auto simp: global_step_cong [of _ f g] split: option.splits)

end
