(* ===== verification/Migrations.thy ===== *)
theory Migrations
  imports Schema
begin

text \<open>
  The schema's history and its destination: the five migrations under \<^verbatim>\<open>alembic/versions\<close>, statement by
  statement, in the order their \<^verbatim>\<open>down_revision\<close> gives, and the tables of \<^verbatim>\<open>models.py\<close> as SQLAlchemy's
  metadata. Two \<^verbatim>\<open>Column\<close> flags stand for more than a column: \<^verbatim>\<open>primary_key\<close> makes it NOT NULL, and
  \<^verbatim>\<open>index=True\<close> adds an index \<^verbatim>\<open>ix_<table>_<column>\<close>, unique when the column is.
\<close>

definition Column :: "string \<Rightarrow> sql_type \<Rightarrow> bool \<Rightarrow> sql_default option \<Rightarrow> column" where
  "Column n ty null d = \<lparr>col_name = n, col_type = ty, nullable = null, server_default = d\<rparr>"

definition ForeignKey :: "string \<Rightarrow> string \<Rightarrow> string \<Rightarrow> string option \<Rightarrow> foreign_key" where
  "ForeignKey c t k d = \<lparr>fk_column = c, fk_table = t, fk_target = k, fk_ondelete = d\<rparr>"

definition Check :: "string \<Rightarrow> string \<Rightarrow> string list \<Rightarrow> check" where
  "Check n c vs = \<lparr>ck_name = n, ck_column = c, ck_values = vs\<rparr>"

definition Index :: "string \<Rightarrow> string list \<Rightarrow> bool \<Rightarrow> string option \<Rightarrow> index" where
  "Index n cs u w = \<lparr>ix_name = n, ix_columns = cs, ix_unique = u, ix_where = w\<rparr>"

lemmas ddl_defs = Column_def ForeignKey_def Check_def Index_def

section \<open>Baseline (228478a4578e)\<close>

definition create_calls :: "ddl list" where
  "create_calls =
     CreateTable ''calls''
       [Column ''call_id'' (Varchar (Some 36)) False None,
        Column ''tenant_id'' (Varchar (Some 255)) False None,
        Column ''agent_id'' (Varchar (Some 255)) False None,
        Column ''provider_call_id'' (Varchar (Some 255)) True None,
        Column ''status'' (Varchar (Some 20)) True (Some (Literal ''active'')),
        Column ''started_at'' Timestamptz False None,
        Column ''ended_at'' Timestamptz True None,
        Column ''end_reason'' (Varchar (Some 100)) True None,
        Column ''created_at'' Timestamptz True (Some NowDefault)]
       [''call_id'']
       []
       [Check ''ck_calls_status'' ''status'' [''active'', ''completed'', ''failed'']]
     # map (\<lambda>i. On ''calls'' (CreateIndex i))
       [Index ''idx_calls_tenant_started'' [''tenant_id'', ''started_at''] False None,
        Index ''ix_calls_provider_call_id'' [''provider_call_id''] False None,
        Index ''ix_calls_tenant_id'' [''tenant_id''] False None]"

definition create_clients :: "ddl list" where
  "create_clients =
     CreateTable ''clients''
       [Column ''id'' Integer False None,
        Column ''name'' (Varchar (Some 255)) False None,
        Column ''slug'' (Varchar (Some 100)) True None,
        Column ''plan'' (Varchar (Some 50)) True (Some (Literal ''starter'')),
        Column ''status'' (Varchar (Some 20)) True (Some (Literal ''active'')),
        Column ''contact_email'' (Varchar (Some 255)) True None,
        Column ''contact_phone'' (Varchar (Some 50)) True None,
        Column ''api_limit'' Integer True (Some (Literal ''100'')),
        Column ''max_concurrent_calls'' Integer True (Some (Literal ''10'')),
        Column ''created_at'' Timestamptz True (Some NowDefault),
        Column ''updated_at'' Timestamptz True (Some NowDefault)]
       [''id'']
       []
       [Check ''ck_clients_plan'' ''plan'' [''starter'', ''pro'', ''enterprise''],
        Check ''ck_clients_status'' ''status'' [''active'', ''suspended'', ''inactive'']]
     # map (\<lambda>i. On ''clients'' (CreateIndex i))
       [Index ''ix_clients_id'' [''id''] False None,
        Index ''ix_clients_slug'' [''slug''] True None]"

definition create_phone_number_routes :: "ddl list" where
  "create_phone_number_routes =
     CreateTable ''phone_number_routes''
       [Column ''number'' (Varchar (Some 20)) False None,
        Column ''tenant_id'' (Varchar (Some 255)) False None,
        Column ''agent_id'' (Varchar (Some 255)) False None,
        Column ''provider'' (Varchar (Some 50)) True (Some (Literal ''exotel'')),
        Column ''created_at'' Timestamptz True (Some NowDefault)]
       [''number'']
       []
       []
     # []"

definition create_admin_users :: "ddl list" where
  "create_admin_users =
     CreateTable ''admin_users''
       [Column ''id'' (Varchar (Some 36)) False None,
        Column ''email'' (Varchar (Some 255)) False None,
        Column ''full_name'' (Varchar (Some 255)) False None,
        Column ''password_hash'' (Varchar (Some 255)) True None,
        Column ''role'' (Varchar (Some 50)) True (Some (Literal ''agent'')),
        Column ''tenant_id'' Integer True None,
        Column ''status'' (Varchar (Some 20)) True (Some (Literal ''active'')),
        Column ''created_at'' Timestamptz True (Some NowDefault)]
       [''id'']
       [ForeignKey ''tenant_id'' ''clients'' ''id'' None]
       [Check ''ck_admin_users_role'' ''role'' [''super_admin'', ''tenant_admin'', ''agent''],
        Check ''ck_admin_users_status'' ''status'' [''active'', ''suspended'']]
     # map (\<lambda>i. On ''admin_users'' (CreateIndex i))
       [Index ''ix_admin_users_email'' [''email''] True None]"

definition create_call_events :: "ddl list" where
  "create_call_events =
     CreateTable ''call_events''
       [Column ''event_id'' (Varchar (Some 36)) False None,
        Column ''call_id'' (Varchar (Some 36)) False None,
        Column ''tenant_id'' (Varchar (Some 255)) False None,
        Column ''event_type'' (Varchar (Some 50)) False None,
        Column ''payload'' Jsonb True None,
        Column ''occurred_at'' Timestamptz True (Some NowDefault)]
       [''event_id'']
       [ForeignKey ''call_id'' ''calls'' ''call_id'' (Some ''CASCADE'')]
       []
     # map (\<lambda>i. On ''call_events'' (CreateIndex i))
       [Index ''idx_call_events_tenant_call'' [''tenant_id'', ''call_id''] False None]"

definition create_call_turns :: "ddl list" where
  "create_call_turns =
     CreateTable ''call_turns''
       [Column ''turn_id'' (Varchar (Some 36)) False None,
        Column ''call_id'' (Varchar (Some 36)) False None,
        Column ''tenant_id'' (Varchar (Some 255)) False None,
        Column ''speaker'' (Varchar (Some 20)) False None,
        Column ''language_code'' (Varchar (Some 10)) True None,
        Column ''text'' Text False None,
        Column ''started_at'' Timestamptz False None]
       [''turn_id'']
       [ForeignKey ''call_id'' ''calls'' ''call_id'' (Some ''CASCADE'')]
       [Check ''ck_call_turns_speaker'' ''speaker'' [''caller'', ''agent'']]
     # map (\<lambda>i. On ''call_turns'' (CreateIndex i))
       [Index ''idx_call_turns_tenant_call'' [''tenant_id'', ''call_id''] False None]"

definition create_audit_logs :: "ddl list" where
  "create_audit_logs =
     CreateTable ''audit_logs''
       [Column ''audit_id'' (Varchar (Some 36)) False None,
        Column ''tenant_id'' (Varchar (Some 255)) True None,
        Column ''user_id'' (Varchar (Some 36)) True None,
        Column ''action'' (Varchar (Some 100)) False None,
        Column ''before_value'' Jsonb True None,
        Column ''after_value'' Jsonb True None,
        Column ''occurred_at'' Timestamptz True (Some NowDefault)]
       [''audit_id'']
       [ForeignKey ''user_id'' ''admin_users'' ''id'' None]
       []
     # map (\<lambda>i. On ''audit_logs'' (CreateIndex i))
       [Index ''idx_audit_logs_tenant_occurred'' [''tenant_id'', ''occurred_at''] False None]"

definition create_call_requests :: "ddl list" where
  "create_call_requests =
     CreateTable ''call_requests''
       [Column ''id'' Integer False None,
        Column ''customer_name'' (Varchar None) True None,
        Column ''phone_number'' (Varchar None) True None,
        Column ''hotel_name'' (Varchar None) True None,
        Column ''check_in_date'' (Varchar None) True None,
        Column ''check_out_date'' (Varchar None) True None,
        Column ''client_id'' Integer True None,
        Column ''created_at'' Timestamptz True (Some NowDefault)]
       [''id'']
       [ForeignKey ''client_id'' ''clients'' ''id'' None]
       []
     # map (\<lambda>i. On ''call_requests'' (CreateIndex i))
       [Index ''ix_call_requests_id'' [''id''] False None]"

definition baseline_upgrade :: "ddl list" where
  "baseline_upgrade =
     create_calls @ create_clients @ create_phone_number_routes @ create_admin_users @ create_call_events
     @ create_call_turns @ create_audit_logs @ create_call_requests"

definition baseline_downgrade :: "ddl list" where
  "baseline_downgrade =
     [On ''call_requests'' (DropIndex ''ix_call_requests_id''), DropTable ''call_requests'',
      On ''audit_logs'' (DropIndex ''idx_audit_logs_tenant_occurred''), DropTable ''audit_logs'',
      On ''call_turns'' (DropIndex ''idx_call_turns_tenant_call''), DropTable ''call_turns'',
      On ''call_events'' (DropIndex ''idx_call_events_tenant_call''), DropTable ''call_events'',
      On ''admin_users'' (DropIndex ''ix_admin_users_email''), DropTable ''admin_users'',
      DropTable ''phone_number_routes'',
      On ''clients'' (DropIndex ''ix_clients_slug''), On ''clients'' (DropIndex ''ix_clients_id''), DropTable ''clients'',
      On ''calls'' (DropIndex ''ix_calls_tenant_id''), On ''calls'' (DropIndex ''ix_calls_provider_call_id''),
      On ''calls'' (DropIndex ''idx_calls_tenant_started''), DropTable ''calls'']"

section \<open>Row-level security (df467b3bdd3f)\<close>

definition TENANT_SCOPED_TABLES :: "(string \<times> string) list" where
  "TENANT_SCOPED_TABLES =
     [(''call_requests'', ''client_id::text''), (''admin_users'', ''tenant_id::text''), (''calls'', ''tenant_id''),
      (''call_turns'', ''tenant_id''), (''call_events'', ''tenant_id''), (''audit_logs'', ''tenant_id'')]"

definition UNSCOPED_APP_TABLES :: "string list" where
  "UNSCOPED_APP_TABLES = [''clients'', ''phone_number_routes'']"

text \<open>\<^verbatim>\<open>_quote_literal\<close>: \<^verbatim>\<open>value.replace\<close> of a quote by two.\<close>

definition quote_literal :: "string \<Rightarrow> string" where
  "quote_literal value = concat (map (\<lambda>c. if c = CHR 39 then [CHR 39, CHR 39] else [c]) value)"

definition protect_table :: "string \<Rightarrow> string \<Rightarrow> ddl list" where
  "protect_table n tenant_expr = map (On n) [Grant, EnableRls, ForceRls, CreatePolicy tenant_expr]"

definition unprotect_table :: "string \<Rightarrow> ddl list" where
  "unprotect_table n = map (On n) [DropPolicyIfExists, NoForceRls, DisableRls, Revoke]"

definition rls_upgrade :: "string \<Rightarrow> ddl list option" where
  "rls_upgrade app_password =
     (if app_password = [] then None
      else Some ([EnsureRole (quote_literal app_password), GrantConnect, GrantSchema, GrantSequences, DefaultSequences]
        @ map (\<lambda>n. On n Grant) UNSCOPED_APP_TABLES
        @ concat (map (\<lambda>(n, e). protect_table n e) TENANT_SCOPED_TABLES)))"

definition rls_downgrade :: "ddl list" where
  "rls_downgrade =
     concat (map (\<lambda>(n, e). unprotect_table n) (rev TENANT_SCOPED_TABLES))
     @ map (\<lambda>n. On n Revoke) (rev UNSCOPED_APP_TABLES) @ [RevokeSchema, RevokeConnect]"

section \<open>Background jobs (7b1c9e2a4f3d)\<close>

definition create_call_jobs :: "ddl list" where
  "create_call_jobs =
     CreateTable ''call_jobs''
       [Column ''job_id'' (Varchar (Some 36)) False None,
        Column ''tenant_id'' (Varchar (Some 255)) True None,
        Column ''call_id'' (Varchar (Some 36)) True None,
        Column ''provider_call_id'' (Varchar (Some 255)) True None,
        Column ''event_type'' (Varchar (Some 50)) False None,
        Column ''payload'' Jsonb True None,
        Column ''status'' (Varchar (Some 20)) False (Some (Literal ''queued'')),
        Column ''attempts'' Integer False (Some (Literal ''0'')),
        Column ''max_attempts'' Integer False (Some (Literal ''5'')),
        Column ''last_error'' Text True None,
        Column ''created_at'' Timestamptz False (Some NowDefault),
        Column ''updated_at'' Timestamptz False (Some NowDefault),
        Column ''available_at'' Timestamptz False (Some NowDefault),
        Column ''processed_at'' Timestamptz True None]
       [''job_id'']
       [ForeignKey ''call_id'' ''calls'' ''call_id'' (Some ''SET NULL'')]
       [Check ''ck_call_jobs_status'' ''status'' [''queued'', ''processing'', ''completed'', ''failed'', ''retrying'']]
     # map (\<lambda>i. On ''call_jobs'' (CreateIndex i))
       [Index ''idx_call_jobs_status_available'' [''status'', ''available_at''] False None,
        Index ''idx_call_jobs_tenant_status'' [''tenant_id'', ''status''] False None,
        Index ''idx_call_jobs_call_id'' [''call_id''] False None,
        Index ''uq_call_jobs_provider_event'' [''provider_call_id'', ''event_type''] True (Some ''provider_call_id IS NOT NULL'')]"

definition jobs_upgrade :: "ddl list" where
  "jobs_upgrade = create_call_jobs @ protect_table ''call_jobs'' ''tenant_id''"

definition jobs_downgrade :: "ddl list" where
  "jobs_downgrade =
     unprotect_table ''call_jobs''
     @ map (\<lambda>i. On ''call_jobs'' (DropIndex i))
         [''uq_call_jobs_provider_event'', ''idx_call_jobs_call_id'', ''idx_call_jobs_tenant_status'',
          ''idx_call_jobs_status_available'']
     @ [DropTable ''call_jobs'']"

section \<open>Internationalisation (a1b2c3d4e5f6)\<close>

definition i18n_upgrade :: "ddl list" where
  "i18n_upgrade =
     map (\<lambda>c. On ''clients'' (AddColumn c None))
       [Column ''country'' (Varchar (Some 2)) True None, Column ''timezone'' (Varchar (Some 100)) True None,
        Column ''currency'' (Varchar (Some 3)) True None, Column ''default_language'' (Varchar (Some 10)) True None,
        Column ''phone_country_code'' (Varchar (Some 5)) True None]"

definition i18n_downgrade :: "ddl list" where
  "i18n_downgrade =
     map (\<lambda>c. On ''clients'' (DropColumn c))
       [''phone_country_code'', ''default_language'', ''currency'', ''timezone'', ''country'']"

section \<open>Call state machine (c3d4e5f6a7b8)\<close>

definition create_customers :: "ddl list" where
  "create_customers =
     CreateTable ''customers''
       [Column ''id'' (Varchar (Some 36)) False None,
        Column ''client_id'' Integer False None,
        Column ''name'' (Varchar (Some 255)) True None,
        Column ''phone'' (Varchar (Some 50)) False None,
        Column ''email'' (Varchar (Some 255)) True None,
        Column ''language_code'' (Varchar (Some 10)) True None,
        Column ''timezone'' (Varchar (Some 100)) True None,
        Column ''country_code'' (Varchar (Some 2)) True None,
        Column ''notes'' Text True None,
        Column ''external_id'' (Varchar (Some 255)) True None,
        Column ''metadata_json'' Json True None,
        Column ''created_at'' Timestamptz False (Some NowDefault),
        Column ''updated_at'' Timestamptz False (Some NowDefault)]
       [''id'']
       [ForeignKey ''client_id'' ''clients'' ''id'' None]
       []
     # map (\<lambda>i. On ''customers'' (CreateIndex i))
       [Index ''idx_customers_client_id'' [''client_id''] False None,
        Index ''uq_customers_client_phone'' [''client_id'', ''phone''] True None]"

text \<open>A column that existing rows get filled in before it becomes NOT NULL.\<close>

definition add_filled :: "string \<Rightarrow> sql_type \<Rightarrow> sql_value \<Rightarrow> sql_default \<Rightarrow> table_op list" where
  "add_filled n ty v d = [AddColumn (Column n ty True None) None, UpdateNull n v, AlterColumn n False d]"

definition alter_call_requests :: "table_op list" where
  "alter_call_requests =
     add_filled ''status'' (Varchar (Some 30)) (Str ''pending'') (Literal ''pending'')
     @ [CreateCheck (Check ''ck_call_requests_status'' ''status''
          [''pending'', ''queued'', ''dialing'', ''ringing'', ''connected'', ''in_progress'', ''completed'', ''failed'',
           ''cancelled'', ''no_answer'', ''voicemail''])]
     @ add_filled ''call_type'' (Varchar (Some 20)) (Str ''outbound'') (Literal ''outbound'')
     @ [CreateCheck (Check ''ck_call_requests_call_type'' ''call_type'' [''inbound'', ''outbound''])]
     @ add_filled ''is_simulation'' Boolean (Bool False) FalseDefault
     @ [AddColumn (Column ''customer_id'' (Varchar (Some 36)) True None)
          (Some (ForeignKey ''customer_id'' ''customers'' ''id'' (Some ''SET NULL''))),
        AddColumn (Column ''telephony_call_id'' (Varchar (Some 36)) True None) None]
     @ add_filled ''connection_status'' (Varchar (Some 30)) (Str ''not_attempted'') (Literal ''not_attempted'')
     @ [CreateCheck (Check ''ck_call_requests_connection_status'' ''connection_status''
          [''not_attempted'', ''attempted'', ''connected'', ''failed_pre_connect'']),
        AddColumn (Column ''failure_reason'' (Varchar (Some 50)) True None) None,
        AddColumn (Column ''duration_seconds'' Integer True None) None,
        AddColumn (Column ''recording_url'' Text True None) None,
        AddColumn (Column ''notes'' Text True None) None,
        AddColumn (Column ''outcome'' (Varchar (Some 50)) True None) None]"

definition alter_calls :: "table_op list" where
  "alter_calls =
     add_filled ''is_simulation'' Boolean (Bool False) FalseDefault
     @ add_filled ''connection_status'' (Varchar (Some 30)) (Str ''connected'') (Literal ''connected'')
     @ [CreateCheck (Check ''ck_calls_connection_status'' ''connection_status''
          [''not_attempted'', ''attempted'', ''connected'', ''failed_pre_connect'']),
        AddColumn (Column ''call_request_id'' Integer True None)
          (Some (ForeignKey ''call_request_id'' ''call_requests'' ''id'' (Some ''SET NULL''))),
        DropCheck ''ck_calls_status'',
        CreateCheck (Check ''ck_calls_status'' ''status''
          [''active'', ''completed'', ''failed'', ''no_answer'', ''voicemail'', ''cancelled''])]"

definition call_states_upgrade :: "ddl list" where
  "call_states_upgrade =
     create_customers @ protect_table ''customers'' ''client_id::text''
     @ map (On ''call_requests'') alter_call_requests @ map (On ''calls'') alter_calls
     @ [OnIfExists ''call_jobs'' Grant]"

definition restore_calls :: "table_op list" where
  "restore_calls =
     [UpdateIn ''status'' ''failed'' [''no_answer'', ''voicemail'', ''cancelled''], DropCheck ''ck_calls_status'',
      CreateCheck (Check ''ck_calls_status'' ''status'' [''active'', ''completed'', ''failed'']),
      DropColumn ''call_request_id'', DropCheck ''ck_calls_connection_status'', DropColumn ''connection_status'',
      DropColumn ''is_simulation'']"

definition restore_call_requests :: "table_op list" where
  "restore_call_requests =
     map DropColumn [''outcome'', ''notes'', ''recording_url'', ''duration_seconds'', ''failure_reason'']
     @ [DropCheck ''ck_call_requests_connection_status'', DropColumn ''connection_status'',
        DropColumn ''telephony_call_id'', DropColumn ''customer_id'', DropColumn ''is_simulation'',
        DropCheck ''ck_call_requests_call_type'', DropColumn ''call_type'', DropCheck ''ck_call_requests_status'',
        DropColumn ''status'']"

definition call_states_downgrade :: "ddl list" where
  "call_states_downgrade =
     map (On ''calls'') restore_calls @ map (On ''call_requests'') restore_call_requests
     @ unprotect_table ''customers''
     @ [On ''customers'' (DropIndex ''uq_customers_client_phone''), On ''customers'' (DropIndex ''idx_customers_client_id''),
        DropTable ''customers'']"

section \<open>The chain of revisions\<close>

record migration =
  revision :: string
  down_revision :: "string option"
  upgrade_ops :: "string \<Rightarrow> ddl list option"
  downgrade_ops :: "ddl list"

text \<open>The files in the order of their names. \<open>upgrade_ops\<close> gets the variable \<^verbatim>\<open>APP_DB_PASSWORD\<close>.\<close>

definition versions :: "migration list" where
  "versions =
     [\<lparr>revision = ''228478a4578e'', down_revision = None,
       upgrade_ops = (\<lambda>_. Some baseline_upgrade), downgrade_ops = baseline_downgrade\<rparr>,
      \<lparr>revision = ''7b1c9e2a4f3d'', down_revision = Some ''df467b3bdd3f'',
       upgrade_ops = (\<lambda>_. Some jobs_upgrade), downgrade_ops = jobs_downgrade\<rparr>,
      \<lparr>revision = ''a1b2c3d4e5f6'', down_revision = Some ''7b1c9e2a4f3d'',
       upgrade_ops = (\<lambda>_. Some i18n_upgrade), downgrade_ops = i18n_downgrade\<rparr>,
      \<lparr>revision = ''c3d4e5f6a7b8'', down_revision = Some ''a1b2c3d4e5f6'',
       upgrade_ops = (\<lambda>_. Some call_states_upgrade), downgrade_ops = call_states_downgrade\<rparr>,
      \<lparr>revision = ''df467b3bdd3f'', down_revision = Some ''228478a4578e'',
       upgrade_ops = rls_upgrade, downgrade_ops = rls_downgrade\<rparr>]"

text \<open>The migrations after revision \<open>cur\<close>, following the links.\<close>

function upgrade_path :: "migration list \<Rightarrow> string option \<Rightarrow> migration list" where
  "upgrade_path ms cur =
     (case List.find (\<lambda>m. down_revision m = cur) ms of
        None \<Rightarrow> []
      | Some m \<Rightarrow> m # upgrade_path (filter (\<lambda>x. revision x \<noteq> revision m) ms) (Some (revision m)))"
  by pat_completeness auto

termination upgrade_path
  by (relation "measure (\<lambda>(ms, cur). length ms)") (auto simp: find_Some_iff intro!: length_filter_less)

declare upgrade_path.simps [simp del]

text \<open>
  \<^verbatim>\<open>alembic upgrade head\<close> and \<^verbatim>\<open>alembic downgrade base\<close>, each in one transaction (\<^verbatim>\<open>env.py\<close>): a statement
  that fails undoes the whole run.
\<close>

fun apply_upgrades :: "(string \<Rightarrow> string option) \<Rightarrow> string \<Rightarrow> migration list \<Rightarrow> catalog \<Rightarrow> catalog option" where
  "apply_upgrades exec_role pw [] c = Some c"
| "apply_upgrades exec_role pw (m # ms) c =
     (case upgrade_ops m pw of
        None \<Rightarrow> None
      | Some ops \<Rightarrow>
          (case ddl_steps exec_role ops c of None \<Rightarrow> None | Some c' \<Rightarrow> apply_upgrades exec_role pw ms c'))"

definition upgrade_head :: "(string \<Rightarrow> string option) \<Rightarrow> string \<Rightarrow> string option \<Rightarrow> catalog \<Rightarrow> catalog option" where
  "upgrade_head exec_role pw cur c = apply_upgrades exec_role pw (upgrade_path versions cur) c"

definition downgrade_base :: "(string \<Rightarrow> string option) \<Rightarrow> catalog \<Rightarrow> catalog option" where
  "downgrade_base exec_role c =
     ddl_steps exec_role (concat (map downgrade_ops (rev (upgrade_path versions None)))) c"

section \<open>The tables of models.py\<close>

definition model_clients :: table where
  "model_clients =
     new_table
       [Column ''id'' Integer False None,
        Column ''name'' (Varchar (Some 255)) False None,
        Column ''slug'' (Varchar (Some 100)) True None,
        Column ''plan'' (Varchar (Some 50)) True (Some (Literal ''starter'')),
        Column ''status'' (Varchar (Some 20)) True (Some (Literal ''active'')),
        Column ''contact_email'' (Varchar (Some 255)) True None,
        Column ''contact_phone'' (Varchar (Some 50)) True None,
        Column ''api_limit'' Integer True (Some (Literal ''100'')),
        Column ''max_concurrent_calls'' Integer True (Some (Literal ''10'')),
        Column ''created_at'' Timestamptz True (Some NowDefault),
        Column ''updated_at'' Timestamptz True (Some NowDefault),
        Column ''country'' (Varchar (Some 2)) True None,
        Column ''timezone'' (Varchar (Some 100)) True None,
        Column ''currency'' (Varchar (Some 3)) True None,
        Column ''default_language'' (Varchar (Some 10)) True None,
        Column ''phone_country_code'' (Varchar (Some 5)) True None]
       [''id'']
       []
       [Check ''ck_clients_plan'' ''plan'' [''starter'', ''pro'', ''enterprise''],
        Check ''ck_clients_status'' ''status'' [''active'', ''suspended'', ''inactive'']]
     \<lparr>tb_indexes :=
       [Index ''ix_clients_id'' [''id''] False None,
        Index ''ix_clients_slug'' [''slug''] True None]\<rparr>"

definition model_admin_users :: table where
  "model_admin_users =
     new_table
       [Column ''id'' (Varchar (Some 36)) False None,
        Column ''email'' (Varchar (Some 255)) False None,
        Column ''full_name'' (Varchar (Some 255)) False None,
        Column ''password_hash'' (Varchar (Some 255)) True None,
        Column ''role'' (Varchar (Some 50)) True (Some (Literal ''agent'')),
        Column ''tenant_id'' Integer True None,
        Column ''status'' (Varchar (Some 20)) True (Some (Literal ''active'')),
        Column ''created_at'' Timestamptz True (Some NowDefault)]
       [''id'']
       [ForeignKey ''tenant_id'' ''clients'' ''id'' None]
       [Check ''ck_admin_users_role'' ''role'' [''super_admin'', ''tenant_admin'', ''agent''],
        Check ''ck_admin_users_status'' ''status'' [''active'', ''suspended'']]
     \<lparr>tb_indexes :=
       [Index ''ix_admin_users_email'' [''email''] True None]\<rparr>"

definition model_customers :: table where
  "model_customers =
     new_table
       [Column ''id'' (Varchar (Some 36)) False None,
        Column ''client_id'' Integer False None,
        Column ''name'' (Varchar (Some 255)) True None,
        Column ''phone'' (Varchar (Some 50)) False None,
        Column ''email'' (Varchar (Some 255)) True None,
        Column ''language_code'' (Varchar (Some 10)) True None,
        Column ''timezone'' (Varchar (Some 100)) True None,
        Column ''country_code'' (Varchar (Some 2)) True None,
        Column ''notes'' Text True None,
        Column ''external_id'' (Varchar (Some 255)) True None,
        Column ''metadata_json'' Jsonb True None,
        Column ''created_at'' Timestamptz True (Some NowDefault),
        Column ''updated_at'' Timestamptz True (Some NowDefault)]
       [''id'']
       [ForeignKey ''client_id'' ''clients'' ''id'' None]
       []
     \<lparr>tb_indexes :=
       [Index ''ix_customers_client_id'' [''client_id''] False None,
        Index ''uq_customers_client_phone'' [''client_id'', ''phone''] True None,
        Index ''idx_customers_client_id'' [''client_id''] False None]\<rparr>"

definition model_call_requests :: table where
  "model_call_requests =
     new_table
       [Column ''id'' Integer False None,
        Column ''customer_name'' (Varchar None) True None,
        Column ''phone_number'' (Varchar None) True None,
        Column ''hotel_name'' (Varchar None) True None,
        Column ''check_in_date'' (Varchar None) True None,
        Column ''check_out_date'' (Varchar None) True None,
        Column ''client_id'' Integer True None,
        Column ''created_at'' Timestamptz True (Some NowDefault),
        Column ''status'' (Varchar (Some 30)) False (Some (Literal ''pending'')),
        Column ''call_type'' (Varchar (Some 20)) False (Some (Literal ''outbound'')),
        Column ''is_simulation'' Boolean False (Some (Literal ''0'')),
        Column ''customer_id'' (Varchar (Some 36)) True None,
        Column ''telephony_call_id'' (Varchar (Some 36)) True None,
        Column ''connection_status'' (Varchar (Some 30)) False (Some (Literal ''not_attempted'')),
        Column ''failure_reason'' (Varchar (Some 50)) True None,
        Column ''duration_seconds'' Integer True None,
        Column ''recording_url'' Text True None,
        Column ''notes'' Text True None,
        Column ''outcome'' (Varchar (Some 50)) True None]
       [''id'']
       [ForeignKey ''client_id'' ''clients'' ''id'' None,
        ForeignKey ''customer_id'' ''customers'' ''id'' (Some ''SET NULL'')]
       [Check ''ck_call_requests_status'' ''status'' [''pending'', ''queued'', ''dialing'', ''ringing'', ''connected'', ''in_progress'', ''completed'', ''failed'', ''cancelled'', ''no_answer'', ''voicemail''],
        Check ''ck_call_requests_call_type'' ''call_type'' [''inbound'', ''outbound''],
        Check ''ck_call_requests_connection_status'' ''connection_status'' [''not_attempted'', ''attempted'', ''connected'', ''failed_pre_connect'']]
     \<lparr>tb_indexes :=
       [Index ''ix_call_requests_id'' [''id''] False None]\<rparr>"

definition model_calls :: table where
  "model_calls =
     new_table
       [Column ''call_id'' (Varchar (Some 36)) False None,
        Column ''tenant_id'' (Varchar (Some 255)) False None,
        Column ''agent_id'' (Varchar (Some 255)) False None,
        Column ''provider_call_id'' (Varchar (Some 255)) True None,
        Column ''status'' (Varchar (Some 20)) True (Some (Literal ''active'')),
        Column ''started_at'' Timestamptz False None,
        Column ''ended_at'' Timestamptz True None,
        Column ''end_reason'' (Varchar (Some 100)) True None,
        Column ''created_at'' Timestamptz True (Some NowDefault),
        Column ''is_simulation'' Boolean False (Some (Literal ''0'')),
        Column ''connection_status'' (Varchar (Some 30)) False (Some (Literal ''connected'')),
        Column ''call_request_id'' Integer True None]
       [''call_id'']
       [ForeignKey ''call_request_id'' ''call_requests'' ''id'' (Some ''SET NULL'')]
       [Check ''ck_calls_status'' ''status'' [''active'', ''completed'', ''failed'', ''no_answer'', ''voicemail'', ''cancelled''],
        Check ''ck_calls_connection_status'' ''connection_status'' [''not_attempted'', ''attempted'', ''connected'', ''failed_pre_connect'']]
     \<lparr>tb_indexes :=
       [Index ''idx_calls_tenant_started'' [''tenant_id'', ''started_at''] False None,
        Index ''ix_calls_provider_call_id'' [''provider_call_id''] False None,
        Index ''ix_calls_tenant_id'' [''tenant_id''] False None]\<rparr>"

definition model_call_turns :: table where
  "model_call_turns =
     new_table
       [Column ''turn_id'' (Varchar (Some 36)) False None,
        Column ''call_id'' (Varchar (Some 36)) False None,
        Column ''tenant_id'' (Varchar (Some 255)) False None,
        Column ''speaker'' (Varchar (Some 20)) False None,
        Column ''language_code'' (Varchar (Some 10)) True None,
        Column ''text'' Text False None,
        Column ''started_at'' Timestamptz False None]
       [''turn_id'']
       [ForeignKey ''call_id'' ''calls'' ''call_id'' (Some ''CASCADE'')]
       [Check ''ck_call_turns_speaker'' ''speaker'' [''caller'', ''agent'']]
     \<lparr>tb_indexes :=
       [Index ''idx_call_turns_tenant_call'' [''tenant_id'', ''call_id''] False None]\<rparr>"

definition model_call_events :: table where
  "model_call_events =
     new_table
       [Column ''event_id'' (Varchar (Some 36)) False None,
        Column ''call_id'' (Varchar (Some 36)) False None,
        Column ''tenant_id'' (Varchar (Some 255)) False None,
        Column ''event_type'' (Varchar (Some 50)) False None,
        Column ''payload'' Jsonb True None,
        Column ''occurred_at'' Timestamptz True (Some NowDefault)]
       [''event_id'']
       [ForeignKey ''call_id'' ''calls'' ''call_id'' (Some ''CASCADE'')]
       []
     \<lparr>tb_indexes :=
       [Index ''idx_call_events_tenant_call'' [''tenant_id'', ''call_id''] False None]\<rparr>"

definition model_audit_logs :: table where
  "model_audit_logs =
     new_table
       [Column ''audit_id'' (Varchar (Some 36)) False None,
        Column ''tenant_id'' (Varchar (Some 255)) True None,
        Column ''user_id'' (Varchar (Some 36)) True None,
        Column ''action'' (Varchar (Some 100)) False None,
        Column ''before_value'' Jsonb True None,
        Column ''after_value'' Jsonb True None,
        Column ''occurred_at'' Timestamptz True (Some NowDefault)]
       [''audit_id'']
       [ForeignKey ''user_id'' ''admin_users'' ''id'' None]
       []
     \<lparr>tb_indexes :=
       [Index ''idx_audit_logs_tenant_occurred'' [''tenant_id'', ''occurred_at''] False None]\<rparr>"

definition model_call_jobs :: table where
  "model_call_jobs =
     new_table
       [Column ''job_id'' (Varchar (Some 36)) False None,
        Column ''tenant_id'' (Varchar (Some 255)) True None,
        Column ''call_id'' (Varchar (Some 36)) True None,
        Column ''provider_call_id'' (Varchar (Some 255)) True None,
        Column ''event_type'' (Varchar (Some 50)) False None,
        Column ''payload'' Jsonb True None,
        Column ''status'' (Varchar (Some 20)) False (Some (Literal ''queued'')),
        Column ''attempts'' Integer False (Some (Literal ''0'')),
        Column ''max_attempts'' Integer False (Some (Literal ''5'')),
        Column ''last_error'' Text True None,
        Column ''created_at'' Timestamptz False (Some NowDefault),
        Column ''updated_at'' Timestamptz False (Some NowDefault),
        Column ''available_at'' Timestamptz False (Some NowDefault),
        Column ''processed_at'' Timestamptz True None]
       [''job_id'']
       [ForeignKey ''call_id'' ''calls'' ''call_id'' (Some ''SET NULL'')]
       [Check ''ck_call_jobs_status'' ''status'' [''queued'', ''processing'', ''completed'', ''failed'', ''retrying'']]
     \<lparr>tb_indexes :=
       [Index ''ix_call_jobs_tenant_id'' [''tenant_id''] False None,
        Index ''idx_call_jobs_status_available'' [''status'', ''available_at''] False None,
        Index ''idx_call_jobs_tenant_status'' [''tenant_id'', ''status''] False None,
        Index ''idx_call_jobs_call_id'' [''call_id''] False None,
        Index ''uq_call_jobs_provider_event'' [''provider_call_id'', ''event_type''] True (Some ''provider_call_id IS NOT NULL'')]\<rparr>"

definition model_phone_number_routes :: table where
  "model_phone_number_routes =
     new_table
       [Column ''number'' (Varchar (Some 20)) False None,
        Column ''tenant_id'' (Varchar (Some 255)) False None,
        Column ''agent_id'' (Varchar (Some 255)) False None,
        Column ''provider'' (Varchar (Some 50)) True (Some (Literal ''exotel'')),
        Column ''created_at'' Timestamptz True (Some NowDefault)]
       [''number'']
       []
       []
     \<lparr>tb_indexes :=
       []\<rparr>"

definition metadata :: "(string \<times> table) list" where
  "metadata =
     [(''clients'', model_clients), (''admin_users'', model_admin_users), (''customers'', model_customers),
      (''call_requests'', model_call_requests), (''calls'', model_calls), (''call_turns'', model_call_turns),
      (''call_events'', model_call_events), (''audit_logs'', model_audit_logs), (''call_jobs'', model_call_jobs),
      (''phone_number_routes'', model_phone_number_routes)]"

end
