(* ===== verification/CallStates.thy ===== *)
theory CallStates
  imports Migrations
begin

text \<open>
  The migration \<^verbatim>\<open>c3d4e5f6a7b8\<close> on databases with rows. Adding a column, filling it, making it NOT NULL and
  putting a check on it is one \<open>addition\<close>, with what undoes it; the two altered tables are sequences of
  additions. From this follow success on every database at the previous revision, the values of every
  row, and the round trip.
\<close>

section \<open>Existing rows survive the call state migration\<close>

text \<open>No part of the table's definition mentions the column \<open>n\<close>.\<close>

definition unused :: "string \<Rightarrow> table \<Rightarrow> bool" where
  "unused n t =
     (n \<notin> set (column_names t) \<and> n \<notin> set (tb_primary_key t) \<and> n \<notin> fk_column ` set (tb_foreign_keys t)
      \<and> n \<notin> ck_column ` set (tb_checks t) \<and> (\<forall>i \<in> set (tb_indexes t). n \<notin> set (ix_columns i)))"

definition widen :: "column \<Rightarrow> foreign_key list \<Rightarrow> check list \<Rightarrow> sql_value \<Rightarrow> table \<Rightarrow> table" where
  "widen c fks cks v t =
     t\<lparr>tb_columns := tb_columns t @ [c], tb_foreign_keys := tb_foreign_keys t @ fks, tb_checks := tb_checks t @ cks,
       tb_rows := map (\<lambda>r. r @ [(col_name c, v)]) (tb_rows t)\<rparr>"

lemma row_keys: "table_ok t \<Longrightarrow> r \<in> set (tb_rows t) \<Longrightarrow> fst ` set r = set (column_names t)"
  by (auto simp: table_ok_def row_ok_def simp flip: set_map)

lemma set_value_fresh: "n \<notin> fst ` set r \<Longrightarrow> set_value n P v (r @ [(n, x)]) = r @ [(n, if P x then v else x)]"
  by (auto simp: set_value_def rev_image_eqI intro!: map_idI)

lemma add_nullable:
  assumes "n \<notin> set (column_names t)"
  shows "table_step (AddColumn (Column n ty True None) fk) t
    = Some (widen (Column n ty True None) (case fk of None \<Rightarrow> [] | Some k \<Rightarrow> [k]) [] Null t)"
  using assms by (simp add: widen_def Let_def Column_def column_accepts_def)

lemma table_ok_widen: "table_ok t \<Longrightarrow> col_name c \<notin> set (column_names t) \<Longrightarrow> column_accepts c v \<Longrightarrow> table_ok (widen c fks [] v t)"
proof -
  assume a: "table_ok t" "col_name c \<notin> set (column_names t)" "column_accepts c v"
  let ?t = "widen c fks [] v t"
  have t: "tb_columns ?t = tb_columns t @ [c]" "tb_checks ?t = tb_checks t" by (simp_all add: widen_def)
  have "\<forall>r \<in> set (tb_rows ?t). row_ok ?t r" using row_ok_extend [OF a(1) _ t a(3)] by (auto simp: widen_def)
  then show ?thesis using a(1,2) by (auto simp: table_ok_def t)
qed

lemma add_filled_steps:
  assumes "table_ok t" "n \<notin> set (column_names t)" "fits ty v" "v \<noteq> Null"
  shows "table_steps (add_filled n ty v d) t = Some (widen (Column n ty False (Some d)) [] [] v t)"
proof -
  let ?c = "Column n ty True None" and ?c' = "Column n ty False (Some d)"
  let ?t1 = "widen ?c [] [] Null t" and ?t2 = "widen ?c [] [] v t" and ?t3 = "widen ?c' [] [] v t"
  have acc: "column_accepts ?c v" "column_accepts ?c' v" using assms(3,4) by (simp_all add: column_accepts_def Column_def)
  have cn: "col_name ?c = n" "col_name ?c' = n" by (simp_all add: Column_def)
  have "table_ok ?t2" "table_ok ?t3" using assms acc by (auto intro!: table_ok_widen simp: cn)
  moreover have "map (set_value n (\<lambda>x. x = Null) v) (tb_rows ?t1) = tb_rows ?t2"
    using row_keys [OF assms(1)] assms(2) by (auto simp: widen_def cn set_value_fresh)
  then have "?t1\<lparr>tb_rows := map (set_value n (\<lambda>x. x = Null) v) (tb_rows ?t1)\<rparr> = ?t2" by (simp add: widen_def)
  ultimately have "table_step (UpdateNull n v) ?t1 = Some ?t2"
    by (simp add: update_rows_def Let_def) (simp add: table_ok_def widen_def cn)
  moreover have "map (\<lambda>c. if col_name c = n then c\<lparr>nullable := False, server_default := Some d\<rparr> else c) (tb_columns ?t2)
      = tb_columns ?t3"
    using assms(2) by (auto simp: widen_def Column_def rev_image_eqI intro!: map_idI)
  then have "?t2\<lparr>tb_columns := map (\<lambda>c. if col_name c = n then c\<lparr>nullable := False, server_default := Some d\<rparr> else c) (tb_columns ?t2)\<rparr> = ?t3"
    by (cases t) (simp add: widen_def cn)
  with \<open>table_ok ?t3\<close> have "table_step (AlterColumn n False d) ?t2 = Some ?t3"
    by (simp add: Let_def) (simp add: table_ok_def widen_def cn)
  ultimately show ?thesis using add_nullable [OF assms(2), of ty None] by (simp add: add_filled_def)
qed

text \<open>
  Both alterations are sequences of new columns, each with what its rows are filled with, its foreign
  key and its check.
\<close>

record addition =
  ad_name :: string
  ad_type :: sql_type
  ad_fill :: "(sql_value \<times> sql_default) option"
  ad_fk :: "foreign_key option"
  ad_check :: "check option"

definition add_ops :: "addition \<Rightarrow> table_op list" where
  "add_ops a =
     (case ad_fill a of
        None \<Rightarrow> [AddColumn (Column (ad_name a) (ad_type a) True None) (ad_fk a)]
      | Some (v, d) \<Rightarrow> add_filled (ad_name a) (ad_type a) v d)
     @ (case ad_check a of None \<Rightarrow> [] | Some k \<Rightarrow> [CreateCheck k])"

definition undo_ops :: "addition \<Rightarrow> table_op list" where
  "undo_ops a = (case ad_check a of None \<Rightarrow> [] | Some k \<Rightarrow> [DropCheck (ck_name k)]) @ [DropColumn (ad_name a)]"

definition ad_value :: "addition \<Rightarrow> sql_value" where
  "ad_value a = (case ad_fill a of None \<Rightarrow> Null | Some (v, d) \<Rightarrow> v)"

definition ad_column :: "addition \<Rightarrow> column" where
  "ad_column a =
     (case ad_fill a of
        None \<Rightarrow> Column (ad_name a) (ad_type a) True None
      | Some (v, d) \<Rightarrow> Column (ad_name a) (ad_type a) False (Some d))"

definition added :: "addition \<Rightarrow> table \<Rightarrow> table" where
  "added a t =
     widen (ad_column a) (case ad_fk a of None \<Rightarrow> [] | Some k \<Rightarrow> [k]) (case ad_check a of None \<Rightarrow> [] | Some k \<Rightarrow> [k])
       (ad_value a) t"

definition addition_ok :: "addition \<Rightarrow> bool" where
  "addition_ok a \<longleftrightarrow>
     (\<forall>v d. ad_fill a = Some (v, d) \<longrightarrow> fits (ad_type a) v \<and> v \<noteq> Null \<and> ad_fk a = None)
     \<and> (\<forall>k. ad_fk a = Some k \<longrightarrow> fk_column k = ad_name a)
     \<and> (\<forall>k. ad_check a = Some k \<longrightarrow> ck_column k = ad_name a \<and> (\<exists>v \<in> set (ck_values k). ad_value a = Str v))"

definition addable :: "addition \<Rightarrow> table \<Rightarrow> bool" where
  "addable a t \<longleftrightarrow> unused (ad_name a) t \<and> (\<forall>k. ad_check a = Some k \<longrightarrow> ck_name k \<notin> ck_name ` set (tb_checks t))"

lemma ad_column_name [simp]: "col_name (ad_column a) = ad_name a"
  by (simp add: ad_column_def Column_def split: option.splits)

lemma map_of_last: "n \<notin> fst ` set r \<Longrightarrow> map_of (r @ [(n, v)]) n = Some v"
  by (induction r) auto

lemma add_column_steps:
  assumes "table_ok t" "addition_ok a" "addable a t"
  shows "table_steps (case ad_fill a of None \<Rightarrow> [AddColumn (Column (ad_name a) (ad_type a) True None) (ad_fk a)]
      | Some (v, d) \<Rightarrow> add_filled (ad_name a) (ad_type a) v d) t
    = Some (widen (ad_column a) (case ad_fk a of None \<Rightarrow> [] | Some k \<Rightarrow> [k]) [] (ad_value a) t)"
  using assms add_nullable [of "ad_name a" t "ad_type a" "ad_fk a"] add_filled_steps [OF assms(1), of "ad_name a" "ad_type a"]
  by (auto simp: addition_ok_def addable_def unused_def ad_column_def ad_value_def split: option.splits)

lemma add_ops_steps:
  assumes "table_ok t" "addition_ok a" "addable a t"
  shows "table_steps (add_ops a) t = Some (added a t)"
proof (cases "ad_check a")
  case None
  with add_column_steps [OF assms] show ?thesis by (simp add: add_ops_def added_def table_steps_append)
next
  case (Some k)
  let ?t = "widen (ad_column a) (case ad_fk a of None \<Rightarrow> [] | Some k \<Rightarrow> [k]) [] (ad_value a) t"
  obtain v where v: "v \<in> set (ck_values k)" "ad_value a = Str v" "ck_column k = ad_name a"
    using assms(2) Some by (auto simp: addition_ok_def)
  have "check_accepts k (r @ [(ad_name a, ad_value a)])" if "r \<in> set (tb_rows t)" for r
  proof -
    have "map_of (r @ [(ad_name a, ad_value a)]) (ck_column k) = Some (Str v)"
      unfolding v using row_keys [OF assms(1) that] assms(3) by (intro map_of_last) (simp add: addable_def unused_def)
    then show ?thesis unfolding check_accepts_def using v(1) by (simp del: map_of_append)
  qed
  moreover have "ck_name k \<notin> ck_name ` set (tb_checks t)" using assms(3) Some by (simp add: addable_def)
  ultimately have "table_step (CreateCheck k) ?t = Some (added a t)"
    by (auto simp: widen_def added_def Some v)
  with add_column_steps [OF assms] Some show ?thesis by (simp add: add_ops_def table_steps_append)
qed

lemma drop_value_last: "n \<notin> fst ` set r \<Longrightarrow> drop_value n (r @ [(n, v)]) = r"
  by (auto simp: drop_value_def rev_image_eqI intro!: filter_True)

lemma filter_other: "n \<notin> f ` set xs \<Longrightarrow> filter (\<lambda>x. f x \<noteq> n) xs = xs"
  by (auto simp: filter_id_conv rev_image_eqI)

lemma undo_ops_steps:
  assumes "table_ok t" "addition_ok a" "addable a t"
  shows "table_steps (undo_ops a) (added a t) = Some t"
proof -
  let ?fks = "case ad_fk a of None \<Rightarrow> [] | Some k \<Rightarrow> [k]"
  have "map (drop_value (ad_name a)) (map (\<lambda>r. r @ [(ad_name a, v)]) (tb_rows t)) = tb_rows t" for v
    using row_keys [OF assms(1)] assms(3) by (auto simp: addable_def unused_def drop_value_last intro!: map_idI)
  moreover have "filter (\<lambda>k. fk_column k \<noteq> ad_name a) (tb_foreign_keys t @ ?fks) = tb_foreign_keys t"
    using assms(2,3) by (auto simp: addition_ok_def addable_def unused_def filter_other split: option.splits)
  moreover have "filter (\<lambda>c. col_name c \<noteq> ad_name a) (tb_columns t) = tb_columns t"
    "filter (\<lambda>c. c \<noteq> ad_name a) (tb_primary_key t) = tb_primary_key t"
    "filter (\<lambda>k. ck_column k \<noteq> ad_name a) (tb_checks t) = tb_checks t"
    "filter (\<lambda>i. ad_name a \<notin> set (ix_columns i)) (tb_indexes t) = tb_indexes t"
    using assms(3) filter_other [of "ad_name a" id] by (auto simp: addable_def unused_def filter_other)
  ultimately have "table_step (DropColumn (ad_name a)) (widen (ad_column a) ?fks [] v t) = Some t" for v
    by (cases t) (simp add: widen_def o_def)
  moreover have "table_step (DropCheck (ck_name k)) (added a t) = Some (widen (ad_column a) ?fks [] (ad_value a) t)"
    if "ad_check a = Some k" for k
  proof -
    have "filter (\<lambda>x. ck_name x \<noteq> ck_name k) (tb_checks t) = tb_checks t"
      using assms(3) that by (simp add: addable_def filter_other)
    then show ?thesis by (cases t) (simp add: added_def widen_def that)
  qed
  ultimately show ?thesis
    by (cases "ad_check a") (simp_all add: undo_ops_def added_def)
qed

definition additions_ok :: "addition list \<Rightarrow> table \<Rightarrow> bool" where
  "additions_ok as t \<longleftrightarrow>
     (\<forall>a \<in> set as. addition_ok a \<and> addable a t) \<and> distinct (map ad_name as)
     \<and> distinct (map ck_name (List.map_filter ad_check as))"

lemma added_rows: "tb_rows (fold added as t) = map (\<lambda>r. r @ map (\<lambda>a. (ad_name a, ad_value a)) as) (tb_rows t)"
  by (induction as arbitrary: t) (simp_all add: added_def widen_def o_def)

lemma addable_added:
  assumes "addition_ok a" "addable b t" "ad_name b \<noteq> ad_name a"
    and "\<And>k l. ad_check a = Some k \<Longrightarrow> ad_check b = Some l \<Longrightarrow> ck_name l \<noteq> ck_name k"
  shows "addable b (added a t)"
  using assms by (auto simp: addable_def unused_def added_def widen_def addition_ok_def split: option.splits)

lemma map_filter_check: "List.map_filter ad_check (a # as) = (case ad_check a of None \<Rightarrow> [] | Some k \<Rightarrow> [k]) @ List.map_filter ad_check as"
  by (simp add: List.map_filter_simps split: option.splits)

lemma additions_ok_Cons:
  assumes "additions_ok (a # as) t"
  shows "addition_ok a" "addable a t" "additions_ok as (added a t)"
proof -
  show a: "addition_ok a" "addable a t" using assms by (simp_all add: additions_ok_def)
  have "addable b (added a t)" if "b \<in> set as" for b
  proof (rule addable_added [OF a(1)])
    show "addable b t" "ad_name b \<noteq> ad_name a" using assms that by (auto simp: additions_ok_def rev_image_eqI)
    show "ck_name l \<noteq> ck_name k" if "ad_check a = Some k" "ad_check b = Some l" for k l
    proof -
      have "l \<in> set (List.map_filter ad_check as)"
        using that(2) \<open>b \<in> set as\<close> by (auto simp: List.map_filter_def intro!: rev_image_eqI [of b])
      then show ?thesis using assms that(1) by (auto simp: additions_ok_def map_filter_check rev_image_eqI)
    qed
  qed
  with assms show "additions_ok as (added a t)"
    by (auto simp: additions_ok_def map_filter_check split: option.splits)
qed

lemma additions_steps:
  assumes "table_ok t" "additions_ok as t"
  shows "table_steps (concat (map add_ops as)) t = Some (fold added as t)
    \<and> table_steps (concat (map undo_ops (rev as))) (fold added as t) = Some t"
  using assms
proof (induction as arbitrary: t)
  case (Cons a as)
  note a = additions_ok_Cons [OF Cons.prems(2)]
  have s: "table_steps (add_ops a) t = Some (added a t)" by (rule add_ops_steps [OF Cons.prems(1) a(1,2)])
  show ?case
    using Cons.IH [OF table_steps_ok [OF Cons.prems(1) s] a(3)] s undo_ops_steps [OF Cons.prems(1) a(1,2)]
    by (simp add: table_steps_append)
qed simp

definition request_additions :: "addition list" where
  "request_additions =
     [\<lparr>ad_name = ''status'', ad_type = Varchar (Some 30), ad_fill = Some (Str ''pending'', Literal ''pending''),
       ad_fk = None, ad_check = Some (Check ''ck_call_requests_status'' ''status''
          [''pending'', ''queued'', ''dialing'', ''ringing'', ''connected'', ''in_progress'', ''completed'', ''failed'',
           ''cancelled'', ''no_answer'', ''voicemail''])\<rparr>,
      \<lparr>ad_name = ''call_type'', ad_type = Varchar (Some 20), ad_fill = Some (Str ''outbound'', Literal ''outbound''),
       ad_fk = None, ad_check = Some (Check ''ck_call_requests_call_type'' ''call_type'' [''inbound'', ''outbound''])\<rparr>,
      \<lparr>ad_name = ''is_simulation'', ad_type = Boolean, ad_fill = Some (Bool False, FalseDefault),
       ad_fk = None, ad_check = None\<rparr>,
      \<lparr>ad_name = ''customer_id'', ad_type = Varchar (Some 36), ad_fill = None,
       ad_fk = Some (ForeignKey ''customer_id'' ''customers'' ''id'' (Some ''SET NULL'')), ad_check = None\<rparr>,
      \<lparr>ad_name = ''telephony_call_id'', ad_type = Varchar (Some 36), ad_fill = None, ad_fk = None, ad_check = None\<rparr>,
      \<lparr>ad_name = ''connection_status'', ad_type = Varchar (Some 30),
       ad_fill = Some (Str ''not_attempted'', Literal ''not_attempted''), ad_fk = None,
       ad_check = Some (Check ''ck_call_requests_connection_status'' ''connection_status''
          [''not_attempted'', ''attempted'', ''connected'', ''failed_pre_connect''])\<rparr>,
      \<lparr>ad_name = ''failure_reason'', ad_type = Varchar (Some 50), ad_fill = None, ad_fk = None, ad_check = None\<rparr>,
      \<lparr>ad_name = ''duration_seconds'', ad_type = Integer, ad_fill = None, ad_fk = None, ad_check = None\<rparr>,
      \<lparr>ad_name = ''recording_url'', ad_type = Text, ad_fill = None, ad_fk = None, ad_check = None\<rparr>,
      \<lparr>ad_name = ''notes'', ad_type = Text, ad_fill = None, ad_fk = None, ad_check = None\<rparr>,
      \<lparr>ad_name = ''outcome'', ad_type = Varchar (Some 50), ad_fill = None, ad_fk = None, ad_check = None\<rparr>]"

definition call_additions :: "addition list" where
  "call_additions =
     [\<lparr>ad_name = ''is_simulation'', ad_type = Boolean, ad_fill = Some (Bool False, FalseDefault),
       ad_fk = None, ad_check = None\<rparr>,
      \<lparr>ad_name = ''connection_status'', ad_type = Varchar (Some 30),
       ad_fill = Some (Str ''connected'', Literal ''connected''), ad_fk = None,
       ad_check = Some (Check ''ck_calls_connection_status'' ''connection_status''
          [''not_attempted'', ''attempted'', ''connected'', ''failed_pre_connect''])\<rparr>,
      \<lparr>ad_name = ''call_request_id'', ad_type = Integer, ad_fill = None,
       ad_fk = Some (ForeignKey ''call_request_id'' ''call_requests'' ''id'' (Some ''SET NULL'')), ad_check = None\<rparr>]"

lemma request_alterations:
  "alter_call_requests = concat (map add_ops request_additions)"
  "restore_call_requests = concat (map undo_ops (rev request_additions))"
  by (simp_all add: alter_call_requests_def restore_call_requests_def request_additions_def add_ops_def undo_ops_def Check_def)

lemma call_alterations:
  "alter_calls = concat (map add_ops call_additions)
     @ [DropCheck ''ck_calls_status'',
        CreateCheck (Check ''ck_calls_status'' ''status''
          [''active'', ''completed'', ''failed'', ''no_answer'', ''voicemail'', ''cancelled''])]"
  "restore_calls =
     [UpdateIn ''status'' ''failed'' [''no_answer'', ''voicemail'', ''cancelled''], DropCheck ''ck_calls_status'',
      CreateCheck (Check ''ck_calls_status'' ''status'' [''active'', ''completed'', ''failed''])]
     @ concat (map undo_ops (rev call_additions))"
  by (simp_all add: alter_calls_def restore_calls_def call_additions_def add_ops_def undo_ops_def Check_def)

lemma request_additions_ok:
  assumes "tb_checks t = []" "\<forall>a \<in> set request_additions. unused (ad_name a) t"
  shows "additions_ok request_additions t"
  using assms
  by (simp add: additions_ok_def request_additions_def addable_def addition_ok_def ad_value_def List.map_filter_simps ddl_defs)

lemma call_additions_ok:
  assumes "ck_name ` set (tb_checks t) \<subseteq> {''ck_calls_status''}" "\<forall>a \<in> set call_additions. unused (ad_name a) t"
  shows "additions_ok call_additions t"
  using assms
  by (auto simp: additions_ok_def call_additions_def addable_def addition_ok_def ad_value_def List.map_filter_simps ddl_defs)

definition old_status :: check where
  "old_status = Check ''ck_calls_status'' ''status'' [''active'', ''completed'', ''failed'']"

definition new_status :: check where
  "new_status = Check ''ck_calls_status'' ''status''
     [''active'', ''completed'', ''failed'', ''no_answer'', ''voicemail'', ''cancelled'']"

definition connection_check :: check where
  "connection_check = Check ''ck_calls_connection_status'' ''connection_status''
     [''not_attempted'', ''attempted'', ''connected'', ''failed_pre_connect'']"

lemma call_additions_checks:
  "fold added call_additions (t\<lparr>tb_checks := ks\<rparr>) = (fold added call_additions t)\<lparr>tb_checks := ks @ [connection_check]\<rparr>"
  "tb_checks (fold added call_additions t) = tb_checks t @ [connection_check]"
  by (simp_all add: call_additions_def added_def widen_def connection_check_def)

lemma old_status_new: "check_accepts old_status r \<Longrightarrow> check_accepts new_status r"
  by (auto simp: check_accepts_def old_status_def new_status_def Check_def split: option.splits sql_value.splits)

lemma set_value_none: "(\<And>x. (c, x) \<in> set r \<Longrightarrow> \<not> P x) \<Longrightarrow> set_value c P v r = r"
  by (auto simp: set_value_def intro!: map_idI)

lemma keep_old_status:
  assumes "distinct (map fst r)" "check_accepts old_status r"
  shows "set_value ''status'' (\<lambda>x. x \<in> Str ` set [''no_answer'', ''voicemail'', ''cancelled'']) v r = r"
proof -
  have "x \<notin> Str ` set [''no_answer'', ''voicemail'', ''cancelled'']" if "(''status'', x) \<in> set r" for x
  proof -
    have "map_of r ''status'' = Some x" using that assms(1) by simp
    with assms(2) show ?thesis by (auto simp: check_accepts_def old_status_def Check_def)
  qed
  then show ?thesis by (rule set_value_none)
qed

lemma trailing_check:
  assumes "table_steps xs t = Some u"
    and "\<forall>x \<in> set xs. (\<exists>n. x = DropColumn n \<and> n \<noteq> ck_column k) \<or> (\<exists>n. x = DropCheck n \<and> n \<noteq> ck_name k)"
  shows "table_steps xs (t\<lparr>tb_checks := tb_checks t @ [k]\<rparr>) = Some (u\<lparr>tb_checks := tb_checks u @ [k]\<rparr>)"
  using assms
proof (induction xs arbitrary: t)
  case (Cons x xs)
  then obtain t' where t': "table_step x t = Some t'" "table_steps xs t' = Some u" by (auto split: option.splits)
  have "table_step x (t\<lparr>tb_checks := tb_checks t @ [k]\<rparr>) = Some (t'\<lparr>tb_checks := tb_checks t' @ [k]\<rparr>)"
  proof -
    consider (col) n where "x = DropColumn n" "n \<noteq> ck_column k" | (ck) n where "x = DropCheck n" "n \<noteq> ck_name k"
      using Cons.prems(2) by auto
    then show ?thesis
    proof cases
      case col
      with t'(1) have "n \<in> set (column_names t)" by (simp split: if_splits)
      with col t'(1) show ?thesis by (cases t) auto
    next
      case ck
      with t'(1) have "n \<in> ck_name ` set (tb_checks t)" by (simp split: if_splits)
      with ck t'(1) show ?thesis by (cases t) auto
    qed
  qed
  with Cons.IH [OF t'(2)] Cons.prems(2) show ?case by simp
qed simp

lemma calls_roundtrip:
  assumes ok: "table_ok t" and cks: "tb_checks t = [old_status]" and new: "\<forall>a \<in> set call_additions. unused (ad_name a) t"
  defines "u \<equiv> (fold added call_additions t)\<lparr>tb_checks := [connection_check, new_status]\<rparr>"
  shows "table_steps alter_calls t = Some u" "table_steps restore_calls u = Some t"
proof -
  let ?T = "fold added call_additions t"
  have T: "table_steps (concat (map add_ops call_additions)) t = Some ?T"
    using additions_steps [OF ok call_additions_ok [OF _ new]] by (simp add: cks old_status_def Check_def)
  have T_ok: "table_ok ?T" by (rule table_steps_ok [OF ok T])
  have T_cks: "tb_checks ?T = [old_status, connection_check]" by (simp add: call_additions_checks cks)
  have acc: "check_accepts old_status r" "distinct (map fst r)" if "r \<in> set (tb_rows ?T)" for r
    using T_ok that by (auto simp: table_ok_def T_cks row_ok_def)
  have st: "''status'' \<in> set (column_names ?T)" using T_ok by (auto simp: table_ok_def T_cks old_status_def Check_def)
  have names: "ck_name old_status = ''ck_calls_status''" "ck_name new_status = ''ck_calls_status''"
    "ck_name connection_check = ''ck_calls_connection_status''" "ck_column new_status = ''status''" "ck_column old_status = ''status''"
    by (simp_all add: old_status_def new_status_def connection_check_def Check_def)
  have swap: "table_steps [DropCheck ''ck_calls_status'', CreateCheck new_status] ?T = Some u"
    using acc(1) old_status_new st by (simp add: T_cks names u_def)
  with T show up: "table_steps alter_calls t = Some u"
    by (simp add: call_alterations new_status_def [symmetric] table_steps_append)
  have u_ok: "table_ok u" by (rule table_steps_ok [OF ok up])
  let ?P = "\<lambda>x. x \<in> Str ` set [''no_answer'', ''voicemail'', ''cancelled'']"
  have "map (set_value ''status'' ?P (Str ''failed'')) (tb_rows u) = tb_rows u"
    unfolding u_def using acc keep_old_status by (auto intro!: map_idI)
  then have "u\<lparr>tb_rows := map (set_value ''status'' ?P (Str ''failed'')) (tb_rows u)\<rparr> = u" by simp
  then have "update_rows ''status'' ?P (Str ''failed'') u = Some u"
    unfolding update_rows_def Let_def using u_ok st by (simp add: table_ok_def) (simp add: u_def)
  then have r1: "table_steps [UpdateIn ''status'' ''failed'' [''no_answer'', ''voicemail'', ''cancelled'']] u = Some u"
    by (simp only: table_steps.simps table_step.simps option.case)
  have r2: "table_steps [DropCheck ''ck_calls_status'', CreateCheck old_status] u
      = Some (?T\<lparr>tb_checks := [connection_check, old_status]\<rparr>)"
    using acc(1) st by (simp add: names u_def)
  define t0 where "t0 = t\<lparr>tb_checks := []\<rparr>"
  have "table_steps (concat (map undo_ops (rev call_additions))) (fold added call_additions t0) = Some t0"
    using additions_steps [OF table_ok_same [OF ok] call_additions_ok] new
    by (simp add: t0_def unused_def)
  then have "table_steps (concat (map undo_ops (rev call_additions)))
      ((fold added call_additions t0)\<lparr>tb_checks := tb_checks (fold added call_additions t0) @ [old_status]\<rparr>)
      = Some (t0\<lparr>tb_checks := tb_checks t0 @ [old_status]\<rparr>)"
    by (rule trailing_check) (auto simp: call_additions_def undo_ops_def names Check_def)
  then have r3: "table_steps (concat (map undo_ops (rev call_additions))) (?T\<lparr>tb_checks := [connection_check, old_status]\<rparr>)
      = Some t"
    by (simp add: t0_def call_additions_checks flip: cks)
  have rs: "restore_calls = [UpdateIn ''status'' ''failed'' [''no_answer'', ''voicemail'', ''cancelled'']]
      @ [DropCheck ''ck_calls_status'', CreateCheck old_status] @ concat (map undo_ops (rev call_additions))"
    by (simp add: call_alterations old_status_def)
  show "table_steps restore_calls u = Some t" unfolding rs table_steps_append r1 option.case r2 by (rule r3)
qed

text \<open>
  A database at revision \<^verbatim>\<open>a1b2c3d4e5f6\<close>, as far as the last migration depends on it: its rows keep its
  constraints, \<^verbatim>\<open>clients\<close> exists and \<^verbatim>\<open>customers\<close> does not, foreign keys refer to tables, the two altered
  tables do not mention the new columns, and \<^verbatim>\<open>calls\<close> has the check on three states.
\<close>

definition before_call_states :: "catalog \<Rightarrow> bool" where
  "before_call_states c =
     (catalog_ok c \<and> ''clients'' \<in> fst ` set (tables c) \<and> ''customers'' \<notin> fst ` set (tables c)
      \<and> (\<forall>(n, t) \<in> set (tables c). fk_table ` set (tb_foreign_keys t) \<subseteq> fst ` set (tables c))
      \<and> (case map_of (tables c) ''call_requests'' of
           None \<Rightarrow> False
         | Some t \<Rightarrow> tb_checks t = [] \<and> (\<forall>a \<in> set request_additions. unused (ad_name a) t))
      \<and> (case map_of (tables c) ''calls'' of
           None \<Rightarrow> False
         | Some t \<Rightarrow> tb_checks t = [old_status] \<and> (\<forall>a \<in> set call_additions. unused (ad_name a) t))
      \<and> (case map_of (tables c) ''call_jobs'' of None \<Rightarrow> True | Some t \<Rightarrow> tb_granted t))"

definition customers_ops :: "table_op list" where
  "customers_ops =
     [CreateIndex (Index ''idx_customers_client_id'' [''client_id''] False None),
      CreateIndex (Index ''uq_customers_client_phone'' [''client_id'', ''phone''] True None),
      Grant, EnableRls, ForceRls, CreatePolicy ''client_id::text'']"

definition customers_undo :: "table_op list" where
  "customers_undo =
     [DropPolicyIfExists, NoForceRls, DisableRls, Revoke, DropIndex ''uq_customers_client_phone'',
      DropIndex ''idx_customers_client_id'']"

definition customers_new :: table where
  "customers_new = (case hd create_customers of CreateTable n cs pk fks cks \<Rightarrow> new_table cs pk fks cks)"

definition with_table :: "string \<Rightarrow> table \<Rightarrow> catalog \<Rightarrow> catalog" where
  "with_table n t c = c\<lparr>tables := tables c @ [(n, t)]\<rparr>"

lemma put_with_table: "n \<notin> fst ` set (tables c) \<Longrightarrow> put_table n t (with_table n t' c) = with_table n t c"
proof -
  assume "n \<notin> fst ` set (tables c)"
  then have "map (\<lambda>e. if fst e = n then (n, t) else e) (tables c) = tables c" by (auto simp: rev_image_eqI intro!: map_idI)
  then show ?thesis by (simp add: put_table_def with_table_def)
qed

lemma map_of_with_table:
  "map_of (tables (with_table n t c)) m = (case map_of (tables c) m of None \<Rightarrow> if m = n then Some t else None | r \<Rightarrow> r)"
  by (auto simp: with_table_def map_add_def split: option.splits)

lemma names_with_table [simp]: "map fst (tables (with_table n t c)) = map fst (tables c) @ [n]"
  "fst ` set (tables (with_table n t c)) = insert n (fst ` set (tables c))"
  by (auto simp: with_table_def)

lemma customers_created:
  assumes "before_call_states c"
  obtains t where "table_steps customers_ops customers_new = Some t"
    "ddl_steps f (create_customers @ protect_table ''customers'' ''client_id::text'') c = Some (with_table ''customers'' t c)"
proof -
  obtain t where t: "table_steps customers_ops customers_new = Some t"
    by (simp add: customers_ops_def customers_new_def create_customers_def new_table_def ddl_defs)
  have ops: "create_customers @ protect_table ''customers'' ''client_id::text'' = hd create_customers # map (On ''customers'') customers_ops"
    by (simp add: create_customers_def protect_table_def customers_ops_def)
  have c: "''customers'' \<notin> fst ` set (tables c)" "''clients'' \<in> fst ` set (tables c)" "distinct (map fst (tables c))"
    using assms by (auto simp: before_call_states_def catalog_ok_def)
  then have "ddl_step f (hd create_customers) c = Some (with_table ''customers'' customers_new c)"
    by (simp add: create_customers_def customers_new_def with_table_def ddl_defs)
  moreover have "map_of (tables c) ''customers'' = None" using c(1) by (simp add: map_of_eq_None_iff)
  then have "ddl_steps f (map (On ''customers'') customers_ops) (with_table ''customers'' customers_new c)
      = map_option (\<lambda>t'. put_table ''customers'' t' (with_table ''customers'' customers_new c)) (table_steps customers_ops customers_new)"
    using c by (intro ddl_steps_on) (auto simp: map_of_with_table customers_ops_def fk_known_def)
  ultimately show thesis using that [OF t] t c(1) unfolding ops by (simp add: put_with_table)
qed

lemma customers_removed:
  assumes "table_steps customers_ops customers_new = Some t" "before_call_states c"
  shows "ddl_steps f (unprotect_table ''customers''
      @ [On ''customers'' (DropIndex ''uq_customers_client_phone''), On ''customers'' (DropIndex ''idx_customers_client_id''),
         DropTable ''customers'']) (with_table ''customers'' t c) = Some c"
proof -
  have ops: "unprotect_table ''customers''
      @ [On ''customers'' (DropIndex ''uq_customers_client_phone''), On ''customers'' (DropIndex ''idx_customers_client_id''),
         DropTable ''customers''] = map (On ''customers'') customers_undo @ [DropTable ''customers'']"
    by (simp add: unprotect_table_def customers_undo_def)
  have c: "''customers'' \<notin> fst ` set (tables c)" "distinct (map fst (tables c))"
    and "\<forall>(n, t) \<in> set (tables c). fk_table ` set (tb_foreign_keys t) \<subseteq> fst ` set (tables c)"
    using assms(2) by (simp_all add: before_call_states_def catalog_ok_def)
  then have fk: "''customers'' \<notin> fk_table ` set (tb_foreign_keys t)" if "(n, t) \<in> set (tables c)" for n t
    using that by blast
  have "map_of (tables c) ''customers'' = None" using c(1) by (simp add: map_of_eq_None_iff)
  then have "ddl_steps f (map (On ''customers'') customers_undo) (with_table ''customers'' t c)
      = map_option (\<lambda>t'. put_table ''customers'' t' (with_table ''customers'' t c)) (table_steps customers_undo t)"
    using c by (intro ddl_steps_on) (auto simp: map_of_with_table customers_undo_def fk_known_def)
  moreover obtain u where "table_steps customers_undo t = Some u"
    using assms(1)
    by (auto simp: customers_ops_def customers_undo_def customers_new_def create_customers_def new_table_def ddl_defs)
  moreover have "ddl_step f (DropTable ''customers'') (with_table ''customers'' u c) = Some c"
  proof -
    have "filter (\<lambda>e. fst e \<noteq> ''customers'') (tables c) = tables c" using c(1) by (rule filter_other)
    with fk show ?thesis by (fastforce simp: with_table_def)
  qed
  ultimately show ?thesis unfolding ops by (simp add: ddl_steps_append put_with_table [OF c(1)])
qed

lemma regrant: "map_of (tables c) n = Some t \<Longrightarrow> tb_granted t \<Longrightarrow> distinct (map fst (tables c)) \<Longrightarrow> on_table n Grant c = Some c"
proof -
  assume a: "map_of (tables c) n = Some t" "tb_granted t" "distinct (map fst (tables c))"
  then have "t\<lparr>tb_granted := True\<rparr> = t" by (cases t) simp
  with a put_table_same [OF a(1,3)] show ?thesis by (simp only: on_table_def option.case table_step.simps option.map)
qed

lemma ddl_steps_ok: "catalog_ok c \<Longrightarrow> ddl_steps f xs c = Some c' \<Longrightarrow> catalog_ok c'"
  by (induction xs arbitrary: c) (auto intro: ddl_step_ok split: option.splits)

lemma alterations_fk_known:
  "''customers'' \<in> fst ` set (tables c) \<Longrightarrow> \<forall>x \<in> set alter_call_requests. fk_known c x"
  "''call_requests'' \<in> fst ` set (tables c) \<Longrightarrow> \<forall>x \<in> set alter_calls. fk_known c x"
  "\<forall>x \<in> set restore_calls. fk_known c x" "\<forall>x \<in> set restore_call_requests. fk_known c x"
  by (simp_all add: alter_call_requests_def alter_calls_def restore_calls_def restore_call_requests_def add_filled_def
      fk_known_def ForeignKey_def)

text \<open>The database the upgrade leaves, given the new table of customers.\<close>

definition altered_requests :: "table \<Rightarrow> table" where
  "altered_requests t = fold added request_additions t"

definition altered_calls :: "table \<Rightarrow> table" where
  "altered_calls s = (fold added call_additions s)\<lparr>tb_checks := [connection_check, new_status]\<rparr>"

definition upgraded :: "table \<Rightarrow> table \<Rightarrow> table \<Rightarrow> catalog \<Rightarrow> catalog" where
  "upgraded tc t s c =
     put_table ''calls'' (altered_calls s) (put_table ''call_requests'' (altered_requests t) (with_table ''customers'' tc c))"

lemma altered_rows:
  "tb_rows (altered_requests t) = map (\<lambda>r. r @ map (\<lambda>a. (ad_name a, ad_value a)) request_additions) (tb_rows t)"
  "tb_rows (altered_calls s) = map (\<lambda>r. r @ map (\<lambda>a. (ad_name a, ad_value a)) call_additions) (tb_rows s)"
  by (simp_all add: altered_requests_def altered_calls_def added_rows)

lemma alterations_roundtrip:
  assumes "before_call_states c" "map_of (tables c) ''call_requests'' = Some t" "map_of (tables c) ''calls'' = Some s"
  shows "table_steps alter_call_requests t = Some (altered_requests t)" "table_steps restore_call_requests (altered_requests t) = Some t"
    "table_steps alter_calls s = Some (altered_calls s)" "table_steps restore_calls (altered_calls s) = Some s"
proof -
  have ok: "table_ok t" "table_ok s"
    using assms by (auto simp: before_call_states_def catalog_ok_def dest!: map_of_SomeD)
  have t: "tb_checks t = []" "\<forall>a \<in> set request_additions. unused (ad_name a) t"
    and s: "tb_checks s = [old_status]" "\<forall>a \<in> set call_additions. unused (ad_name a) s"
    using assms by (simp_all add: before_call_states_def)
  show "table_steps alter_call_requests t = Some (altered_requests t)" "table_steps restore_call_requests (altered_requests t) = Some t"
    using additions_steps [OF ok(1) request_additions_ok [OF t]] by (simp_all add: request_alterations altered_requests_def)
  show "table_steps alter_calls s = Some (altered_calls s)" "table_steps restore_calls (altered_calls s) = Some s"
    using calls_roundtrip [OF ok(2) s] by (simp_all add: altered_calls_def)
qed

text \<open>What the statements find on their way, forth and back.\<close>

lemma upgraded_lookups:
  assumes "before_call_states c" "map_of (tables c) ''call_requests'' = Some t" "map_of (tables c) ''calls'' = Some s"
    and c1_def: "c1 = with_table ''customers'' tc c"
    and c2_def: "c2 = put_table ''call_requests'' (altered_requests t) c1"
  shows "distinct (map fst (tables c1))" "distinct (map fst (tables c2))" "distinct (map fst (tables (upgraded tc t s c)))"
    and "map_of (tables c1) ''call_requests'' = Some t" "map_of (tables c2) ''calls'' = Some s"
    and "map_of (tables c2) ''call_requests'' = Some (altered_requests t)"
    and "map_of (tables (upgraded tc t s c)) ''calls'' = Some (altered_calls s)"
    and "map_of (tables (upgraded tc t s c)) ''call_requests'' = Some (altered_requests t)"
    and "map_of (tables (upgraded tc t s c)) ''call_jobs'' = map_of (tables c) ''call_jobs''"
proof -
  have c: "''customers'' \<notin> fst ` set (tables c)" "distinct (map fst (tables c))"
    using assms(1) by (simp_all add: before_call_states_def catalog_ok_def)
  show d: "distinct (map fst (tables c1))" using c by (simp add: c1_def)
  then show "distinct (map fst (tables c2))" "distinct (map fst (tables (upgraded tc t s c)))"
    by (simp_all add: c2_def c1_def upgraded_def)
  have m1: "map_of (tables c1) ''call_requests'' = Some t" "map_of (tables c1) ''calls'' = Some s"
    using assms(2,3) by (simp_all add: c1_def map_of_with_table)
  then have m2: "map_of (tables c2) ''calls'' = Some s" "map_of (tables c2) ''call_requests'' = Some (altered_requests t)"
    by (simp_all add: c2_def map_of_put_other map_of_put_table)
  moreover have "upgraded tc t s c = put_table ''calls'' (altered_calls s) c2" by (simp add: upgraded_def c2_def c1_def)
  ultimately show "map_of (tables (upgraded tc t s c)) ''calls'' = Some (altered_calls s)"
    "map_of (tables (upgraded tc t s c)) ''call_requests'' = Some (altered_requests t)"
    "map_of (tables (upgraded tc t s c)) ''call_jobs'' = map_of (tables c) ''call_jobs''"
    by (auto simp: map_of_put_other map_of_put_table) (auto simp: c2_def c1_def map_of_put_other map_of_with_table split: option.splits)
  show "map_of (tables c1) ''call_requests'' = Some t" "map_of (tables c2) ''calls'' = Some s"
    "map_of (tables c2) ''call_requests'' = Some (altered_requests t)" using m1 m2 by simp_all
qed

lemma call_states_up:
  assumes "before_call_states c" "map_of (tables c) ''call_requests'' = Some t" "map_of (tables c) ''calls'' = Some s"
    and "ddl_steps f (create_customers @ protect_table ''customers'' ''client_id::text'') c = Some (with_table ''customers'' tc c)"
  shows "ddl_steps f call_states_upgrade c = Some (upgraded tc t s c)"
proof -
  define c1 where "c1 = with_table ''customers'' tc c"
  define c2 where "c2 = put_table ''call_requests'' (altered_requests t) c1"
  note l = upgraded_lookups [OF assms(1-3) c1_def c2_def]
  have n1: "''customers'' \<in> fst ` set (tables c1)" by (simp add: c1_def)
  have n2: "''call_requests'' \<in> fst ` set (tables c2)" using l(6) by (metis domI dom_map_of_conv_image_fst)
  have "ddl_steps f (map (On ''call_requests'') alter_call_requests) c1 = Some c2"
    by (simp add: ddl_steps_on [OF l(4) alterations_fk_known(1) [OF n1] l(1)] alterations_roundtrip [OF assms(1-3)] c2_def)
  moreover have "ddl_steps f (map (On ''calls'') alter_calls) c2 = Some (upgraded tc t s c)"
    by (simp add: ddl_steps_on [OF l(5) alterations_fk_known(2) [OF n2] l(2)] alterations_roundtrip [OF assms(1-3)])
       (simp add: c2_def c1_def upgraded_def)
  moreover have "ddl_step f (OnIfExists ''call_jobs'' Grant) (upgraded tc t s c) = Some (upgraded tc t s c)"
  proof -
    have "tb_granted x" if "map_of (tables c) ''call_jobs'' = Some x" for x
      using assms(1) that by (simp add: before_call_states_def)
    then have "''call_jobs'' \<in> fst ` set (tables (upgraded tc t s c)) \<Longrightarrow> on_table ''call_jobs'' Grant (upgraded tc t s c) = Some (upgraded tc t s c)"
      using regrant [OF _ _ l(3)] l(9) by (metis dom_map_of_conv_image_fst domD)
    then show ?thesis by simp
  qed
  moreover have ups: "call_states_upgrade = (create_customers @ protect_table ''customers'' ''client_id::text'')
      @ map (On ''call_requests'') alter_call_requests @ map (On ''calls'') alter_calls @ [OnIfExists ''call_jobs'' Grant]"
    by (simp add: call_states_upgrade_def)
  ultimately show ?thesis
    unfolding ups ddl_steps_append [of f "create_customers @ _"] assms(4) option.case c1_def [symmetric]
    by (simp only: ddl_steps_append ddl_steps.simps option.case)
qed

lemma call_states_down:
  assumes "before_call_states c" "map_of (tables c) ''call_requests'' = Some t" "map_of (tables c) ''calls'' = Some s"
    and "table_steps customers_ops customers_new = Some tc"
  shows "ddl_steps f call_states_downgrade (upgraded tc t s c) = Some c"
proof -
  define c1 where "c1 = with_table ''customers'' tc c"
  define c2 where "c2 = put_table ''call_requests'' (altered_requests t) c1"
  note l = upgraded_lookups [OF assms(1-3) c1_def c2_def]
  have u: "upgraded tc t s c = put_table ''calls'' (altered_calls s) c2" by (simp add: upgraded_def c2_def c1_def)
  have "ddl_steps f (map (On ''calls'') restore_calls) (upgraded tc t s c) = Some c2"
    using put_table_same [OF l(5,2)]
    by (simp add: ddl_steps_on [OF l(7) alterations_fk_known(3) l(3)] alterations_roundtrip [OF assms(1-3)]) (simp add: u)
  moreover have "ddl_steps f (map (On ''call_requests'') restore_call_requests) c2 = Some c1"
    using put_table_same [OF l(4,1)]
    by (simp add: ddl_steps_on [OF l(6) alterations_fk_known(4) l(2)] alterations_roundtrip [OF assms(1-3)]) (simp add: c2_def)
  ultimately show ?thesis
    using customers_removed [OF assms(4,1)] by (simp add: call_states_downgrade_def ddl_steps_append c1_def [symmetric])
qed

text \<open>C27. The migration to call states works on every database at the revision before it, whatever rows it
  holds: it succeeds, the result keeps all its constraints, every row of the two altered tables keeps its
  values and gets the stated defaults, and the downgrade gives back exactly the old database.\<close>

theorem call_states_migration_keeps_data:
  assumes "before_call_states c" "map_of (tables c) ''call_requests'' = Some t" "map_of (tables c) ''calls'' = Some s"
  shows "\<exists>c' t' s'. ddl_steps f call_states_upgrade c = Some c' \<and> catalog_ok c'
    \<and> map_of (tables c') ''call_requests'' = Some t'
    \<and> tb_rows t' = map (\<lambda>r. r @
        [(''status'', Str ''pending''), (''call_type'', Str ''outbound''), (''is_simulation'', Bool False),
         (''customer_id'', Null), (''telephony_call_id'', Null), (''connection_status'', Str ''not_attempted''),
         (''failure_reason'', Null), (''duration_seconds'', Null), (''recording_url'', Null), (''notes'', Null),
         (''outcome'', Null)]) (tb_rows t)
    \<and> map_of (tables c') ''calls'' = Some s'
    \<and> tb_rows s' = map (\<lambda>r. r @
        [(''is_simulation'', Bool False), (''connection_status'', Str ''connected''), (''call_request_id'', Null)]) (tb_rows s)
    \<and> ddl_steps f call_states_downgrade c' = Some c"
proof -
  obtain tc where tc: "table_steps customers_ops customers_new = Some tc"
    and cc: "ddl_steps f (create_customers @ protect_table ''customers'' ''client_id::text'') c = Some (with_table ''customers'' tc c)"
    by (rule customers_created [OF assms(1)])
  note up = call_states_up [OF assms cc]
  have "catalog_ok c" using assms(1) by (simp add: before_call_states_def)
  from up ddl_steps_ok [OF this up] upgraded_lookups(7,8) [OF assms refl refl, of tc] call_states_down [OF assms tc, of f]
  show ?thesis
    by (intro exI [of _ "upgraded tc t s c"] exI [of _ "altered_requests t"] exI [of _ "altered_calls s"])
       (simp add: altered_rows request_additions_def call_additions_def ad_value_def)
qed

definition created :: "ddl list \<Rightarrow> row list \<Rightarrow> table" where
  "created ops rs = (case hd ops of CreateTable n cs pk fks cks \<Rightarrow> (new_table cs pk fks cks)\<lparr>tb_rows := rs\<rparr>)"

definition demo_legacy :: catalog where
  "demo_legacy = empty_catalog\<lparr>tables :=
     [(''calls'', created create_calls
        [[(''call_id'', Str ''c1''), (''tenant_id'', Str ''7''), (''agent_id'', Str ''a''), (''provider_call_id'', Null),
          (''status'', Str ''completed''), (''started_at'', Other), (''ended_at'', Other), (''end_reason'', Null),
          (''created_at'', Other)]]),
      (''clients'', created create_clients []),
      (''call_requests'', created create_call_requests
        [[(''id'', Other), (''customer_name'', Str ''Asha''), (''phone_number'', Null), (''hotel_name'', Null),
          (''check_in_date'', Null), (''check_out_date'', Null), (''client_id'', Other), (''created_at'', Other)]])]\<rparr>"

lemma demo_legacy_ready: "before_call_states demo_legacy"
  by code_simp

theorem call_states_migration_keeps_data_witness:
  "\<exists>c' t'. ddl_steps Some call_states_upgrade demo_legacy = Some c' \<and> map_of (tables c') ''call_requests'' = Some t'
     \<and> length (tb_rows t') = 1 \<and> ddl_steps Some call_states_downgrade c' = Some demo_legacy"
proof -
  obtain t s where t: "map_of (tables demo_legacy) ''call_requests'' = Some t" and s: "map_of (tables demo_legacy) ''calls'' = Some s"
    and l: "length (tb_rows t) = 1"
    by (simp add: demo_legacy_def created_def create_call_requests_def create_calls_def)
  show ?thesis using call_states_migration_keeps_data [OF demo_legacy_ready t s, of Some] l by auto
qed

section \<open>Rows fit their columns\<close>

lemma apply_upgrades_ok: "catalog_ok c \<Longrightarrow> apply_upgrades f pw ms c = Some c' \<Longrightarrow> catalog_ok c'"
  by (induction ms arbitrary: c) (auto intro: ddl_steps_ok split: option.splits)


lemma demo_legacy_upgrades: "upgrade_head Some [] (Some ''a1b2c3d4e5f6'') demo_legacy \<noteq> None"
  by code_simp


end
