(* ===== verification/MigratedSchema.thy ===== *)
theory MigratedSchema
  imports Migrations
begin

text \<open>
  What the whole chain of migrations builds on an empty database, compared with \<^verbatim>\<open>models.py\<close>: the
  differences, the row-level security of every table, and what is left after going back. Each table's
  view of the run is evaluated alone.
\<close>

section \<open>The migrated schema against models.py\<close>

datatype difference =
    MissingTable string
  | ExtraTable string
  | ColumnDiffers string string
  | ExtraColumn string string
  | MissingIndex string string
  | ExtraIndex string string
  | KeysDiffer string

text \<open>On a boolean column the literal \<^verbatim>\<open>'0'\<close> is \<^verbatim>\<open>false\<close>.\<close>

definition normal_default :: "column \<Rightarrow> sql_default option" where
  "normal_default c =
     (if col_type c = Boolean \<and> server_default c = Some (Literal ''0'') then Some FalseDefault else server_default c)"

definition same_column :: "column \<Rightarrow> column \<Rightarrow> bool" where
  "same_column c d =
     (col_name c = col_name d \<and> col_type c = col_type d \<and> nullable c = nullable d \<and> normal_default c = normal_default d)"

definition table_diff :: "string \<Rightarrow> table \<Rightarrow> table \<Rightarrow> difference list" where
  "table_diff n want has =
     map (\<lambda>c. ColumnDiffers n (col_name c)) (filter (\<lambda>c. \<not> list_ex (same_column c) (tb_columns has)) (tb_columns want))
     @ map (\<lambda>c. ExtraColumn n (col_name c)) (filter (\<lambda>c. col_name c \<notin> set (column_names want)) (tb_columns has))
     @ map (\<lambda>i. MissingIndex n (ix_name i)) (filter (\<lambda>i. i \<notin> set (tb_indexes has)) (tb_indexes want))
     @ map (\<lambda>i. ExtraIndex n (ix_name i)) (filter (\<lambda>i. i \<notin> set (tb_indexes want)) (tb_indexes has))
     @ (if tb_primary_key want = tb_primary_key has \<and> set (tb_foreign_keys want) = set (tb_foreign_keys has)
           \<and> set (tb_checks want) = set (tb_checks has)
        then [] else [KeysDiffer n])"

definition schema_diff :: "(string \<times> table) list \<Rightarrow> (string \<times> table) list \<Rightarrow> difference list" where
  "schema_diff want has =
     concat (map (\<lambda>(n, t). case map_of has n of None \<Rightarrow> [MissingTable n] | Some u \<Rightarrow> table_diff n t u) want)
     @ map (\<lambda>(n, t). ExtraTable n) (filter (\<lambda>(n, t). n \<notin> fst ` set want) has)"

text \<open>The policy a table with a tenant column needs.\<close>

definition tenant_expr :: "table \<Rightarrow> string option" where
  "tenant_expr t =
     map_option (\<lambda>c. col_name c @ (if col_type c = Integer then ''::text'' else []))
       (List.find (\<lambda>c. col_name c = ''client_id'' \<or> col_name c = ''tenant_id'') (tb_columns t))"

definition isolated :: "table \<Rightarrow> bool" where
  "isolated t =
     (case tenant_expr t of None \<Rightarrow> tb_policy t = None | Some e \<Rightarrow> tb_rls t \<and> tb_force_rls t \<and> tb_policy t = Some e)"

definition head_ops :: "string \<Rightarrow> ddl list" where
  "head_ops literal =
     baseline_upgrade
     @ ([EnsureRole literal, GrantConnect, GrantSchema, GrantSequences, DefaultSequences]
        @ map (\<lambda>n. On n Grant) UNSCOPED_APP_TABLES
        @ concat (map (\<lambda>(n, e). protect_table n e) TENANT_SCOPED_TABLES))
     @ jobs_upgrade @ i18n_upgrade @ call_states_upgrade"

definition base_ops :: "ddl list" where
  "base_ops = call_states_downgrade @ i18n_downgrade @ jobs_downgrade @ rls_downgrade @ baseline_downgrade"

lemma head_path:
  "upgrade_path versions None =
     [\<lparr>revision = ''228478a4578e'', down_revision = None,
       upgrade_ops = (\<lambda>_. Some baseline_upgrade), downgrade_ops = baseline_downgrade\<rparr>,
      \<lparr>revision = ''df467b3bdd3f'', down_revision = Some ''228478a4578e'',
       upgrade_ops = rls_upgrade, downgrade_ops = rls_downgrade\<rparr>,
      \<lparr>revision = ''7b1c9e2a4f3d'', down_revision = Some ''df467b3bdd3f'',
       upgrade_ops = (\<lambda>_. Some jobs_upgrade), downgrade_ops = jobs_downgrade\<rparr>,
      \<lparr>revision = ''a1b2c3d4e5f6'', down_revision = Some ''7b1c9e2a4f3d'',
       upgrade_ops = (\<lambda>_. Some i18n_upgrade), downgrade_ops = i18n_downgrade\<rparr>,
      \<lparr>revision = ''c3d4e5f6a7b8'', down_revision = Some ''a1b2c3d4e5f6'',
       upgrade_ops = (\<lambda>_. Some call_states_upgrade), downgrade_ops = call_states_downgrade\<rparr>]"
  by (simp add: versions_def upgrade_path.simps)

lemma upgrade_head_ops:
  "pw \<noteq> [] \<Longrightarrow> upgrade_head f pw None c = ddl_steps f (head_ops (quote_literal pw)) c"
  by (simp add: upgrade_head_def head_path rls_upgrade_def head_ops_def ddl_steps_append split: option.splits)

lemma downgrade_base_ops: "downgrade_base f c = ddl_steps f base_ops c"
  by (simp add: downgrade_base_def head_path base_ops_def)

lemma quote_literal_once: "EnsureRole l \<in> set (head_ops k) \<Longrightarrow> l = k"
  by (simp add: head_ops_def baseline_upgrade_def create_calls_def create_clients_def
      create_phone_number_routes_def create_admin_users_def create_call_events_def create_call_turns_def
      create_audit_logs_def create_call_requests_def UNSCOPED_APP_TABLES_def TENANT_SCOPED_TABLES_def protect_table_def
      jobs_upgrade_def create_call_jobs_def i18n_upgrade_def call_states_upgrade_def create_customers_def image_iff)

text \<open>What becomes of one table on the way to the head, and on the way back.\<close>

definition table_report :: "string \<Rightarrow> table \<Rightarrow> string \<Rightarrow> (difference list \<times> bool \<times> bool \<times> table option option) option" where
  "table_report n m k =
     (case local_steps n (head_ops k) None of
        Some (Some t) \<Rightarrow> Some (table_diff n m t, tb_granted t, isolated t, local_steps n base_ops (Some t))
      | _ \<Rightarrow> None)"

lemma report_clients:
  "table_report ''clients'' model_clients k =
     Some ([], True, True, Some None)"
  by code_simp

lemma report_admin_users:
  "table_report ''admin_users'' model_admin_users k =
     Some ([], True, True, Some None)"
  by code_simp

lemma report_customers:
  "table_report ''customers'' model_customers k =
     Some ([ColumnDiffers ''customers'' ''metadata_json'', ColumnDiffers ''customers'' ''created_at'',
        ColumnDiffers ''customers'' ''updated_at'', MissingIndex ''customers'' ''ix_customers_client_id''], True, True, Some None)"
  by code_simp

lemma report_call_requests:
  "table_report ''call_requests'' model_call_requests k =
     Some ([], True, True, Some None)"
  by code_simp

lemma report_calls:
  "table_report ''calls'' model_calls k =
     Some ([], True, True, Some None)"
  by code_simp

lemma report_call_turns:
  "table_report ''call_turns'' model_call_turns k =
     Some ([], True, True, Some None)"
  by code_simp

lemma report_call_events:
  "table_report ''call_events'' model_call_events k =
     Some ([], True, True, Some None)"
  by code_simp

lemma report_audit_logs:
  "table_report ''audit_logs'' model_audit_logs k =
     Some ([], True, True, Some None)"
  by code_simp

lemma report_call_jobs:
  "table_report ''call_jobs'' model_call_jobs k =
     Some ([MissingIndex ''call_jobs'' ''ix_call_jobs_tenant_id''], True, True, Some None)"
  by code_simp

lemma report_phone_number_routes:
  "table_report ''phone_number_routes'' model_phone_number_routes k =
     Some ([], True, False, Some None)"
  by code_simp

lemmas table_reports =
  report_clients
  report_admin_users
  report_customers
  report_call_requests
  report_calls
  report_call_turns
  report_call_events
  report_audit_logs
  report_call_jobs
  report_phone_number_routes

lemma overview_runs:
  "map_option (\<lambda>(rs, role). (map fst rs, role, global_steps Some base_ops (rs, role))) (global_steps Some (head_ops k) ([], False))
   = Some ([''calls'', ''clients'', ''phone_number_routes'', ''admin_users'', ''call_events'', ''call_turns'', ''audit_logs'',
       ''call_requests'', ''call_jobs'', ''customers''], True, Some ([], True))"
  by code_simp

lemma op_targets:
  "list_all (\<lambda>x. case target x of None \<Rightarrow> True | Some n \<Rightarrow> n \<in> fst ` set metadata) (head_ops k @ base_ops)"
  by code_simp

lemma base_ops_role: "EnsureRole l \<notin> set base_ops"
  by (auto simp: base_ops_def call_states_downgrade_def i18n_downgrade_def jobs_downgrade_def rls_downgrade_def
      baseline_downgrade_def unprotect_table_def TENANT_SCOPED_TABLES_def UNSCOPED_APP_TABLES_def)

lemma ops_privileges:
  "fold (privilege_step f) (head_ops l) (None, False, False, False, False) = (f l, True, True, True, True)"
  "fold (privilege_step f) base_ops (r, True, True, True, True) = (r, False, False, True, True)"
  by code_simp+

lemma targets_known:
  "Some n \<in> target ` set (head_ops k) \<Longrightarrow> n \<in> fst ` set metadata" "Some n \<in> target ` set base_ops \<Longrightarrow> n \<in> fst ` set metadata"
  using op_targets [of k] by (force simp: list_all_iff split: option.splits)+

text \<open>The expected differences of a table, and whether its rows are isolated.\<close>

definition known_diff :: "string \<Rightarrow> difference list" where
  "known_diff n =
     (if n = ''customers''
      then [ColumnDiffers ''customers'' ''metadata_json'', ColumnDiffers ''customers'' ''created_at'',
            ColumnDiffers ''customers'' ''updated_at'', MissingIndex ''customers'' ''ix_customers_client_id'']
      else if n = ''call_jobs'' then [MissingIndex ''call_jobs'' ''ix_call_jobs_tenant_id''] else [])"

lemma metadata_report:
  assumes "(n, m) \<in> set metadata"
  shows "\<exists>t. local_steps n (head_ops k) None = Some (Some t) \<and> table_diff n m t = known_diff n \<and> tb_granted t
    \<and> (isolated t \<longleftrightarrow> n \<noteq> ''phone_number_routes'') \<and> local_steps n base_ops (Some t) = Some None"
proof -
  have "\<forall>e \<in> set metadata. table_report (fst e) (snd e) k
      = Some (known_diff (fst e), True, fst e \<noteq> ''phone_number_routes'', Some None)"
    by (simp add: metadata_def known_diff_def table_reports)
  with assms have "table_report n m k = Some (known_diff n, True, n \<noteq> ''phone_number_routes'', Some None)" by fastforce
  then show ?thesis by (auto simp: table_report_def split: option.splits)
qed

lemma head_names:
  "set [''calls'', ''clients'', ''phone_number_routes'', ''admin_users'', ''call_events'', ''call_turns'', ''audit_logs'',
     ''call_requests'', ''call_jobs'', ''customers''] = fst ` set metadata"
  by code_simp

text \<open>The database that \<^verbatim>\<open>alembic upgrade head\<close> builds.\<close>

definition head_state :: "string \<Rightarrow> catalog \<Rightarrow> bool" where
  "head_state pw c \<longleftrightarrow>
     distinct (map fst (tables c)) \<and> set (map fst (tables c)) = fst ` set metadata
     \<and> privileges c = (Some pw, True, True, True, True)
     \<and> (\<forall>(n, m) \<in> set metadata. \<exists>t. map_of (tables c) n = Some t \<and> table_diff n m t = known_diff n \<and> tb_granted t
        \<and> (isolated t \<longleftrightarrow> n \<noteq> ''phone_number_routes''))"

lemma head_database:
  assumes "pw \<noteq> []" "f (quote_literal pw) = Some pw"
  shows "\<exists>c c'. upgrade_head f pw None empty_catalog = Some c \<and> head_state pw c
    \<and> downgrade_base f c = Some c' \<and> tables c' = [] \<and> privileges c' = (Some pw, False, False, True, True)"
proof -
  let ?k = "quote_literal pw"
  obtain rs where g: "global_steps Some (head_ops ?k) ([], False) = Some (rs, True)"
    and "map fst rs = [''calls'', ''clients'', ''phone_number_routes'', ''admin_users'', ''call_events'', ''call_turns'',
      ''audit_logs'', ''call_requests'', ''call_jobs'', ''customers'']"
    and b: "global_steps Some base_ops (rs, True) = Some ([], True)"
    using overview_runs [of ?k] by (cases "global_steps Some (head_ops ?k) ([], False)") (auto simp del: map_eq_Cons_conv)
  then have names: "set (map fst rs) = fst ` set metadata" unfolding head_names [symmetric] by (simp only:)
  have "overview empty_catalog = ([], False)" "privileges empty_catalog = (None, False, False, False, False)"
    by (simp_all add: overview_def privileges_def empty_catalog_def)
  moreover have "global_steps f (head_ops ?k) ([], False) = Some (rs, True)"
    unfolding g [symmetric] by (rule global_steps_cong) (auto dest: quote_literal_once simp: assms(2))
  moreover have "local_steps n (head_ops ?k) (map_of (tables empty_catalog) n) \<noteq> None"
    if "Some n \<in> target ` set (head_ops ?k)" for n
  proof -
    have "n \<in> fst ` set metadata" using that by (rule targets_known(1))
    then obtain m where "(n, m) \<in> set metadata" by auto
    from metadata_report [OF this, of ?k] show ?thesis by (auto simp: empty_catalog_def)
  qed
  ultimately obtain c where c: "ddl_steps f (head_ops ?k) empty_catalog = Some c" "distinct (map fst (tables c))"
      "overview c = (rs, True)" "privileges c = (Some pw, True, True, True, True)"
    and views: "\<And>n. local_steps n (head_ops ?k) None = Some (map_of (tables c) n)"
    using ddl_steps_views [of empty_catalog f "head_ops ?k"] ddl_steps_privileges [of f "head_ops ?k" empty_catalog]
      assms(2) ops_privileges(1) [of f ?k] by (fastforce simp: empty_catalog_def)
  have cn: "set (map fst (tables c)) = fst ` set metadata" using overview_names(2) [of c] names by (simp add: c(3))
  have tab: "\<exists>t. map_of (tables c) n = Some t \<and> table_diff n m t = known_diff n \<and> tb_granted t
      \<and> (isolated t \<longleftrightarrow> n \<noteq> ''phone_number_routes'') \<and> local_steps n base_ops (Some t) = Some None"
    if "(n, m) \<in> set metadata" for n m
    using metadata_report [OF that, of ?k] views [of n] by auto
  have "global_steps f base_ops (overview c) = Some ([], True)"
    unfolding b [symmetric] c(3) by (rule global_steps_cong) (simp add: base_ops_role)
  moreover have "local_steps n base_ops (map_of (tables c) n) \<noteq> None" if "Some n \<in> target ` set base_ops" for n
  proof -
    have "n \<in> fst ` set metadata" using that by (rule targets_known(2))
    then obtain m where "(n, m) \<in> set metadata" by auto
    from tab [OF this] show ?thesis by auto
  qed
  ultimately obtain c' where c': "ddl_steps f base_ops c = Some c'" "overview c' = ([], True)"
    using ddl_steps_views [OF c(2)] by blast
  have "tables c' = []" using c'(2) by (simp add: overview_def)
  moreover have "privileges c' = (Some pw, False, False, True, True)"
    using ddl_steps_privileges [OF c'(1)] by (simp add: c(4) ops_privileges(2))
  moreover have "head_state pw c" unfolding head_state_def using c(2,4) cn tab by blast
  ultimately show ?thesis using c(1) c'(1) upgrade_head_ops [OF assms(1)] downgrade_base_ops by metis
qed

text \<open>C25. On an empty database \<^verbatim>\<open>alembic upgrade head\<close> succeeds and builds the tables of \<^verbatim>\<open>models.py\<close>, column by
  column, key by key and index by index, up to five differences: \<^verbatim>\<open>customers.metadata_json\<close> is JSON instead of
  JSONB, the two timestamps of \<^verbatim>\<open>customers\<close> are NOT NULL, and two declared indexes are never created. Without
  \<^verbatim>\<open>APP_DB_PASSWORD\<close> nothing is migrated.\<close>

theorem migrations_build_models:
  assumes "pw \<noteq> []" "exec_role (quote_literal pw) = Some pw"
  shows "(\<exists>c. upgrade_head exec_role pw None empty_catalog = Some c \<and> app_role c = Some pw
      \<and> schema_diff metadata (tables c) =
          [ColumnDiffers ''customers'' ''metadata_json'', ColumnDiffers ''customers'' ''created_at'',
           ColumnDiffers ''customers'' ''updated_at'', MissingIndex ''customers'' ''ix_customers_client_id'',
           MissingIndex ''call_jobs'' ''ix_call_jobs_tenant_id''])
    \<and> upgrade_head exec_role [] None empty_catalog = None"
proof -
  obtain c where c: "upgrade_head exec_role pw None empty_catalog = Some c" and h: "head_state pw c"
    using head_database [of pw exec_role, OF assms] by blast
  have "concat (map (\<lambda>(n, m). case map_of (tables c) n of None \<Rightarrow> [MissingTable n] | Some u \<Rightarrow> table_diff n m u) metadata)
      = concat (map (\<lambda>(n, m). known_diff n) metadata)"
    using h by (intro arg_cong [of _ _ concat] map_cong) (auto simp: head_state_def)
  moreover have "filter (\<lambda>(n, t). n \<notin> fst ` set metadata) (tables c) = []"
  proof -
    have "fst ` set (tables c) = fst ` set metadata" using h by (simp add: head_state_def)
    then have "fst e \<in> fst ` set metadata" if "e \<in> set (tables c)" for e using that by blast
    then show ?thesis by (simp add: filter_empty_conv case_prod_beta)
  qed
  ultimately have "schema_diff metadata (tables c) = concat (map (\<lambda>(n, m). known_diff n) metadata)"
    by (simp add: schema_diff_def)
  also have "\<dots> = [ColumnDiffers ''customers'' ''metadata_json'', ColumnDiffers ''customers'' ''created_at'',
      ColumnDiffers ''customers'' ''updated_at'', MissingIndex ''customers'' ''ix_customers_client_id'',
      MissingIndex ''call_jobs'' ''ix_call_jobs_tenant_id'']"
    by (simp add: metadata_def known_diff_def)
  moreover have "upgrade_head exec_role [] None empty_catalog = None"
    by (simp add: upgrade_head_def head_path rls_upgrade_def split: option.splits)
  ultimately show ?thesis using c h by (simp add: privileges_def head_state_def)
qed

text \<open>The SQL literal of a password reads back as the password.\<close>

fun read_literal :: "string \<Rightarrow> string option" where
  "read_literal [] = Some []"
| "read_literal (c # s) =
     (if c = CHR 39
      then (case s of c' # s' \<Rightarrow> if c' = CHR 39 then map_option ((#) c) (read_literal s') else None | [] \<Rightarrow> None)
      else map_option ((#) c) (read_literal s))"

lemma read_quote_literal: "read_literal (quote_literal s) = Some s"
  by (induction s) (auto simp: quote_literal_def)

theorem migrations_build_models_witness:
  "\<exists>c. upgrade_head read_literal ''it's'' None empty_catalog = Some c \<and> app_role c = Some ''it's''"
  using migrations_build_models [of "''it's''" read_literal] by (auto simp: read_quote_literal)

text \<open>C26. After the migrations every table with a tenant column has row-level security enabled and forced with the
  policy on exactly that column, and the application role may use every table; the one exception is
  \<^verbatim>\<open>phone_number_routes\<close>, which is routing configuration. Going back to the base drops every table and leaves
  the role, its password and its sequence privileges.\<close>

theorem tenant_tables_are_isolated:
  assumes "pw \<noteq> []" "exec_role (quote_literal pw) = Some pw"
  shows "\<exists>c c'. upgrade_head exec_role pw None empty_catalog = Some c
    \<and> (\<forall>(n, t) \<in> set (tables c). tb_granted t \<and> (n = ''phone_number_routes'' \<or> isolated t))
    \<and> downgrade_base exec_role c = Some c' \<and> tables c' = [] \<and> privileges c' = (Some pw, False, False, True, True)"
proof -
  obtain c c' where c: "upgrade_head exec_role pw None empty_catalog = Some c"
      "downgrade_base exec_role c = Some c'" "tables c' = []" "privileges c' = (Some pw, False, False, True, True)"
    and h: "head_state pw c"
    using head_database [of pw exec_role, OF assms] by blast
  have "tb_granted u \<and> (n = ''phone_number_routes'' \<or> isolated u)" if "(n, u) \<in> set (tables c)" for n u
  proof -
    have "n \<in> set (map fst (tables c))" using that by force
    with h obtain m where "(n, m) \<in> set metadata" by (auto simp: head_state_def)
    with h obtain t where "map_of (tables c) n = Some t" "tb_granted t" "n = ''phone_number_routes'' \<or> isolated t"
      unfolding head_state_def by fast
    moreover have "map_of (tables c) n = Some u" using that h by (simp add: head_state_def)
    ultimately show ?thesis by simp
  qed
  with c show ?thesis by blast
qed

theorem tenant_tables_are_isolated_witness:
  "\<exists>c c'. upgrade_head read_literal ''pw'' None empty_catalog = Some c \<and> downgrade_base read_literal c = Some c'
    \<and> app_role c' = Some ''pw''"
  using tenant_tables_are_isolated [of "''pw''" read_literal] by (auto simp: read_quote_literal privileges_def)

end
