(* ===== verification/SeedData.thy ===== *)
theory SeedData
  imports Models
begin

text \<open>
  The development seed (\<^verbatim>\<open>scripts/seed_dev.py\<close>): two clients, their users and sample call requests. Generated
  keys, the clock and the hash of the shared password are arguments. Running it again creates nothing.
\<close>

section \<open>The rows to create\<close>

record user_def =
  ud_email :: string
  ud_full_name :: string
  ud_role :: string
  ud_status :: string

record client_def =
  cd_name :: string
  cd_slug :: string
  cd_plan :: string
  cd_status :: string
  cd_contact_email :: string
  cd_contact_phone :: string
  cd_country :: string
  cd_timezone :: string
  cd_currency :: string
  cd_default_language :: string
  cd_phone_country_code :: string
  cd_api_limit :: int
  cd_max_concurrent_calls :: int
  cd_users :: "user_def list"

definition CLIENTS :: "client_def list" where
  "CLIENTS =
     [\<lparr>cd_name = ''Hotel Grand India'', cd_slug = ''hotel-grand-india'', cd_plan = ''pro'', cd_status = ''active'',
       cd_contact_email = ''admin@hotelgrandindia.example'', cd_contact_phone = ''+919876543210'', cd_country = ''IN'',
       cd_timezone = ''Asia/Kolkata'', cd_currency = ''INR'', cd_default_language = ''en'', cd_phone_country_code = ''+91'',
       cd_api_limit = 500, cd_max_concurrent_calls = 20,
       cd_users =
         [\<lparr>ud_email = ''admin-india@example.com'', ud_full_name = ''India Admin'', ud_role = ''tenant_admin'', ud_status = ''active''\<rparr>,
          \<lparr>ud_email = ''user-india@example.com'', ud_full_name = ''India Reception'', ud_role = ''agent'', ud_status = ''active''\<rparr>]\<rparr>,
      \<lparr>cd_name = ''Palace Hotel UAE'', cd_slug = ''palace-hotel-uae'', cd_plan = ''enterprise'', cd_status = ''active'',
       cd_contact_email = ''admin@palacehoteluae.example'', cd_contact_phone = ''+97155123456'', cd_country = ''AE'',
       cd_timezone = ''Asia/Dubai'', cd_currency = ''AED'', cd_default_language = ''en'', cd_phone_country_code = ''+971'',
       cd_api_limit = 1000, cd_max_concurrent_calls = 50,
       cd_users =
         [\<lparr>ud_email = ''admin-uae@example.com'', ud_full_name = ''UAE Admin'', ud_role = ''tenant_admin'', ud_status = ''active''\<rparr>,
          \<lparr>ud_email = ''user-uae@example.com'', ud_full_name = ''UAE Reception'', ud_role = ''agent'', ud_status = ''active''\<rparr>]\<rparr>]"

record seed_env =
  se_now :: datetime
  se_pw_hash :: string
  se_client_id :: "string \<Rightarrow> int"
  se_user_id :: "string \<Rightarrow> string"
  se_caller_id :: "int \<Rightarrow> nat \<Rightarrow> int"

section \<open>One client\<close>

definition seed_new_client :: "seed_env \<Rightarrow> client_def \<Rightarrow> client" where
  "seed_new_client e cd =
     \<lparr>cl_id = se_client_id e (cd_slug cd), cl_name = cd_name cd, cl_slug = Some (cd_slug cd), cl_plan = Some (cd_plan cd),
      cl_status = Some (cd_status cd), cl_contact_email = Some (cd_contact_email cd),
      cl_contact_phone = Some (cd_contact_phone cd), cl_api_limit = Some (cd_api_limit cd),
      cl_max_concurrent_calls = Some (cd_max_concurrent_calls cd), cl_created_at = se_now e, cl_updated_at = se_now e,
      cl_country = Some (cd_country cd), cl_timezone = Some (cd_timezone cd), cl_currency = Some (cd_currency cd),
      cl_default_language = Some (cd_default_language cd), cl_phone_country_code = Some (cd_phone_country_code cd)\<rparr>"

definition localised :: "client_def \<Rightarrow> client \<Rightarrow> client" where
  "localised cd c =
     c\<lparr>cl_country := Some (cd_country cd), cl_timezone := Some (cd_timezone cd), cl_currency := Some (cd_currency cd),
       cl_default_language := Some (cd_default_language cd), cl_phone_country_code := Some (cd_phone_country_code cd)\<rparr>"

text \<open>An UPDATE is sent, and \<^verbatim>\<open>updated_at\<close> set, only when a value changed.\<close>

definition relocalise :: "seed_env \<Rightarrow> client_def \<Rightarrow> client \<Rightarrow> client" where
  "relocalise e cd c = (if localised cd c = c then c else (localised cd c)\<lparr>cl_updated_at := se_now e\<rparr>)"

definition find_or_create_client :: "seed_env \<Rightarrow> client_def \<Rightarrow> database \<Rightarrow> database \<times> client \<times> nat" where
  "find_or_create_client e cd d =
     (case tbl_get cl_slug (t_clients d) (Some (cd_slug cd)) of
        None \<Rightarrow> let c = seed_new_client e cd in (d\<lparr>t_clients := t_clients d @ [c]\<rparr>, c, 1)
      | Some c \<Rightarrow>
          (d\<lparr>t_clients := tbl_update (\<lambda>r. cl_id r = cl_id c) (relocalise e cd) (t_clients d)\<rparr>, relocalise e cd c, 0))"

definition seed_user :: "seed_env \<Rightarrow> int \<Rightarrow> user_def \<Rightarrow> database \<times> nat \<Rightarrow> database \<times> nat" where
  "seed_user e cid ud s =
     (case s of (d, n) \<Rightarrow>
      case tbl_get us_email (t_admin_users d) (ud_email ud) of
        None \<Rightarrow>
          (d\<lparr>t_admin_users := t_admin_users d @
              [\<lparr>us_id = se_user_id e (ud_email ud), us_email = ud_email ud, us_full_name = ud_full_name ud,
                us_password_hash = Some (se_pw_hash e), us_role = Some (ud_role ud), us_tenant_id = Some cid,
                us_status = Some (ud_status ud), us_created_at = se_now e\<rparr>]\<rparr>, n + 1)
      | Some u \<Rightarrow>
          (d\<lparr>t_admin_users := tbl_update (\<lambda>r. us_id r = us_id u)
               (\<lambda>r. r\<lparr>us_password_hash := Some (se_pw_hash e), us_tenant_id := Some cid\<rparr>) (t_admin_users d)\<rparr>, n))"

definition sample_call :: "seed_env \<Rightarrow> client_def \<Rightarrow> int \<Rightarrow> nat \<Rightarrow> caller" where
  "sample_call e cd cid i =
     \<lparr>ca_id = se_caller_id e cid i, ca_customer_name = Some (''Sample Guest '' @ int_str (int i + 1)),
      ca_phone_number = Some (cd_phone_country_code cd @ ''9000000'' @ ''00'' @ int_str (int i)),
      ca_hotel_name = Some (cd_name cd), ca_check_in_date = Some ''2026-09-01'', ca_check_out_date = Some ''2026-09-03'',
      ca_client_id = Some cid, ca_created_at = se_now e, ca_status = ''pending'', ca_call_type = ''outbound'',
      ca_is_simulation = False, ca_customer_id = None, ca_telephony_call_id = None, ca_connection_status = ''not_attempted'',
      ca_failure_reason = None, ca_duration_seconds = None, ca_recording_url = None, ca_notes = None, ca_outcome = None\<rparr>"

definition seed_calls :: "seed_env \<Rightarrow> client_def \<Rightarrow> int \<Rightarrow> database \<Rightarrow> database" where
  "seed_calls e cd cid d =
     (if \<exists>r \<in> set (t_call_requests d). ca_client_id r = Some cid then d
      else d\<lparr>t_call_requests := t_call_requests d @ map (sample_call e cd cid) [0, 1, 2, 3, 4]\<rparr>)"

definition seed_client :: "seed_env \<Rightarrow> client_def \<Rightarrow> database \<times> nat \<times> nat \<Rightarrow> database \<times> nat \<times> nat" where
  "seed_client e cd s =
     (case s of (d, clients, users) \<Rightarrow>
      case find_or_create_client e cd d of (d1, c, n) \<Rightarrow>
      case fold (seed_user e (cl_id c)) (cd_users cd) (d1, users) of (d2, users') \<Rightarrow>
        (seed_calls e cd (cl_id c) d2, clients + n, users'))"

text \<open>\<^verbatim>\<open>seed\<close>: one transaction, with the numbers of clients and users it created.\<close>

definition seed :: "seed_env \<Rightarrow> database \<Rightarrow> database \<times> nat \<times> nat" where
  "seed e d = fold (seed_client e) CLIENTS (d, 0, 0)"

section \<open>Running it again\<close>

definition seeded :: "client_def \<Rightarrow> database \<Rightarrow> bool" where
  "seeded cd d \<longleftrightarrow>
     (\<exists>c. tbl_get cl_slug (t_clients d) (Some (cd_slug cd)) = Some c \<and> localised cd c = c
        \<and> (\<exists>r \<in> set (t_call_requests d). ca_client_id r = Some (cl_id c)))
     \<and> (\<forall>u \<in> set (cd_users cd). ud_email u \<in> us_email ` set (t_admin_users d))"

lemma relocalise_keys [simp]: "cl_id (relocalise e cd c) = cl_id c" "cl_slug (relocalise e cd c) = cl_slug c"
  by (simp_all add: relocalise_def localised_def)

lemma localised_relocalise [simp]: "localised cd (relocalise e cd c) = relocalise e cd c"
  by (simp add: relocalise_def localised_def)

interpretation client_slugs: keyed_update cl_slug "relocalise e cd"
  by unfold_locales simp

interpretation client_ids: keyed_update cl_id "relocalise e cd"
  by unfold_locales simp

interpretation user_emails: keyed_update us_email "\<lambda>r. r\<lparr>us_password_hash := p, us_tenant_id := t\<rparr>"
  by unfold_locales simp

lemma seed_user_frame:
  "t_clients (fst (seed_user e cid ud s)) = t_clients (fst s)"
  "t_call_requests (fst (seed_user e cid ud s)) = t_call_requests (fst s)"
  "us_email ` set (t_admin_users (fst (seed_user e cid ud s))) = insert (ud_email ud) (us_email ` set (t_admin_users (fst s)))"
proof -
  obtain d n where s: "s = (d, n)" by fastforce
  show "t_clients (fst (seed_user e cid ud s)) = t_clients (fst s)"
    "t_call_requests (fst (seed_user e cid ud s)) = t_call_requests (fst s)"
    by (simp_all add: s seed_user_def split: option.splits)
  show "us_email ` set (t_admin_users (fst (seed_user e cid ud s))) = insert (ud_email ud) (us_email ` set (t_admin_users (fst s)))"
  proof (cases "tbl_get us_email (t_admin_users d) (ud_email ud)")
    case (Some u)
    then have "ud_email ud \<in> us_email ` set (t_admin_users d)" by (metis imageI tbl_get_SomeD)
    with Some show ?thesis by (simp add: s seed_user_def user_emails.keys_update insert_absorb)
  qed (simp add: s seed_user_def)
qed

lemma seed_users_frame:
  "t_clients (fst (fold (seed_user e cid) us s)) = t_clients (fst s)"
  "t_call_requests (fst (fold (seed_user e cid) us s)) = t_call_requests (fst s)"
  "us_email ` set (t_admin_users (fst (fold (seed_user e cid) us s))) = ud_email ` set us \<union> us_email ` set (t_admin_users (fst s))"
  by (induction us arbitrary: s) (auto simp: seed_user_frame)

lemma seed_users_none_created:
  "\<forall>u \<in> set us. ud_email u \<in> us_email ` set (t_admin_users (fst s)) \<Longrightarrow> snd (fold (seed_user e cid) us s) = snd s"
proof (induction us arbitrary: s)
  case (Cons u us)
  obtain d n where s: "s = (d, n)" by fastforce
  have "snd (seed_user e cid u s) = snd s"
    using Cons.prems by (auto simp: s seed_user_def tbl_get_None_iff split: option.splits)
  moreover have "\<forall>v \<in> set us. ud_email v \<in> us_email ` set (t_admin_users (fst (seed_user e cid u s)))"
    using Cons.prems by (simp add: seed_user_frame)
  ultimately show ?case using Cons.IH by simp
qed simp

lemma seed_calls_frame [simp]:
  "t_clients (seed_calls e cd cid d) = t_clients d" "t_admin_users (seed_calls e cd cid d) = t_admin_users d"
  by (simp_all add: seed_calls_def)

lemma seed_calls_there: "\<exists>r \<in> set (t_call_requests (seed_calls e cd cid d)). ca_client_id r = Some cid"
  by (simp add: seed_calls_def sample_call_def)

lemma seed_calls_mono: "set (t_call_requests d) \<subseteq> set (t_call_requests (seed_calls e cd cid d))"
  by (auto simp: seed_calls_def)

lemma seed_users_emails:
  "\<forall>u \<in> set us. ud_email u \<in> us_email ` set (t_admin_users (fst s))
     \<Longrightarrow> map us_email (t_admin_users (fst (fold (seed_user e cid) us s))) = map us_email (t_admin_users (fst s))"
proof (induction us arbitrary: s)
  case (Cons u us)
  obtain d n where s: "s = (d, n)" by fastforce
  have "map us_email (t_admin_users (fst (seed_user e cid u s))) = map us_email (t_admin_users (fst s))"
    using Cons.prems by (auto simp: s seed_user_def tbl_get_None_iff tbl_update_def split: option.splits)
  moreover have "\<forall>v \<in> set us. ud_email v \<in> us_email ` set (t_admin_users (fst (seed_user e cid u s)))"
    using Cons.prems by (simp add: seed_user_frame)
  ultimately show ?case using Cons.IH by simp
qed simp

lemma find_or_create_found:
  assumes "find_or_create_client e cd d = (d1, c, n)"
  shows "tbl_get cl_slug (t_clients d1) (Some (cd_slug cd)) = Some c" "localised cd c = c"
    "t_call_requests d1 = t_call_requests d" "t_admin_users d1 = t_admin_users d"
proof -
  have new: "cl_slug (seed_new_client e cd) = Some (cd_slug cd)" "localised cd (seed_new_client e cd) = seed_new_client e cd"
    by (simp_all add: seed_new_client_def localised_def)
  show "tbl_get cl_slug (t_clients d1) (Some (cd_slug cd)) = Some c" "localised cd c = c"
    "t_call_requests d1 = t_call_requests d" "t_admin_users d1 = t_admin_users d"
    using assms new by (auto simp: find_or_create_client_def Let_def client_slugs.get_update split: option.splits)
qed

text \<open>The rows after seeding one client.\<close>

lemma seed_client_parts:
  obtains d1 c n where "find_or_create_client e cd d = (d1, c, n)"
    "t_clients (fst (seed_client e cd (d, a, b))) = t_clients d1"
    "set (t_call_requests d) \<subseteq> set (t_call_requests (fst (seed_client e cd (d, a, b))))"
    "\<exists>r \<in> set (t_call_requests (fst (seed_client e cd (d, a, b)))). ca_client_id r = Some (cl_id c)"
    "us_email ` set (t_admin_users (fst (seed_client e cd (d, a, b)))) = ud_email ` set (cd_users cd) \<union> us_email ` set (t_admin_users d)"
proof -
  obtain d1 c n where f: "find_or_create_client e cd d = (d1, c, n)" by (metis prod.collapse)
  note f' = find_or_create_found [OF f]
  define d2 where "d2 = fst (fold (seed_user e (cl_id c)) (cd_users cd) (d1, b))"
  have r: "fst (seed_client e cd (d, a, b)) = seed_calls e cd (cl_id c) d2"
    by (simp add: seed_client_def f d2_def case_prod_beta)
  have "t_call_requests d2 = t_call_requests d" by (simp add: d2_def seed_users_frame f')
  then have "set (t_call_requests d) \<subseteq> set (t_call_requests (seed_calls e cd (cl_id c) d2))"
    using seed_calls_mono [of d2 e cd "cl_id c"] by simp
  moreover have "t_clients d2 = t_clients d1"
    "us_email ` set (t_admin_users d2) = ud_email ` set (cd_users cd) \<union> us_email ` set (t_admin_users d)"
    by (simp_all add: d2_def seed_users_frame f')
  ultimately show thesis
    by (intro that [OF f]) (simp_all add: r seed_calls_there)
qed

lemma seed_client_seeds: "seeded cd (fst (seed_client e cd (d, a, b)))"
proof -
  obtain d1 c n where p: "find_or_create_client e cd d = (d1, c, n)"
    "t_clients (fst (seed_client e cd (d, a, b))) = t_clients d1"
    "\<exists>r \<in> set (t_call_requests (fst (seed_client e cd (d, a, b)))). ca_client_id r = Some (cl_id c)"
    "us_email ` set (t_admin_users (fst (seed_client e cd (d, a, b)))) = ud_email ` set (cd_users cd) \<union> us_email ` set (t_admin_users d)"
    by (rule seed_client_parts)
  with find_or_create_found [OF p(1)] show ?thesis by (simp add: seeded_def)
qed

text \<open>Another client's rows are left alone.\<close>

lemma seed_client_keeps:
  assumes "distinct (map cl_id (t_clients d))" "se_client_id e (cd_slug cd) \<notin> cl_id ` set (t_clients d)"
    and "cd_slug other \<noteq> cd_slug cd"
  shows "distinct (map cl_id (t_clients (fst (seed_client e cd (d, a, b)))))"
    and "seeded other d \<Longrightarrow> seeded other (fst (seed_client e cd (d, a, b)))"
    and "cl_id ` set (t_clients (fst (seed_client e cd (d, a, b)))) \<subseteq> insert (se_client_id e (cd_slug cd)) (cl_id ` set (t_clients d))"
proof -
  obtain d1 c n where p: "find_or_create_client e cd d = (d1, c, n)"
    "t_clients (fst (seed_client e cd (d, a, b))) = t_clients d1"
    "set (t_call_requests d) \<subseteq> set (t_call_requests (fst (seed_client e cd (d, a, b))))"
    "us_email ` set (t_admin_users (fst (seed_client e cd (d, a, b)))) = ud_email ` set (cd_users cd) \<union> us_email ` set (t_admin_users d)"
    by (rule seed_client_parts)
  show "distinct (map cl_id (t_clients (fst (seed_client e cd (d, a, b)))))"
    using assms(1,2) p(1)
    by (auto simp: p(2) find_or_create_client_def Let_def client_ids.distinct_update seed_new_client_def split: option.splits)
  show "cl_id ` set (t_clients (fst (seed_client e cd (d, a, b)))) \<subseteq> insert (se_client_id e (cd_slug cd)) (cl_id ` set (t_clients d))"
  proof (cases "tbl_get cl_slug (t_clients d) (Some (cd_slug cd))")
    case (Some c0)
    with p(1) have "t_clients d1 = tbl_update (\<lambda>r. cl_id r = cl_id c0) (relocalise e cd) (t_clients d)"
      by (auto simp: find_or_create_client_def)
    then have "cl_id ` set (t_clients d1) = cl_id ` set (t_clients d)" by (simp only: client_ids.keys_update)
    then show ?thesis unfolding p(2) by (simp only: subset_insertI)
  qed (use p(1) in \<open>auto simp: p(2) find_or_create_client_def Let_def seed_new_client_def\<close>)
  assume s: "seeded other d"
  then obtain other_c where oc: "tbl_get cl_slug (t_clients d) (Some (cd_slug other)) = Some other_c" by (auto simp: seeded_def)
  have "tbl_get cl_slug (t_clients d1) (Some (cd_slug other)) = Some other_c"
  proof (cases "tbl_get cl_slug (t_clients d) (Some (cd_slug cd))")
    case None
    with p(1) oc show ?thesis by (auto simp: find_or_create_client_def Let_def)
  next
    case (Some c0)
    have "cl_id other_c \<noteq> cl_id c0"
      using tbl_get_SomeD [OF oc] tbl_get_SomeD [OF Some] assms(3) key_unique [OF assms(1)] by force
    with Some p(1) oc show ?thesis by (auto simp: find_or_create_client_def client_slugs.get_update)
  qed
  with s oc p(3) show "seeded other (fst (seed_client e cd (d, a, b)))" unfolding seeded_def p(2,4) by auto
qed

lemma seed_client_again:
  assumes "distinct (map cl_id (t_clients d))" "seeded cd d"
  shows "t_clients (fst (seed_client e cd (d, a, b))) = t_clients d"
    "t_call_requests (fst (seed_client e cd (d, a, b))) = t_call_requests d"
    "map us_email (t_admin_users (fst (seed_client e cd (d, a, b)))) = map us_email (t_admin_users d)"
    "snd (seed_client e cd (d, a, b)) = (a, b)"
proof -
  from assms(2) obtain c where c: "tbl_get cl_slug (t_clients d) (Some (cd_slug cd)) = Some c" "localised cd c = c"
    and r: "\<exists>r \<in> set (t_call_requests d). ca_client_id r = Some (cl_id c)"
    and u: "\<forall>u \<in> set (cd_users cd). ud_email u \<in> us_email ` set (t_admin_users d)"
    by (auto simp: seeded_def)
  have rc: "relocalise e cd c = c" by (simp add: relocalise_def c(2))
  have "tbl_update (\<lambda>r. cl_id r = cl_id c) (relocalise e cd) (t_clients d) = t_clients d"
    unfolding tbl_update_def using key_unique [OF assms(1)] tbl_get_SomeD [OF c(1)] rc by (intro map_idI) metis
  then have f: "find_or_create_client e cd d = (d, c, 0)" by (simp add: find_or_create_client_def c(1) rc)
  define d2 where "d2 = fst (fold (seed_user e (cl_id c)) (cd_users cd) (d, b))"
  have req: "t_call_requests d2 = t_call_requests d" by (simp add: d2_def seed_users_frame)
  with r have "seed_calls e cd (cl_id c) d2 = d2" by (simp add: seed_calls_def)
  moreover have "snd (fold (seed_user e (cl_id c)) (cd_users cd) (d, b)) = b" using u by (simp add: seed_users_none_created)
  ultimately have sc: "seed_client e cd (d, a, b) = (d2, a, b)"
    by (simp add: seed_client_def f d2_def case_prod_beta)
  show "t_clients (fst (seed_client e cd (d, a, b))) = t_clients d"
    "t_call_requests (fst (seed_client e cd (d, a, b))) = t_call_requests d" "snd (seed_client e cd (d, a, b)) = (a, b)"
    by (simp_all add: sc req) (simp add: d2_def seed_users_frame)
  show "map us_email (t_admin_users (fst (seed_client e cd (d, a, b)))) = map us_email (t_admin_users d)"
    using u by (simp add: sc d2_def seed_users_emails)
qed

text \<open>
  Whatever the database holds, a second run of the seed creates no client, no user and no
  call request: it only resets the passwords.
\<close>

lemma seed_is_idempotent:
  assumes "distinct (map cl_id (t_clients d))" "\<forall>cd \<in> set CLIENTS. se_client_id e (cd_slug cd) \<notin> cl_id ` set (t_clients d)"
    and "se_client_id e ''hotel-grand-india'' \<noteq> se_client_id e ''palace-hotel-uae''"
  shows "t_clients (fst (seed e' (fst (seed e d)))) = t_clients (fst (seed e d))
    \<and> t_call_requests (fst (seed e' (fst (seed e d)))) = t_call_requests (fst (seed e d))
    \<and> map us_email (t_admin_users (fst (seed e' (fst (seed e d))))) = map us_email (t_admin_users (fst (seed e d)))
    \<and> snd (seed e' (fst (seed e d))) = (0, 0)"
proof -
  obtain A B where AB: "CLIENTS = [A, B]" and slugs: "cd_slug A = ''hotel-grand-india''" "cd_slug B = ''palace-hotel-uae''"
    by (simp add: CLIENTS_def)
  let ?run = "\<lambda>e cd d a b. seed_client e cd (d, a, b)"
  define d1 where "d1 = fst (?run e A d 0 0)"
  obtain a b where ab: "?run e A d 0 0 = (d1, a, b)" by (metis d1_def prod.collapse)
  define d2 where "d2 = fst (?run e B d1 a b)"
  have run1: "fst (seed e d) = d2" by (simp add: seed_def AB ab d2_def)
  have A: "distinct (map cl_id (t_clients d1))" "se_client_id e (cd_slug B) \<notin> cl_id ` set (t_clients d1)" "seeded A d1"
    using seed_client_keeps(1,3) [OF assms(1), of e A B 0 0] assms(2,3) seed_client_seeds [of A e d 0 0] slugs
    by (auto simp: AB d1_def)
  have B: "distinct (map cl_id (t_clients d2))" "seeded A d2" "seeded B d2"
    using seed_client_keeps(1,2) [OF A(1,2), of A a b] A(3) seed_client_seeds [of B e d1 a b] slugs by (auto simp: d2_def)
  note again = seed_client_again [OF B(1,2), of e' 0 0]
  define d3 where "d3 = fst (?run e' A d2 0 0)"
  have d3: "?run e' A d2 0 0 = (d3, 0, 0)" using again(4) by (metis d3_def prod.collapse)
  have C: "distinct (map cl_id (t_clients d3))" using B(1) again(1) by (simp add: d3_def)
  have "us_email ` set (t_admin_users d3) = us_email ` set (t_admin_users d2)" using again(3) by (metis d3_def set_map)
  then have D: "seeded B d3" using B(3) again(1,2) unfolding seeded_def d3_def by simp
  have run2: "seed e' d2 = ?run e' B d3 0 0" by (simp add: seed_def AB d3)
  show ?thesis
    unfolding run1 run2 using seed_client_again [OF C D, of e' 0 0] again(1-3) by (simp add: d3_def)
qed

end
