(* ===== verification/CallSession.thy ===== *)
theory CallSession
  imports Sessions
begin

text \<open>
  The prototype of the gateway, kept in the tree beside its successor: \<open>CallSessionManager\<close>
  (\<^verbatim>\<open>services/voice-gateway/call_session.py\<close>), the WebSocket route of \<^verbatim>\<open>services/voice-gateway/main.py\<close>, and
  the Redis functions of \<^verbatim>\<open>app/services/redis_service.py\<close> they share with the legacy application.
\<close>

section \<open>The Redis service\<close>

text \<open>
  What the two writers store under a call's key: the dictionary of \<open>create\<close>, or the booking of a call
  placed through Bland AI. A JSON text is represented by the value it encodes.
\<close>

record session_data =
  sd_call_id :: string
  sd_tenant_id :: string
  sd_agent_id :: string
  sd_started_at :: datetime
  sd_status :: string

record booking_data =
  bd_customer_name :: string
  bd_phone_number :: string
  bd_hotel_name :: string
  bd_check_in_date :: string
  bd_check_out_date :: string
  bd_status :: string

datatype stored_value = SessionData session_data | BookingData booking_data

fun with_status :: "string \<Rightarrow> stored_value \<Rightarrow> stored_value" where
  "with_status st (SessionData d) = SessionData (d\<lparr>sd_status := st\<rparr>)"
| "with_status st (BookingData d) = BookingData (d\<lparr>bd_status := st\<rparr>)"

definition app_save_call_session :: "net \<Rightarrow> datetime \<Rightarrow> string \<Rightarrow> stored_value \<Rightarrow> stored_value store \<Rightarrow> stored_value store" where
  "app_save_call_session n now cid v = redis_write n (redis_set now (session_key cid) v 3600)"

definition app_get_call_session :: "net \<Rightarrow> datetime \<Rightarrow> string \<Rightarrow> stored_value store \<Rightarrow> stored_value option" where
  "app_get_call_session n now cid = redis_read n now (session_key cid)"

definition app_update_call_session ::
  "net \<Rightarrow> net \<Rightarrow> datetime \<Rightarrow> string \<Rightarrow> string \<Rightarrow> stored_value store \<Rightarrow> stored_value store" where
  "app_update_call_session n n' now cid st r =
     (case app_get_call_session n now cid r of
        None \<Rightarrow> r
      | Some v \<Rightarrow> redis_write n' (redis_set now (session_key cid) (with_status st v) 3600) r)"

definition app_delete_call_session :: "net \<Rightarrow> string \<Rightarrow> stored_value store \<Rightarrow> stored_value store" where
  "app_delete_call_session n cid = redis_write n (redis_delete (session_key cid))"

section \<open>The manager\<close>

record call_session =
  cn_call_id :: string
  cn_tenant_id :: string
  cn_agent_id :: string
  cn_started_at :: datetime
  cn_ended_at :: "datetime option"
  cn_metadata :: json_object

definition is_active :: "call_session \<Rightarrow> bool" where
  "is_active s \<longleftrightarrow> cn_ended_at s = None"

definition call_session_end :: "datetime \<Rightarrow> call_session \<Rightarrow> call_session" where
  "call_session_end now s = (if cn_ended_at s = None then s\<lparr>cn_ended_at := Some now\<rparr> else s)"

datatype manager_exc = ValueError string | KeyError string

text \<open>The dictionary \<open>_sessions\<close>, in insertion order, and the shared Redis.\<close>

record call_manager =
  cm_sessions :: "(string \<times> call_session) list"
  cm_store :: "stored_value store"

definition manager_create ::
  "ws_env \<Rightarrow> string \<Rightarrow> string \<Rightarrow> string \<Rightarrow> call_manager \<Rightarrow> call_manager \<times> (manager_exc + call_session)" where
  "manager_create env cid tid aid m =
     (if map_of (cm_sessions m) cid \<noteq> None then (m, Inl (ValueError (''Call session already exists: '' @ cid)))
      else if app_get_call_session (we_get env) (we_now env) cid (cm_store m) \<noteq> None
      then (m, Inl (ValueError (''Call session already exists: '' @ cid)))
      else let s = \<lparr>cn_call_id = cid, cn_tenant_id = tid, cn_agent_id = aid, cn_started_at = we_now env, cn_ended_at = None, cn_metadata = []\<rparr> in
        (m\<lparr>cm_sessions := cm_sessions m @ [(cid, s)],
           cm_store := app_save_call_session (we_set env) (we_now env) cid
             (SessionData \<lparr>sd_call_id = cid, sd_tenant_id = tid, sd_agent_id = aid, sd_started_at = we_now env,
                sd_status = ''active''\<rparr>) (cm_store m)\<rparr>, Inr s))"

text \<open>A session found in Redis is a new object, which is not put into \<open>_sessions\<close>.\<close>

definition manager_get :: "net \<Rightarrow> datetime \<Rightarrow> string \<Rightarrow> call_manager \<Rightarrow> manager_exc + call_session option" where
  "manager_get n now cid m =
     (case map_of (cm_sessions m) cid of
        Some s \<Rightarrow> Inr (Some s)
      | None \<Rightarrow>
          (case app_get_call_session n now cid (cm_store m) of
             None \<Rightarrow> Inr None
           | Some (SessionData d) \<Rightarrow>
               Inr (Some \<lparr>cn_call_id = sd_call_id d, cn_tenant_id = sd_tenant_id d, cn_agent_id = sd_agent_id d,
                          cn_started_at = sd_started_at d, cn_ended_at = None, cn_metadata = []\<rparr>)
           | Some (BookingData _) \<Rightarrow> Inl (KeyError ''call_id'')))"

text \<open>The object listed under a key changes in place.\<close>

definition put_session :: "string \<Rightarrow> call_session \<Rightarrow> (string \<times> call_session) list \<Rightarrow> (string \<times> call_session) list" where
  "put_session cid s = map (\<lambda>e. if fst e = cid then (cid, s) else e)"

definition manager_end :: "ws_env \<Rightarrow> string \<Rightarrow> call_manager \<Rightarrow> call_manager \<times> (manager_exc + call_session)" where
  "manager_end env cid m =
     (case manager_get (we_get env) (we_now env) cid m of
        Inl e \<Rightarrow> (m, Inl e)
      | Inr None \<Rightarrow> (m, Inl (KeyError (''Call session not found: '' @ cid)))
      | Inr (Some s) \<Rightarrow>
          let s' = call_session_end (we_now env) s in
          (m\<lparr>cm_sessions := put_session cid s' (cm_sessions m),
             cm_store := app_update_call_session (we_get env) (we_set env) (we_now env) cid ''ended'' (cm_store m)\<rparr>, Inr s'))"

definition manager_remove :: "net \<Rightarrow> string \<Rightarrow> call_manager \<Rightarrow> call_manager \<times> call_session option" where
  "manager_remove n cid m =
     (m\<lparr>cm_sessions := filter (\<lambda>e. fst e \<noteq> cid) (cm_sessions m), cm_store := app_delete_call_session n cid (cm_store m)\<rparr>,
      map_of (cm_sessions m) cid)"

definition active_count :: "call_manager \<Rightarrow> nat" where
  "active_count m = length (filter (\<lambda>e. is_active (snd e)) (cm_sessions m))"

text \<open>
  \<open>clear\<close>: an exception of \<open>end\<close> passes \<open>finally\<close> and ends the loop.
\<close>

fun clear_sessions :: "(string \<Rightarrow> ws_env) \<Rightarrow> string list \<Rightarrow> call_manager \<Rightarrow> call_manager \<times> manager_exc option" where
  "clear_sessions env [] m = (m, None)"
| "clear_sessions env (cid # ids) m =
     (case manager_end (env cid) cid m of
        (m1, Inl e) \<Rightarrow> (fst (manager_remove (we_del (env cid)) cid m1), Some e)
      | (m1, Inr _) \<Rightarrow> clear_sessions env ids (fst (manager_remove (we_del (env cid)) cid m1)))"

definition manager_clear :: "(string \<Rightarrow> ws_env) \<Rightarrow> call_manager \<Rightarrow> call_manager \<times> manager_exc option" where
  "manager_clear env m = clear_sessions env (map fst (cm_sessions m)) m"

section \<open>The prototype's WebSocket\<close>

text \<open>Up to the pipeline, and the \<open>finally\<close> clause after it.\<close>

definition prototype_open :: "ws_env \<Rightarrow> string \<Rightarrow> call_manager \<Rightarrow> call_manager \<times> (manager_exc + call_session)" where
  "prototype_open env cid = manager_create env cid ''unknown'' ''unknown''"

definition prototype_close :: "ws_env \<Rightarrow> string \<Rightarrow> call_manager \<Rightarrow> call_manager \<times> manager_exc option" where
  "prototype_close env cid m =
     (case manager_get (we_get env) (we_now env) cid m of
        Inl e \<Rightarrow> (m, Some e)
      | Inr None \<Rightarrow> (m, None)
      | Inr (Some _) \<Rightarrow>
          (case manager_end env cid m of
             (m1, Inl e) \<Rightarrow> (m1, Some e)
           | (m1, Inr _) \<Rightarrow> (fst (manager_remove (we_del env) cid m1), None)))"

section \<open>The manager's invariant\<close>

text \<open>Every session is listed once, under its own identifier.\<close>

definition manager_inv :: "call_manager \<Rightarrow> bool" where
  "manager_inv m \<longleftrightarrow> distinct (map fst (cm_sessions m)) \<and> (\<forall>(k, s) \<in> set (cm_sessions m). cn_call_id s = k)"

lemma call_session_end_simps [simp]:
  "cn_call_id (call_session_end now s) = cn_call_id s" "\<not> is_active (call_session_end now s)"
  by (simp_all add: call_session_end_def is_active_def)

lemma put_session_simps [simp]:
  "map fst (put_session cid s xs) = map fst xs"
  "map_of (put_session cid s xs) cid = map_option (\<lambda>_. s) (map_of xs cid)"
  by (induction xs) (auto simp: put_session_def)

lemma set_put_sessionD: "e \<in> set (put_session cid s xs) \<Longrightarrow> e \<in> set xs \<or> e = (cid, s) \<and> cid \<in> fst ` set xs"
  by (auto simp: put_session_def split: if_splits)

lemma create_inv: "manager_inv m \<Longrightarrow> manager_inv (fst (manager_create env cid tid aid m))"
  by (auto simp: manager_inv_def manager_create_def Let_def map_of_eq_None_iff)

lemma end_inv:
  assumes "manager_inv m"
  shows "manager_inv (fst (manager_end env cid m))"
proof -
  have "cn_call_id s = cid" if "cid \<in> fst ` set (cm_sessions m)" "manager_get n now cid m = Inr (Some s)" for s n now
  proof -
    from that(1) have "map_of (cm_sessions m) cid \<noteq> None" by (simp add: map_of_eq_None_iff)
    then obtain u where u: "map_of (cm_sessions m) cid = Some u" by blast
    with that(2) have "s = u" by (simp add: manager_get_def)
    with assms map_of_SomeD [OF u] show ?thesis by (auto simp: manager_inv_def)
  qed
  with assms show ?thesis
    unfolding manager_inv_def manager_end_def
    by (fastforce simp: Let_def dest!: set_put_sessionD split: sum.splits option.splits)
qed

lemma remove_inv: "manager_inv m \<Longrightarrow> manager_inv (fst (manager_remove n cid m))"
  by (auto simp: manager_inv_def manager_remove_def distinct_map_filter)

section \<open>Ending and clearing\<close>

lemma end_in_memory:
  assumes "map_of (cm_sessions m) cid = Some s"
  shows "snd (manager_end env cid m) = Inr (call_session_end (we_now env) s)"
    and "map_of (cm_sessions (fst (manager_end env cid m))) cid = Some (call_session_end (we_now env) s)"
    and "map fst (cm_sessions (fst (manager_end env cid m))) = map fst (cm_sessions m)"
proof -
  have g: "manager_get (we_get env) (we_now env) cid m = Inr (Some s)" using assms by (simp add: manager_get_def)
  with assms show "snd (manager_end env cid m) = Inr (call_session_end (we_now env) s)"
    "map_of (cm_sessions (fst (manager_end env cid m))) cid = Some (call_session_end (we_now env) s)"
    "map fst (cm_sessions (fst (manager_end env cid m))) = map fst (cm_sessions m)"
    by (simp_all add: manager_end_def Let_def)
qed

lemma clear_sessions_done:
  assumes "set ids \<subseteq> fst ` set (cm_sessions m)" "distinct ids"
  shows "snd (clear_sessions env ids m) = None
    \<and> map fst (cm_sessions (fst (clear_sessions env ids m))) = filter (\<lambda>k. k \<notin> set ids) (map fst (cm_sessions m))"
  using assms
proof (induction ids arbitrary: m)
  case (Cons cid ids)
  then obtain s where s: "map_of (cm_sessions m) cid = Some s" by (force simp: map_of_eq_None_iff)
  define m1 where "m1 = fst (manager_end (env cid) cid m)"
  define m2 where "m2 = fst (manager_remove (we_del (env cid)) cid m1)"
  obtain r where r: "manager_end (env cid) cid m = (m1, Inr r)"
    using end_in_memory(1) [OF s, of "env cid"] unfolding m1_def by (metis prod.collapse)
  have k1: "map fst (cm_sessions m1) = map fst (cm_sessions m)" using end_in_memory(3) [OF s, of "env cid"] r by simp
  then have k2: "map fst (cm_sessions m2) = filter (\<lambda>k. k \<noteq> cid) (map fst (cm_sessions m))"
    by (simp add: m2_def manager_remove_def filter_map comp_def flip: k1)
  then have "fst ` set (cm_sessions m2) = fst ` set (cm_sessions m) - {cid}" by (simp flip: set_map) auto
  then have "set ids \<subseteq> fst ` set (cm_sessions m2)" using Cons.prems by auto
  with Cons have "snd (clear_sessions env ids m2) = None
    \<and> map fst (cm_sessions (fst (clear_sessions env ids m2))) = filter (\<lambda>k. k \<notin> set ids) (map fst (cm_sessions m2))"
    by simp
  then show ?case by (simp add: r m2_def [symmetric] k2 conj_commute)
qed simp

text \<open>\<open>clear\<close> ends every tracked session, whatever happens to its Redis commands.\<close>

lemma clear_leaves_nothing:
  assumes "manager_inv m"
  shows "cm_sessions (fst (manager_clear env m)) = [] \<and> snd (manager_clear env m) = None \<and> active_count (fst (manager_clear env m)) = 0"
  using clear_sessions_done [of "map fst (cm_sessions m)" m env] assms
  by (simp add: manager_inv_def manager_clear_def active_count_def)

section \<open>Restoring from Redis\<close>

text \<open>
  A process that does not know a session reads it from Redis. The identity and the start come
  back; that the call has ended does not, because \<open>get\<close> ignores the stored status.
\<close>

lemma restored_session_is_active:
  assumes "we_get env = Delivered" "we_set env = Delivered" "we_set env' = Delivered" "we_get env' = Delivered"
    and "we_now env \<le> we_now env'" "we_now env' < we_now env + seconds 3600" "now < we_now env' + seconds 3600"
    and "manager_create env cid tid aid m = (m1, Inr s)" "manager_end env' cid m1 = (m2, Inr s')"
  shows "\<not> is_active s' \<and> manager_get Delivered now cid (m2\<lparr>cm_sessions := []\<rparr>) = Inr (Some s) \<and> is_active s"
proof -
  have m: "map_of (cm_sessions m) cid = None" using assms(8) by (auto simp: manager_create_def split: if_splits)
  have s: "s = \<lparr>cn_call_id = cid, cn_tenant_id = tid, cn_agent_id = aid, cn_started_at = we_now env, cn_ended_at = None, cn_metadata = []\<rparr>"
    and m1: "cm_sessions m1 = cm_sessions m @ [(cid, s)]"
    and st: "cm_store m1 (session_key cid) = Some (SessionData \<lparr>sd_call_id = cid, sd_tenant_id = tid, sd_agent_id = aid,
        sd_started_at = we_now env, sd_status = ''active''\<rparr>, we_now env + seconds 3600)"
    using assms(2,8)
    by (auto simp: manager_create_def Let_def app_save_call_session_def redis_write_def redis_set_def split: if_splits)
  have g: "manager_get Delivered (we_now env') cid m1 = Inr (Some s)" using m m1 by (simp add: manager_get_def map_add_def)
  then have "s' = call_session_end (we_now env') s" and "cm_store m2 (session_key cid) = Some (SessionData \<lparr>sd_call_id = cid,
      sd_tenant_id = tid, sd_agent_id = aid, sd_started_at = we_now env, sd_status = ''ended''\<rparr>, we_now env' + seconds 3600)"
    using assms(3,4,6,9) st
    by (auto simp: manager_end_def Let_def app_update_call_session_def app_get_call_session_def redis_read_def redis_get_def
        redis_write_def redis_set_def)
  then show ?thesis
    using s assms(7) by (simp add: manager_get_def app_get_call_session_def redis_read_def redis_get_def is_active_def call_session_end_def)
qed

text \<open>A call identifier a booking uses cannot become a session: looking it up is an error.\<close>

lemma booking_is_no_session:
  assumes "map_of (cm_sessions m) cid = None" "cm_store m (session_key cid) = Some (BookingData b, e)" "now < e"
    and "we_get env = Delivered" "we_now env = now"
  shows "manager_get Delivered now cid m = Inl (KeyError ''call_id'')
    \<and> manager_create env cid tid aid m = (m, Inl (ValueError (''Call session already exists: '' @ cid)))"
  using assms by (simp add: manager_get_def manager_create_def app_get_call_session_def redis_read_def redis_get_def)

end
