(* ===== verification/LegacyApp.thy ===== *)
theory LegacyApp
  imports CallSession Auth Startup
begin

text \<open>
  The former single-process application under \<^verbatim>\<open>app/\<close> and its entry point \<^verbatim>\<open>main.py\<close>: two ways to issue
  tokens, one route that books a call with Bland AI, and health checks.

  The two JWT libraries (\<open>jose\<close> and \<open>PyJWT\<close>), \<open>bcrypt\<close> and the HTTP request to Bland are arguments. A
  payload is a JSON object; times inside it are whole seconds.
\<close>

section \<open>Settings and tokens\<close>

record legacy_config =
  lc_secret :: string
  lc_expire_minutes :: int
  lc_username :: string
  lc_password :: string

record 't legacy_jwt =
  jose_encode :: "string \<Rightarrow> json_object \<Rightarrow> 't"
  jose_decode :: "string \<Rightarrow> datetime \<Rightarrow> 't \<Rightarrow> json_object option"
  pyjwt_encode :: "string \<Rightarrow> json_object \<Rightarrow> 't"
  pyjwt_decode :: "string \<Rightarrow> datetime \<Rightarrow> 't \<Rightarrow> json_object option"

text \<open>
  The documented behaviour, for payloads whose registered claims have the right types: both libraries
  read what either has signed with the same key; \<open>jose\<close> compares \<open>exp\<close> with the whole second, \<open>PyJWT\<close>
  with the exact time, and it refuses a token from the future.
\<close>

definition registered_claims_ok :: "int \<Rightarrow> json_object \<Rightarrow> bool" where
  "registered_claims_ok e c \<longleftrightarrow>
     dict_get c ''exp'' = Some (JInt e)
     \<and> (case dict_get c ''iat'' of None \<Rightarrow> True | Some v \<Rightarrow> (\<exists>i. v = JInt i))
     \<and> (case dict_get c ''sub'' of None \<Rightarrow> True | Some v \<Rightarrow> (\<exists>s. v = JStr s))"

definition issued_by :: "datetime \<Rightarrow> json_object \<Rightarrow> bool" where
  "issued_by now c = (case dict_get c ''iat'' of Some (JInt i) \<Rightarrow> seconds i \<le> now | _ \<Rightarrow> True)"

definition legacy_jwt_ok :: "'t legacy_jwt \<Rightarrow> bool" where
  "legacy_jwt_ok j \<longleftrightarrow>
     (\<forall>key c e now. registered_claims_ok e c \<longrightarrow>
        (\<forall>enc \<in> {jose_encode j, pyjwt_encode j}.
           jose_decode j key now (enc key c) = (if whole_seconds now \<le> e then Some c else None)
           \<and> pyjwt_decode j key now (enc key c) = (if now < seconds e \<and> issued_by now c then Some c else None)))"

subsection \<open>app/auth\<close>

definition jwt_create_access_token :: "'t legacy_jwt \<Rightarrow> legacy_config \<Rightarrow> datetime \<Rightarrow> string \<Rightarrow> 't" where
  "jwt_create_access_token j cfg now subject =
     jose_encode j (lc_secret cfg)
       [(''sub'', JStr subject), (''exp'', JInt (whole_seconds (now + seconds (60 * lc_expire_minutes cfg))))]"

definition jwt_get_current_user :: "'t legacy_jwt \<Rightarrow> legacy_config \<Rightarrow> datetime \<Rightarrow> 't option \<Rightarrow> json_object http" where
  "jwt_get_current_user j cfg now credentials =
     (case credentials of
        None \<Rightarrow> Inl (HTTPException 401 ''Bearer token required'')
      | Some token \<Rightarrow>
          (case jose_decode j (lc_secret cfg) now token of
             None \<Rightarrow> Inl (HTTPException 401 ''Invalid or expired token'')
           | Some payload \<Rightarrow> Inr payload))"

record 't env_token_response =
  et_access_token :: 't
  et_token_type :: string
  et_expires_in :: int

definition env_login :: "'t legacy_jwt \<Rightarrow> legacy_config \<Rightarrow> datetime \<Rightarrow> string \<Rightarrow> string \<Rightarrow> 't env_token_response http" where
  "env_login j cfg now username password =
     (if lc_username cfg = [] \<or> lc_password cfg = []
      then Inl (HTTPException 503 ''Authentication not configured on this server'')
      else if username \<noteq> lc_username cfg \<or> password \<noteq> lc_password cfg
      then Inl (HTTPException 401 ''Invalid credentials'')
      else Inr \<lparr>et_access_token = jwt_create_access_token j cfg now username, et_token_type = ''bearer'',
                et_expires_in = lc_expire_minutes cfg * 60\<rparr>)"

subsection \<open>app/core\<close>

definition REQUIRED_CLAIMS :: "string list" where
  "REQUIRED_CLAIMS = [''user_id'', ''tenant_id'', ''role'', ''exp'']"

text \<open>\<open>checkpw\<close> raises on a malformed hash, and nothing here catches it.\<close>

definition core_hash_password :: "bcrypt_lib \<Rightarrow> string \<Rightarrow> string \<Rightarrow> string" where
  "core_hash_password b salt password = bc_hashpw b password salt"

definition core_verify_password :: "bcrypt_lib \<Rightarrow> string \<Rightarrow> string \<Rightarrow> bool http" where
  "core_verify_password b plain hashed =
     (case bc_checkpw b plain hashed of None \<Rightarrow> Inl (Unhandled ''ValueError'') | Some r \<Rightarrow> Inr r)"

lemma core_password_roundtrip:
  "bcrypt_ok b \<Longrightarrow> core_verify_password b password (core_hash_password b salt password) = Inr True"
  by (simp add: bcrypt_ok_def core_verify_password_def core_hash_password_def)

definition core_create_access_token ::
  "'t legacy_jwt \<Rightarrow> legacy_config \<Rightarrow> datetime \<Rightarrow> int \<Rightarrow> string \<Rightarrow> string \<Rightarrow> ('t \<times> datetime) http" where
  "core_create_access_token j cfg now user_id tenant_id role =
     (if lc_secret cfg = [] then Inl (Unhandled ''RuntimeError'')
      else let expire = now + seconds (60 * lc_expire_minutes cfg) in
        Inr (pyjwt_encode j (lc_secret cfg)
               [(''user_id'', JStr (int_str user_id)), (''tenant_id'', JStr tenant_id), (''role'', JStr role),
                (''iat'', JInt (whole_seconds now)), (''exp'', JInt (whole_seconds expire))], expire))"

datatype core_exc = InvalidTokenError | RuntimeError

definition decode_access_token :: "'t legacy_jwt \<Rightarrow> legacy_config \<Rightarrow> datetime \<Rightarrow> 't \<Rightarrow> core_exc + json_object" where
  "decode_access_token j cfg now token =
     (if lc_secret cfg = [] then Inl RuntimeError
      else case pyjwt_decode j (lc_secret cfg) now token of
             None \<Rightarrow> Inl InvalidTokenError
           | Some payload \<Rightarrow>
               if \<exists>claim \<in> set REQUIRED_CLAIMS. dict_get payload claim = None then Inl InvalidTokenError else Inr payload)"

record authenticated_user =
  aq_user_id :: string
  aq_tenant_id :: string
  aq_role :: string

text \<open>\<open>AuthenticatedUser\<close> takes strings only.\<close>

definition authenticated_user_of :: "json_object \<Rightarrow> authenticated_user http" where
  "authenticated_user_of payload =
     (case (dict_get payload ''user_id'', dict_get payload ''tenant_id'', dict_get payload ''role'') of
        (Some (JStr u), Some (JStr t), Some (JStr r)) \<Rightarrow> Inr \<lparr>aq_user_id = u, aq_tenant_id = t, aq_role = r\<rparr>
      | _ \<Rightarrow> Inl (Unhandled ''ValidationError''))"

definition core_get_current_user ::
  "'t legacy_jwt \<Rightarrow> legacy_config \<Rightarrow> datetime \<Rightarrow> 't option \<Rightarrow> authenticated_user http" where
  "core_get_current_user j cfg now credentials =
     (case credentials of
        None \<Rightarrow> Inl (HTTPException 401 ''Not authenticated'')
      | Some token \<Rightarrow>
          (case decode_access_token j cfg now token of
             Inl InvalidTokenError \<Rightarrow> Inl (HTTPException 401 ''Not authenticated'')
           | Inl RuntimeError \<Rightarrow> Inl (Unhandled ''RuntimeError'')
           | Inr payload \<Rightarrow> authenticated_user_of payload))"

section \<open>Accounts\<close>

record legacy_user =
  lu_id :: int
  lu_tenant_id :: string
  lu_email :: string
  lu_hashed_password :: string
  lu_role :: string
  lu_is_active :: bool

text \<open>
  The service is written for SQLAlchemy's \<open>Session\<close>; the dependency \<open>get_db\<close> provides an \<open>AsyncSession\<close>,
  which has no attribute \<^verbatim>\<open>query\<close>.
\<close>

datatype orm_session = Sync_session "legacy_user list" | Async_session "legacy_user list"

definition app_get_db :: "legacy_user list \<Rightarrow> orm_session" where
  "app_get_db users = Async_session users"

definition authenticate_user :: "bcrypt_lib \<Rightarrow> orm_session \<Rightarrow> string \<Rightarrow> string \<Rightarrow> legacy_user option http" where
  "authenticate_user b db email password =
     (case db of
        Async_session _ \<Rightarrow> Inl (Unhandled ''AttributeError'')
      | Sync_session users \<Rightarrow>
          (case List.find (\<lambda>u. lu_email u = email \<and> lu_is_active u) users of
             None \<Rightarrow> Inr None
           | Some u \<Rightarrow>
               (case core_verify_password b password (lu_hashed_password u) of
                  Inl e \<Rightarrow> Inl e
                | Inr ok \<Rightarrow> Inr (if ok then Some u else None))))"

definition service_login ::
  "'t legacy_jwt \<Rightarrow> bcrypt_lib \<Rightarrow> legacy_config \<Rightarrow> datetime \<Rightarrow> orm_session \<Rightarrow> string \<Rightarrow> string \<Rightarrow> ('t \<times> datetime) option http" where
  "service_login j b cfg now db email password =
     (case authenticate_user b db email password of
        Inl e \<Rightarrow> Inl e
      | Inr None \<Rightarrow> Inr None
      | Inr (Some u) \<Rightarrow>
          (case core_create_access_token j cfg now (lu_id u) (lu_tenant_id u) (lu_role u) of
             Inl e \<Rightarrow> Inl e | Inr r \<Rightarrow> Inr (Some r)))"

definition route_login ::
  "'t legacy_jwt \<Rightarrow> bcrypt_lib \<Rightarrow> legacy_config \<Rightarrow> datetime \<Rightarrow> orm_session \<Rightarrow> string \<Rightarrow> string \<Rightarrow> ('t \<times> datetime) http" where
  "route_login j b cfg now db email password =
     (case service_login j b cfg now db email password of
        Inl e \<Rightarrow> Inl e
      | Inr None \<Rightarrow> Inl (HTTPException 401 ''Invalid email or password'')
      | Inr (Some r) \<Rightarrow> Inr r)"

definition route_me :: "'t legacy_jwt \<Rightarrow> legacy_config \<Rightarrow> datetime \<Rightarrow> 't option \<Rightarrow> authenticated_user http" where
  "route_me = core_get_current_user"

section \<open>Start-up\<close>

text \<open>\<open>create_all\<close> at every start: the tables of the two models that are not there yet, without rows.\<close>

definition legacy_tables :: "string list" where
  "legacy_tables = [''users'', ''call_requests'']"

definition create_all :: "string list \<Rightarrow> (string \<rightharpoonup> 'r list) \<Rightarrow> (string \<rightharpoonup> 'r list)" where
  "create_all tables d = foldl (\<lambda>d t. if d t = None then d(t \<mapsto> []) else d) d tables"

definition app_lifespan :: "(string \<rightharpoonup> 'r list) \<Rightarrow> (string \<rightharpoonup> 'r list)" where
  "app_lifespan d = create_all legacy_tables d"

lemma create_all_at: "create_all ts d t = (if t \<in> set ts \<and> d t = None then Some [] else d t)"
  by (induction ts arbitrary: d) (auto simp: create_all_def)

text \<open>A restart keeps every row and, after the first start, changes nothing.\<close>

lemma app_restart:
  "d t = Some rows \<Longrightarrow> app_lifespan d t = Some rows" "app_lifespan (app_lifespan d) = app_lifespan d"
  by (auto simp: app_lifespan_def create_all_at fun_eq_iff)

section \<open>Booking a call\<close>

record booking_request =
  bq_customer_name :: string
  bq_phone_number :: string
  bq_hotel_name :: string
  bq_check_in_date :: string
  bq_check_out_date :: string

record legacy_caller =
  lq_id :: int
  lq_customer_name :: string
  lq_phone_number :: string
  lq_hotel_name :: string
  lq_check_in_date :: string
  lq_check_out_date :: string

definition save_call :: "int \<Rightarrow> booking_request \<Rightarrow> legacy_caller list \<Rightarrow> legacy_caller list" where
  "save_call new_id r rows =
     rows @ [\<lparr>lq_id = new_id, lq_customer_name = bq_customer_name r, lq_phone_number = bq_phone_number r,
              lq_hotel_name = bq_hotel_name r, lq_check_in_date = bq_check_in_date r, lq_check_out_date = bq_check_out_date r\<rparr>]"

definition unlines :: "string list \<Rightarrow> string" where
  "unlines ls = concat (map (\<lambda>l. l @ [CHR 10]) ls)"

definition bland_task :: "booking_request \<Rightarrow> string" where
  "bland_task r = unlines
     ['''', ''You are a polite hotel receptionist from Staykaro.'', '''',
      ''Call the customer named '' @ bq_customer_name r @ ''.'', '''',
      ''Tell them they have a reservation at '' @ bq_hotel_name r @ ''.'', '''',
      ''Their check-in date is '' @ bq_check_in_date r @ ''.'', '''',
      ''Their check-out date is '' @ bq_check_out_date r @ ''.'', '''',
      ''Introduce yourself politely.'', '''',
      ''Ask whether they are still planning to stay.'', '''',
      ''If they confirm, thank them and say their booking is confirmed.'', '''',
      ''If they ask questions about dates, answer correctly using the booking information.'', '''',
      ''If they want to cancel or change the booking, politely tell them a hotel executive will contact them shortly.'', '''',
      ''Keep the conversation friendly and professional.'']"

definition bland_payload :: "booking_request \<Rightarrow> json_object" where
  "bland_payload r = [(''phone_number'', JStr (bq_phone_number r)), (''task'', JStr (bland_task r))]"

text \<open>
  What the request comes to, in the order of the \<open>except\<close> clauses: a timeout, another
  \<open>RequestException\<close> (an error status and, in current versions of \<open>requests\<close>, an undecodable body),
  a \<open>ValueError\<close>, or a JSON body.
\<close>

datatype bland_outcome = Bland_timeout | Bland_request_exception string | Bland_value_error | Bland_answer json

definition booking_of :: "booking_request \<Rightarrow> stored_value" where
  "booking_of r = BookingData
     \<lparr>bd_customer_name = bq_customer_name r, bd_phone_number = bq_phone_number r, bd_hotel_name = bq_hotel_name r,
      bd_check_in_date = bq_check_in_date r, bd_check_out_date = bq_check_out_date r, bd_status = ''initiated''\<rparr>"

definition bland_error :: "string \<Rightarrow> json_object" where
  "bland_error m = [(''status'', JStr ''error''), (''message'', JStr m)]"

definition trigger_bland_call ::
  "(json \<Rightarrow> string) \<Rightarrow> (json_object \<Rightarrow> bland_outcome) \<Rightarrow> net \<Rightarrow> datetime \<Rightarrow> booking_request \<Rightarrow> stored_value store
     \<Rightarrow> stored_value store \<times> json_object http" where
  "trigger_bland_call py_repr post n now r st =
     (case post (bland_payload r) of
        Bland_timeout \<Rightarrow> (st, Inr (bland_error ''Bland AI request timed out''))
      | Bland_request_exception m \<Rightarrow> (st, Inr (bland_error m))
      | Bland_value_error \<Rightarrow> (st, Inr (bland_error ''Invalid response from Bland AI''))
      | Bland_answer body \<Rightarrow>
          (case json_get body ''call_id'' of
             None \<Rightarrow> (st, Inl (Unhandled ''AttributeError''))
           | Some the_id \<Rightarrow>
               if \<not> json_truthy the_id
               then (st, Inr (bland_error ''Bland AI did not return call_id'' @ [(''bland_response'', body)]))
               else (app_save_call_session n now (py_str py_repr the_id) (booking_of r) st,
                     Inr (case body of JObj kvs \<Rightarrow> kvs | _ \<Rightarrow> []))))"

record booking_response =
  br_status :: string
  br_database :: string
  br_bland :: json_object
  br_redis_session :: "stored_value option"

text \<open>The dependencies first, then the row, then the provider, then the reply.\<close>

definition book_call ::
  "'t legacy_jwt \<Rightarrow> legacy_config \<Rightarrow> (json \<Rightarrow> string) \<Rightarrow> (json_object \<Rightarrow> bland_outcome) \<Rightarrow> ws_env \<Rightarrow> int \<Rightarrow> 't option
     \<Rightarrow> booking_request \<Rightarrow> legacy_caller list \<times> stored_value store
     \<Rightarrow> (legacy_caller list \<times> stored_value store) \<times> booking_response http" where
  "book_call j cfg py_repr post env new_id credentials r s =
     (case jwt_get_current_user j cfg (we_now env) credentials of
        Inl e \<Rightarrow> (s, Inl e)
      | Inr _ \<Rightarrow>
          let rows = save_call new_id r (fst s) in
          (case trigger_bland_call py_repr post (we_set env) (we_now env) r (snd s) of
             (st, Inl e) \<Rightarrow> ((rows, st), Inl e)
           | (st, Inr bland) \<Rightarrow>
               let the_id = dict_get bland ''call_id'';
                   session = (case the_id of
                       None \<Rightarrow> None
                     | Some v \<Rightarrow> if json_truthy v then app_get_call_session (we_get env) (we_now env) (py_str py_repr v) st else None)
               in ((rows, st),
                   Inr \<lparr>br_status = (if dict_get bland ''status'' = Some (JStr ''error'') then ''failed'' else ''success''),
                        br_database = ''Saved'', br_bland = bland, br_redis_session = session\<rparr>)))"

definition home_message :: json_object where
  "home_message = [(''message'', JStr ''Welcome to Staykaro AI Caller Backend!'')]"

section \<open>Health\<close>

datatype probe = Answers | Library_error | Other_error string

definition app_health :: json_object where
  "app_health = [(''status'', JStr ''ok'')]"

text \<open>
  Only \<open>SQLAlchemyError\<close> and \<open>RedisError\<close> are caught; another exception of the driver, such as a
  refused connection, is not.
\<close>

definition readiness :: "probe \<Rightarrow> probe \<Rightarrow> (nat \<times> json_object) http" where
  "readiness postgres redis =
     (case postgres of Other_error e \<Rightarrow> Inl (Unhandled e) | _ \<Rightarrow>
      case redis of Other_error e \<Rightarrow> Inl (Unhandled e) | _ \<Rightarrow>
      let check = (\<lambda>p. JStr (if p = Answers then ''ok'' else ''error''));
          checks = JObj [(''postgresql'', check postgres), (''redis'', check redis)]
      in if postgres \<noteq> Answers \<or> redis \<noteq> Answers
         then Inr (503, [(''status'', JStr ''not_ready''), (''checks'', checks)])
         else Inr (200, [(''status'', JStr ''ready''), (''checks'', checks)]))"

lemma ready_iff: "(\<exists>b. readiness p r = Inr (200, b)) \<longleftrightarrow> p = Answers \<and> r = Answers"
  by (cases p; cases r) (auto simp: readiness_def Let_def)

section \<open>Tokens\<close>

lemma issued_claims_ok:
  "registered_claims_ok e [(''user_id'', u), (''tenant_id'', t), (''role'', r), (''iat'', JInt i), (''exp'', JInt e)]"
  "registered_claims_ok e [(''sub'', JStr s), (''exp'', JInt e)]"
  by (simp_all add: registered_claims_ok_def dict_get_def)

lemma decode_issued:
  assumes "legacy_jwt_ok j" "registered_claims_ok e c"
  shows "jose_decode j key now (pyjwt_encode j key c) = (if whole_seconds now \<le> e then Some c else None)"
    "pyjwt_decode j key now (pyjwt_encode j key c) = (if now < seconds e \<and> issued_by now c then Some c else None)"
    "jose_decode j key now (jose_encode j key c) = (if whole_seconds now \<le> e then Some c else None)"
  using assms unfolding legacy_jwt_ok_def by blast+

text \<open>
  With a \<open>Session\<close>, as in its tests, the login gives out a token that identifies the stored user until
  it expires; the request cannot choose tenant or role.
\<close>

lemma login_token_identifies_user:
  assumes "legacy_jwt_ok j" "route_login j b cfg now (Sync_session users) email password = Inr (token, expire)"
    and "now \<le> later" "later < seconds (whole_seconds expire)"
  shows "\<exists>u \<in> set users. lu_email u = email \<and> lu_is_active u \<and> bc_checkpw b password (lu_hashed_password u) = Some True
    \<and> route_me j cfg later (Some token) = Inr \<lparr>aq_user_id = int_str (lu_id u), aq_tenant_id = lu_tenant_id u, aq_role = lu_role u\<rparr>"
proof -
  obtain u where u: "List.find (\<lambda>u. lu_email u = email \<and> lu_is_active u) users = Some u"
    and pw: "bc_checkpw b password (lu_hashed_password u) = Some True"
    and tok: "core_create_access_token j cfg now (lu_id u) (lu_tenant_id u) (lu_role u) = Inr (token, expire)"
    using assms(2)
    by (auto simp: route_login_def service_login_def authenticate_user_def core_verify_password_def
        split: sum.splits option.splits if_splits)
  let ?c = "[(''user_id'', JStr (int_str (lu_id u))), (''tenant_id'', JStr (lu_tenant_id u)), (''role'', JStr (lu_role u)),
    (''iat'', JInt (whole_seconds now)), (''exp'', JInt (whole_seconds expire))]"
  have t: "lc_secret cfg \<noteq> []" "token = pyjwt_encode j (lc_secret cfg) ?c"
    using tok by (auto simp: core_create_access_token_def Let_def split: if_splits)
  have "issued_by later ?c"
    using assms(3) by (simp add: issued_by_def dict_get_def whole_seconds_def seconds_def)
  then have "pyjwt_decode j (lc_secret cfg) later token = Some ?c"
    using decode_issued(2) [OF assms(1) issued_claims_ok(1)] assms(4) t(2) by simp
  then have "route_me j cfg later (Some token)
      = Inr \<lparr>aq_user_id = int_str (lu_id u), aq_tenant_id = lu_tenant_id u, aq_role = lu_role u\<rparr>"
    using t(1)
    by (simp add: route_me_def core_get_current_user_def decode_access_token_def REQUIRED_CLAIMS_def
        authenticated_user_of_def dict_get_def)
  with u pw show ?thesis by (auto simp: find_Some_iff)
qed

text \<open>The legacy login route never logs anyone in: its dependency provides an \<open>AsyncSession\<close>, and the
  service calls \<^verbatim>\<open>query\<close> on it, which it does not have. Every request, with right or wrong
  credentials, is answered with status 500.\<close>

lemma legacy_login_never_succeeds:
  "\<exists>e. route_login j b cfg now (app_get_db users) email password = Inl e \<and> status_code e = 500"
  by (simp add: route_login_def service_login_def authenticate_user_def app_get_db_def)

section \<open>The booking route\<close>

text \<open>Booking a call. Without a valid token nothing is stored. With one, the booking is stored first and
  stays stored whatever the provider does. When the provider answers with an identifier and Redis is
  reachable, the reply is a success and carries the session that is now in Redis; when it times out the
  reply says that the call failed but the booking is saved.\<close>

lemma booking_is_saved_before_call:
  assumes "legacy_jwt_ok j" "registered_claims_ok e c" "token = jose_encode j (lc_secret cfg) c"
    and "whole_seconds (we_now env) \<le> e"
  shows "book_call j cfg py_repr post env new_id None r s = (s, Inl (HTTPException 401 ''Bearer token required''))
    \<and> fst (fst (book_call j cfg py_repr post env new_id (Some token) r s)) = save_call new_id r (fst s)
    \<and> (post (bland_payload r) = Bland_timeout \<longrightarrow>
         snd (book_call j cfg py_repr post env new_id (Some token) r s)
           = Inr \<lparr>br_status = ''failed'', br_database = ''Saved'',
                  br_bland = bland_error ''Bland AI request timed out'', br_redis_session = None\<rparr>)
    \<and> (\<forall>kvs cid. post (bland_payload r) = Bland_answer (JObj kvs) \<longrightarrow> dict_get kvs ''call_id'' = Some (JStr cid)
         \<longrightarrow> cid \<noteq> [] \<longrightarrow> dict_get kvs ''status'' \<noteq> Some (JStr ''error'') \<longrightarrow> we_set env = Delivered \<longrightarrow> we_get env = Delivered
         \<longrightarrow> snd (book_call j cfg py_repr post env new_id (Some token) r s)
             = Inr \<lparr>br_status = ''success'', br_database = ''Saved'', br_bland = kvs, br_redis_session = Some (booking_of r)\<rparr>)"
proof -
  have user: "jwt_get_current_user j cfg (we_now env) (Some token) = Inr c"
    using decode_issued(3) [OF assms(1,2)] assms(3,4) by (simp add: jwt_get_current_user_def)
  have saved: "app_get_call_session Delivered now cid (app_save_call_session Delivered now cid v st) = Some v" for now cid v st
    by (simp add: app_get_call_session_def app_save_call_session_def redis_read_def redis_write_def redis_get_def redis_set_def)
  have "book_call j cfg py_repr post env new_id None r s = (s, Inl (HTTPException 401 ''Bearer token required''))"
    by (simp add: book_call_def jwt_get_current_user_def)
  moreover have "fst (fst (book_call j cfg py_repr post env new_id (Some token) r s)) = save_call new_id r (fst s)"
    by (simp add: book_call_def user Let_def split: prod.splits sum.splits)
  moreover have "snd (book_call j cfg py_repr post env new_id (Some token) r s)
      = Inr \<lparr>br_status = ''failed'', br_database = ''Saved'',
             br_bland = bland_error ''Bland AI request timed out'', br_redis_session = None\<rparr>"
    if "post (bland_payload r) = Bland_timeout"
    using that by (simp add: book_call_def user trigger_bland_call_def bland_error_def dict_get_def)
  moreover have "snd (book_call j cfg py_repr post env new_id (Some token) r s)
      = Inr \<lparr>br_status = ''success'', br_database = ''Saved'', br_bland = kvs, br_redis_session = Some (booking_of r)\<rparr>"
    if "post (bland_payload r) = Bland_answer (JObj kvs)" "dict_get kvs ''call_id'' = Some (JStr cid)" "cid \<noteq> []"
      "dict_get kvs ''status'' \<noteq> Some (JStr ''error'')" "we_set env = Delivered" "we_get env = Delivered" for kvs cid
    using that by (simp add: book_call_def user trigger_bland_call_def saved)
  ultimately show ?thesis by blast
qed

text \<open>A library that satisfies the assumptions, with tokens that are their payloads.\<close>

definition demo_legacy_jwt :: "(string \<times> json_object) legacy_jwt" where
  "demo_legacy_jwt =
     (let jose = (\<lambda>key now t. case dict_get (snd t) ''exp'' of
             Some (JInt e) \<Rightarrow> if fst t = key \<and> whole_seconds now \<le> e then Some (snd t) else None | _ \<Rightarrow> None);
          py = (\<lambda>key now t. case dict_get (snd t) ''exp'' of
             Some (JInt e) \<Rightarrow> if fst t = key \<and> now < seconds e \<and> issued_by now (snd t) then Some (snd t) else None | _ \<Rightarrow> None)
      in \<lparr>jose_encode = Pair, jose_decode = jose, pyjwt_encode = Pair, pyjwt_decode = py\<rparr>)"

lemma demo_legacy_jwt_ok: "legacy_jwt_ok demo_legacy_jwt"
  by (simp add: legacy_jwt_ok_def demo_legacy_jwt_def registered_claims_ok_def)

definition demo_booking :: booking_request where
  "demo_booking = \<lparr>bq_customer_name = ''Asha'', bq_phone_number = ''+919000000001'', bq_hotel_name = ''Grand'',
     bq_check_in_date = ''2026-09-01'', bq_check_out_date = ''2026-09-03''\<rparr>"

lemma booking_is_saved_before_call_example:
  "snd (book_call demo_legacy_jwt \<lparr>lc_secret = ''k'', lc_expire_minutes = 30, lc_username = ''u'', lc_password = ''p''\<rparr> (\<lambda>_. [])
      (\<lambda>_. Bland_answer (JObj [(''call_id'', JStr ''b1'')])) \<lparr>we_now = 0, we_get = Delivered, we_set = Delivered, we_del = Delivered\<rparr>
      7 (Some (''k'', [(''sub'', JStr ''u''), (''exp'', JInt 60)])) demo_booking ([], Map.empty))
    = Inr \<lparr>br_status = ''success'', br_database = ''Saved'', br_bland = [(''call_id'', JStr ''b1'')],
           br_redis_session = Some (booking_of demo_booking)\<rparr>"
  using booking_is_saved_before_call [OF demo_legacy_jwt_ok issued_claims_ok(2) [of 60 "''u''"] refl,
      of "\<lparr>we_now = 0, we_get = Delivered, we_set = Delivered, we_del = Delivered\<rparr>"
        "\<lparr>lc_secret = ''k'', lc_expire_minutes = 30, lc_username = ''u'', lc_password = ''p''\<rparr>"
        "\<lambda>_. []" "\<lambda>_. Bland_answer (JObj [(''call_id'', JStr ''b1'')])" 7 demo_booking "([], Map.empty)"]
  by (simp add: whole_seconds_def dict_get_def demo_legacy_jwt_def)

section \<open>An unset secret\<close>

text \<open>
  \<open>app/core\<close> refuses to work without \<^verbatim>\<open>JWT_SECRET_KEY\<close>. \<open>app/auth\<close>, which guards the booking route, takes
  the empty key: a token anyone can sign is accepted.
\<close>

lemma unset_secret_lets_anyone_book:
  assumes "legacy_jwt_ok j" "lc_secret cfg = []" "whole_seconds (we_now env) \<le> e"
  shows "jwt_get_current_user j cfg (we_now env) (Some (jose_encode j [] [(''sub'', JStr anyone), (''exp'', JInt e)]))
      = Inr [(''sub'', JStr anyone), (''exp'', JInt e)]
    \<and> core_get_current_user j cfg (we_now env) (Some token) = Inl (Unhandled ''RuntimeError'')"
  using decode_issued(3) [OF assms(1) issued_claims_ok(2)] assms(2,3)
  by (simp add: jwt_get_current_user_def core_get_current_user_def decode_access_token_def)

end
