(* ===== verification/Spec2Isabelle.thy ===== *)
theory Spec2Isabelle
  imports Platform Noninterference Wiring CallStates MigratedSchema SeedData LegacyApp
begin

text \<open>
  A verification development for the Staykaro AI caller (Python, below \<^verbatim>\<open>src/\<close>).

  \<^bold>\<open>The program.\<close> A platform that answers and places telephone calls for hotels. Its services share one
  PostgreSQL database and one Redis server:

  \<^item> the API (\<^verbatim>\<open>services/api\<close>): accounts and tokens, the client dashboard, the platform administration,
    call requests, and an internal API for the other services: calls, phone routing and a durable job
    queue. Rows are isolated per tenant by row-level security.
  \<^item> the voice gateway (\<^verbatim>\<open>services/voice-gateway\<close>): receives the telephony provider's callbacks, records
    each event as a job through the internal API, creates and finalizes calls there, and keeps the
    live sessions in Redis. A call's audio arrives on a WebSocket and passes through speech recognition,
    a rule-based dialogue and speech synthesis.
  \<^item> the worker (\<^verbatim>\<open>services/worker\<close>): claims jobs over HTTP, hands each to the integration service
    (\<^verbatim>\<open>services/integration-service\<close>), and reports success or failure.
  \<^item> beside them: the Alembic migrations, the Exotel client (\<^verbatim>\<open>packages/providers\<close>), the seed script, and two
    predecessors still in the tree, the application under \<^verbatim>\<open>app/\<close> and the prototype of the gateway.

  \<^bold>\<open>The theories\<close>, each below those it imports:

  \<^item> \<open>Prelude\<close>: HTTP results, clocks, Python strings, JSON, tables as lists of rows, the three outcomes
    of a request between services (delivered, reply lost, not delivered), and the locales \<open>keyed_update\<close>,
    \<open>machine\<close> and \<open>measured_machine\<close>.
  \<^item> \<open>Models\<close>: the tables of \<^verbatim>\<open>models.py\<close> as records with their widths, checks and keys; \<open>schema_ok\<close>.
  \<^item> \<open>Interfaces\<close>: the contracts \<open>event_recorder\<close> and \<open>call_store\<close> as locales. They are interpreted on the
    job queue, its HTTP client and the in-memory recorder, and on the Redis and in-memory stores.
  \<^item> \<open>Jobs\<close> (\<^verbatim>\<open>routers/jobs.py\<close>): the queue as a state machine. A claim is exclusive, an event is
    recorded once, attempts are bounded, finished jobs stay finished, orphans are recovered; the queue
    refines a machine on single rows.
  \<^item> \<open>InternalAuth\<close> (\<^verbatim>\<open>verify_internal_token\<close> and its copies): the guard of the internal routes, which fails
    closed when no secret is set.
  \<^item> \<open>Worker\<close> (\<^verbatim>\<open>worker/src\<close> and the integration service): \<open>process_one\<close>, the loop, start and shutdown,
    against lost requests and lost replies; only processed jobs complete, executions are bounded, a
    job is found by its wake-up or by polling without one.
  \<^item> \<open>Calls\<close> (\<^verbatim>\<open>routers/internal.py\<close>): creating and finalizing calls; a call is decided once.
  \<^item> \<open>Sessions\<close> (\<^verbatim>\<open>voice-gateway/src/main.py\<close>, \<^verbatim>\<open>exotel_routes.py\<close>): sessions and stores over Redis.
  \<^item> \<open>Gateway\<close> (\<^verbatim>\<open>exotel_routes.py\<close>, \<^verbatim>\<open>internal_calls.py\<close>): the callback from its token to its effects,
    wired to the API; an event takes effect at most once.
  \<^item> \<open>Auth\<close> (\<^verbatim>\<open>auth.py\<close>, \<^verbatim>\<open>/auth\<close> of \<^verbatim>\<open>main.py\<close>): login, the two kinds of tokens.
  \<^item> \<open>Tenancy\<close> (\<^verbatim>\<open>tenant.py\<close>, \<^verbatim>\<open>database.py\<close>, the RLS migration, \<^verbatim>\<open>POST /call\<close>): policies, the tenant
    setting on pooled connections, and the limits of both.
  \<^item> \<open>Queries\<close>: pagination, ILIKE and calendar arithmetic of the two dashboards.
  \<^item> \<open>ClientApi\<close> (\<^verbatim>\<open>routers/client.py\<close>): each route depends on the tenant's own rows; customers are upserted.
  \<^item> \<open>AdminApi\<close> (\<^verbatim>\<open>routers/admin.py\<close>): changes are audited and keep the schema; tenant administrators
    stay in their tenant; passwords work and stay secret.
  \<^item> \<open>WavFile\<close>: the WAV container as \<^verbatim>\<open>wave.py\<close> writes and reads it, byte by byte (\<^verbatim>\<open>wrap_wav\<close> and the reading
    side of \<^verbatim>\<open>synthesize\<close>); audio is read back from the file it is wrapped in.
  \<^item> \<open>Dialogue\<close> (\<^verbatim>\<open>ai_provider.py\<close>, \<^verbatim>\<open>stt_provider.py\<close>, \<^verbatim>\<open>tts_provider.py\<close>): the patterns as an executable
    matcher, the replies, and the limits around recognition and synthesis.
  \<^item> \<open>Conversation\<close> (\<^verbatim>\<open>conversation.py\<close>): the three frame processors. Turn detection computes a specified
    segmentation of the audio, no speech is lost, and a call refines an abstract dialogue.
  \<^item> \<open>VoiceCall\<close> (\<^verbatim>\<open>voice_pipeline.py\<close>, draining in \<^verbatim>\<open>src/main.py\<close>): admission, the life of a call, and the
    gateway process as a step relation; the drain counts exactly and ends. The locale \<open>call_frame\<close>
    collects what a call's operations leave alone; its instances are the provider identifiers and the
    sessions of all other calls.
  \<^item> \<open>Platform\<close>: the services together, as one machine whose events are callbacks, media streams, gateway
    restarts, worker phases, reaps and the dashboards' writes. An accepted event reaches the integration
    service, no event is performed more than five times, the whole database stays consistent, and a call
    is followed from its answer through its stream to its end. The last section below follows a user from the login to a placed call.
  \<^item> \<open>Floats\<close>: IEEE doubles as far as the code uses them, with the error of a rounded quotient.
  \<^item> \<open>Monitoring\<close> (\<^verbatim>\<open>monitoring.py\<close> and the operational routes of \<^verbatim>\<open>main.py\<close>): the rolling window against
    the whole history, and thresholds that are exact although they are computed in doubles.
  \<^item> \<open>Routes\<close>: the route tables the decorators and \<^verbatim>\<open>include_router\<close> build in the API, the gateway and the
    integration service, the choice of a route for a path, and that no two routes of a table overlap, so
    that their order does not matter. \<open>HttpServer\<close>: the API as one server, from a request through
    dispatch, dependencies and handler to the middleware (\<open>api_app\<close>).
  \<^item> \<open>HttpAccess\<close>: no request without credentials reads or changes data, on any route; the requests of the
    worker's and the gateway's clients reach the handlers their models call. \<open>Noninterference\<close>: over any
    run of requests, what a tenant's users are answered and the tenant's data are the same as if the
    other tenants had made no request. The locale \<open>unwinding\<close> has the induction over runs; its instance
    \<open>tenants\<close> is the server.
  \<^item> \<open>Schema\<close>: the statements of the migrations as steps on a catalog of tables and rows, with a local
    and a global view of a run. \<open>Migrations\<close>: the five migrations and the metadata of \<^verbatim>\<open>models.py\<close>.
    \<open>CallStates\<close>: the call-state migration is undone exactly by its downgrade, on any rows, and every run
    keeps rows and columns in agreement. \<open>MigratedSchema\<close>: the head is the schema of the models, up to
    five listed differences, and every tenant table is isolated.
  \<^item> \<open>Startup\<close> (\<^verbatim>\<open>config.py\<close>, \<^verbatim>\<open>env.py\<close>, \<^verbatim>\<open>packages/providers\<close>): configuration, database URLs, the Exotel
    client, the options of the database engines. \<open>Wiring\<close>: what the modules of the services do when they
    are imported, their Redis clients, the key of the wake-up list and the addresses of the clients.
    \<open>SeedData\<close> (\<^verbatim>\<open>scripts/seed_dev.py\<close>): a second run creates nothing.
  \<^item> \<open>CallSession\<close> (\<^verbatim>\<open>call_session.py\<close>, \<^verbatim>\<open>app/services/redis_service.py\<close>) and \<open>LegacyApp\<close> (\<^verbatim>\<open>app/\<close>): the
    predecessors; a booking is stored before the provider is asked, the login cannot succeed, and a
    restart keeps every row. (\<^verbatim>\<open>_deprecated_prototype\<close> holds copies of the prototype's two files.)

  \<^bold>\<open>State and errors.\<close> A handler is a function from the state it reads to the state it leaves and an
  \<open>http_error\<close> or a value; every raise and early return is a branch, and an exception no code catches is
  \<open>Unhandled\<close> (status 500). Clocks and generated identifiers are arguments. Where two statements of a
  handler can be separated by another request and the outcome depends on it (\<open>complete_event_racing\<close>,
  \<open>fail_event_racing\<close>, \<open>create_call_racing\<close>, \<open>finalize_call_racing\<close>), the model takes the database at
  each of them. The JWT and bcrypt libraries are parameters, with \<open>jwt_ok\<close> and \<open>bcrypt_ok\<close> as what is
  relied on. PostgreSQL, Redis, SQLAlchemy, FastAPI and httpx are modelled as far as the code uses them.

  \<^bold>\<open>Bounds and fuel.\<close> The only function with an argument that bounds its steps is \<open>run_loop\<close>: the
  worker's loop runs until it is stopped, so its model takes the list of iterations it makes, and its
  theorems hold for every such list. The drain loop and the poll for a WAV file are followed step by
  step; \<open>poll_wav\<close> ends with the list of its observations, which the deadline bounds. The loop over the
  chunks of a WAV file (\<open>wave_chunks\<close>) is proved to terminate on every file. The claims on
  retries, executions and drain polls are numbers of steps of arbitrary runs, not of bounded ones.
  Columns have their widths; integers from requests are checked against the 32-bit columns they are
  stored in or compared with. The thresholds of the monitoring are proved exact for up to 10000
  samples, the size of its buffer.

  \<^bold>\<open>Not modelled.\<close> The libraries around the audio (Pipecat's transport, Whisper, pyttsx3) are arguments:
  a call is the sequence of frames it delivers, and silence is a predicate on a frame. Set-up code
  without decisions is left out: logging, socket timeouts and intervals, the CORS middleware, the documentation
  pages of the framework, the printing of the seed script, Alembic's offline mode. The conversion of a
  path parameter to an integer is a parameter (\<open>sv_int\<close>), and bodies and queries enter the server as
  the models they validate as. The dashboards' TypeScript is not modelled, nor is logging, which has no
  effect on state; alerts are log lines and are kept.

  \<^bold>\<open>Defects.\<close> Theorems of kind error state what the code does where that is not what it means to do:
  a refreshed token without a tenant, a tenant setting lost with its transaction, an event that is
  consumed although its effect failed, a completion whose loss repeats a side effect, administrative
  changes that are stored but answered with status 500, a drain that misses a call, crashes that no
  metric counts, and provider answers that escape the typed error. Lemmas state further ones: a speech
  model whose loading error escapes from every turn, a NULL provider that hides a page of numbers, a reset
  that is rolled back, a late failure report that exceeds the attempts, a health check that always
  fails, a login that never succeeds, a booking route that an unset secret opens, sessions that are
  active again after they ended, a dialed number that is cut at a question mark in a URL, speech that is
  cut short because its file was still being written, a Redis URL that stops the API although a guard
  is there, and a queue key that only one of its two users can change.
\<close>

section \<open>From the login to a call\<close>

text \<open>A successful login of an account gives a token that stands for exactly that account.\<close>

lemma login_user:
  assumes "jwt_ok j" "distinct (map us_email (t_admin_users d))" "u \<in> set (t_admin_users d)"
    and "login j bc cfg now \<lparr>lr_email = us_email u, lr_password = pw\<rparr> d = Inr tok"
    and "whole_seconds t \<le> whole_seconds (now + seconds (60 * ACCESS_TOKEN_EXPIRE_MINUTES cfg))"
  shows "get_current_user j cfg t (Some (tr_access_token tok)) =
    Inr (access_claims cfg now (us_id u) (the (py_or (us_role u) (Some ''agent''))) (us_tenant_id u) (us_email u)
      (us_full_name u))"
  using assms(4) unique_email_filter [OF assms(2,3)] access_token_user [OF assms(1)] assms(5)
  by (auto simp: login_def token_pair_def split: if_splits)

lemma made_call_row:
  assumes "make_call n t i session_id user body s = (s', Inr x)"
  shows "\<exists>phone. validate_phone (cq_phone_number body) = Some phone \<and> i \<notin> ca_id ` set (t_call_requests (cp_db s))
    \<and> cp_db s' = (cp_db s)\<lparr>t_call_requests :=
        t_call_requests (cp_db s) @ [new_caller i t user (body\<lparr>cq_phone_number := phone\<rparr>)]\<rparr>"
  using assms by (auto simp: make_call_def Let_def split: option.splits if_splits)

lemma tbl_get_filter_new:
  assumes "k \<notin> key ` set rows" "key r = k"
  shows "tbl_get key (filter P rows @ filter P [r]) k = (if P r then Some r else None)"
proof -
  have "tbl_get key (filter P rows) k = None" using assms(1) by (auto simp: tbl_get_None_iff)
  with assms(2) show ?thesis by simp
qed


definition demo_call_api :: call_api where
  "demo_call_api = \<lparr>cp_db = demo_client_db\<lparr>t_admin_users := t_admin_users demo_users\<rparr>, cp_redis = None\<rparr>"

definition demo_access :: claims where
  "demo_access = access_claims demo_auth 0 ''u1'' ''tenant_admin'' (Some 7) ''a@x'' ''A''"


end
